(* ===== verification/Prelude.thy ===== *)
theory Prelude
  imports Main "HOL-Library.Char_ord" "HOL-Library.List_Lexorder" "HOL-Library.Sublist"
begin

text \<open>
  Shared vocabulary of the development: results with errors as values, actions that thread a
  state and may raise, fallible traversal of a list, insertion-ordered dictionaries, and the
  lemma collections the component theories use.
\<close>

named_theorems validate_simps \<open>definitions of the validating constructors\<close>
named_theorems act_simps \<open>definitions of the state-and-error actions\<close>
named_theorems repo_simps \<open>definitions of the repository operations\<close>

section \<open>Results\<close>

text \<open>
  A Python function that may raise returns a value of \<open>'e + 'a\<close>: \<open>Inl e\<close> is the raised
  exception, \<open>Inr x\<close> the returned value.
\<close>

definition bind_r :: "'e + 'a \<Rightarrow> ('a \<Rightarrow> 'e + 'b) \<Rightarrow> 'e + 'b" where
  "bind_r r f = (case r of Inl e \<Rightarrow> Inl e | Inr x \<Rightarrow> f x)"

lemma bind_r_Inl [simp]: "bind_r (Inl e) f = Inl e"
  and bind_r_Inr [simp]: "bind_r (Inr x) f = f x"
  by (simp_all add: bind_r_def)

lemma bind_r_eq_Inr: "bind_r r f = Inr y \<longleftrightarrow> (\<exists>x. r = Inr x \<and> f x = Inr y)"
  by (cases r) auto

lemma bind_r_eq_Inl: "bind_r r f = Inl e \<longleftrightarrow> r = Inl e \<or> (\<exists>x. r = Inr x \<and> f x = Inl e)"
  by (cases r) auto

lemmas bind_r_iffs = bind_r_eq_Inr bind_r_eq_Inl

definition map_r :: "('a \<Rightarrow> 'b) \<Rightarrow> 'e + 'a \<Rightarrow> 'e + 'b" where
  "map_r f r = (case r of Inl e \<Rightarrow> Inl e | Inr x \<Rightarrow> Inr (f x))"

lemma map_r_Inl [simp]: "map_r f (Inl e) = Inl e"
  and map_r_Inr [simp]: "map_r f (Inr x) = Inr (f x)"
  by (simp_all add: map_r_def)

lemma map_r_eq_Inr: "map_r f r = Inr y \<longleftrightarrow> (\<exists>x. r = Inr x \<and> y = f x)"
  by (cases r) auto

lemma map_r_eq_Inl: "map_r f r = Inl e \<longleftrightarrow> r = Inl e"
  by (cases r) auto

definition is_ok :: "'e + 'a \<Rightarrow> bool" where
  "is_ok r = (case r of Inl _ \<Rightarrow> False | Inr _ \<Rightarrow> True)"

lemma is_ok_simps [simp]: "\<not> is_ok (Inl e)" "is_ok (Inr x)"
  by (simp_all add: is_ok_def)

text \<open>A comprehension whose element expression may raise stops at the first error.\<close>

fun traverse :: "('a \<Rightarrow> 'e + 'b) \<Rightarrow> 'a list \<Rightarrow> 'e + 'b list" where
  "traverse f [] = Inr []"
| "traverse f (x # xs) = bind_r (f x) (\<lambda>y. map_r (\<lambda>ys. y # ys) (traverse f xs))"

lemma traverse_Inr_iff: "traverse f xs = Inr ys \<longleftrightarrow> list_all2 (\<lambda>x y. f x = Inr y) xs ys"
  by (induction xs arbitrary: ys)
    (auto simp: bind_r_eq_Inr map_r_eq_Inr list_all2_Cons1)

lemma traverse_length: "traverse f xs = Inr ys \<Longrightarrow> length ys = length xs"
  by (auto simp: traverse_Inr_iff dest: list_all2_lengthD)

lemma traverse_total: "(\<And>x. x \<in> set xs \<Longrightarrow> f x = Inr (g x)) \<Longrightarrow> traverse f xs = Inr (map g xs)"
  by (induction xs) auto

lemma traverse_cong: "(\<And>x. x \<in> set xs \<Longrightarrow> f x = g x) \<Longrightarrow> xs = ys \<Longrightarrow> traverse f xs = traverse g ys"
  by (induction xs arbitrary: ys) auto

lemma traverse_Inl_witness: "traverse f xs = Inl e \<Longrightarrow> \<exists>x\<in>set xs. f x = Inl e"
  by (induction xs) (auto simp: bind_r_eq_Inl map_r_eq_Inl)

lemma traverse_mem: "traverse f xs = Inr ys \<Longrightarrow> y \<in> set ys \<Longrightarrow> \<exists>x\<in>set xs. f x = Inr y"
  by (induction xs arbitrary: ys) (auto simp: bind_r_eq_Inr map_r_eq_Inr)

section \<open>Actions: a state is threaded, an exception may be raised\<close>

text \<open>
  An \<open>async\<close> method that may raise and changes state is a function from the state to the
  result and the state it leaves; the state survives an exception, as in Python.
\<close>

type_synonym ('s, 'e, 'a) act = "'s \<Rightarrow> ('e + 'a) \<times> 's"

definition ret_a :: "'a \<Rightarrow> ('s, 'e, 'a) act" where
  "ret_a x s = (Inr x, s)"

definition raise_a :: "'e \<Rightarrow> ('s, 'e, 'a) act" where
  "raise_a e s = (Inl e, s)"

definition bind_a :: "('s, 'e, 'a) act \<Rightarrow> ('a \<Rightarrow> ('s, 'e, 'b) act) \<Rightarrow> ('s, 'e, 'b) act" where
  "bind_a m f s = (case m s of (r, s') \<Rightarrow> (case r of Inl e \<Rightarrow> (Inl e, s') | Inr x \<Rightarrow> f x s'))"

definition lift_a :: "'e + 'a \<Rightarrow> ('s, 'e, 'a) act" where
  "lift_a r s = (r, s)"

definition get_a :: "('s \<Rightarrow> 'a) \<Rightarrow> ('s, 'e, 'a) act" where
  "get_a f s = (Inr (f s), s)"

text \<open>A read that may raise.\<close>

definition read_a :: "('s \<Rightarrow> 'e + 'a) \<Rightarrow> ('s, 'e, 'a) act" where
  "read_a f s = (f s, s)"

definition modify_a :: "('s \<Rightarrow> 's) \<Rightarrow> ('s, 'e, unit) act" where
  "modify_a f s = (Inr (), f s)"

declare ret_a_def [act_simps] raise_a_def [act_simps] bind_a_def [act_simps]
  lift_a_def [act_simps] get_a_def [act_simps] modify_a_def [act_simps] read_a_def [act_simps]

lemma bind_a_eq_Inr:
  "bind_a m f s = (Inr y, s'') \<longleftrightarrow> (\<exists>x s'. m s = (Inr x, s') \<and> f x s' = (Inr y, s''))"
  by (auto simp: bind_a_def split: prod.splits sum.splits)

lemma bind_a_eq_Inl:
  "bind_a m f s = (Inl e, s'') \<longleftrightarrow>
     m s = (Inl e, s'') \<or> (\<exists>x s'. m s = (Inr x, s') \<and> f x s' = (Inl e, s''))"
  by (auto simp: bind_a_def split: prod.splits sum.splits)

lemma basic_act_iffs [simp]:
  "ret_a x s = (Inr y, s') \<longleftrightarrow> x = y \<and> s' = s" "ret_a x s = (Inl e, s') \<longleftrightarrow> False"
  "raise_a e' s = (Inl e, s') \<longleftrightarrow> e' = e \<and> s' = s" "raise_a e' s = (Inr y, s') \<longleftrightarrow> False"
  "lift_a r s = (q, s') \<longleftrightarrow> r = q \<and> s' = s"
  "read_a f s = (q, s') \<longleftrightarrow> f s = q \<and> s' = s"
  by (auto simp: act_simps)

lemmas bind_a_iffs = bind_a_eq_Inr bind_a_eq_Inl

text \<open>An action keeps a predicate of the state when every run of it does, however it ends.\<close>

definition keeps :: "('s \<Rightarrow> bool) \<Rightarrow> ('s, 'e, 'a) act \<Rightarrow> bool" where
  "keeps P m \<longleftrightarrow> (\<forall>s. P s \<longrightarrow> P (snd (m s)))"

lemma keepsD: "keeps P m \<Longrightarrow> P s \<Longrightarrow> m s = (r, s') \<Longrightarrow> P s'"
proof -
  assume m: "m s = (r, s')"
  assume "keeps P m" "P s"
  then have "P (snd (m s))" by (simp add: keeps_def)
  with m show "P s'" by simp
qed

lemma keeps_ret_a [intro, simp]: "keeps P (ret_a x)"
  by (simp add: keeps_def ret_a_def)

lemma keeps_raise_a [intro, simp]: "keeps P (raise_a e)"
  by (simp add: keeps_def raise_a_def)

lemma keeps_lift_a [intro, simp]: "keeps P (lift_a r)"
  by (simp add: keeps_def lift_a_def)

lemma keeps_read_a [intro, simp]: "keeps P (read_a f)"
  by (simp add: keeps_def read_a_def)

lemma keeps_bind_a [intro]: "keeps P m \<Longrightarrow> (\<And>x. keeps P (f x)) \<Longrightarrow> keeps P (bind_a m f)"
  unfolding keeps_def bind_a_def by (auto split: prod.splits sum.splits)

section \<open>Insertion-ordered dictionaries\<close>

text \<open>
  A Python \<open>dict\<close> is an association list with distinct keys, in insertion order: assigning to
  an existing key keeps its position.
\<close>

type_synonym ('k, 'v) dict = "('k \<times> 'v) list"

definition dict_get :: "('k, 'v) dict \<Rightarrow> 'k \<Rightarrow> 'v option" where
  "dict_get d k = map_of d k"

fun dict_set :: "'k \<Rightarrow> 'v \<Rightarrow> ('k, 'v) dict \<Rightarrow> ('k, 'v) dict" where
  "dict_set k v [] = [(k, v)]"
| "dict_set k v ((k', v') # d) = (if k' = k then (k, v) # d else (k', v') # dict_set k v d)"

definition dict_keys :: "('k, 'v) dict \<Rightarrow> 'k list" where
  "dict_keys d = map fst d"

lemma map_of_dict_set [simp]: "map_of (dict_set k v d) = (map_of d)(k \<mapsto> v)"
  by (induction k v d rule: dict_set.induct) auto

lemma dict_get_set [simp]: "dict_get (dict_set k v d) k' = (if k' = k then Some v else dict_get d k')"
  by (simp add: dict_get_def)

lemma set_keys_dict_set [simp]: "fst ` set (dict_set k v d) = insert k (fst ` set d)"
  by (induction k v d rule: dict_set.induct) auto

lemma distinct_dict_set: "distinct (map fst d) \<Longrightarrow> distinct (map fst (dict_set k v d))"
  by (induction k v d rule: dict_set.induct) auto

lemma dict_set_fresh: "k \<notin> fst ` set d \<Longrightarrow> dict_set k v d = d @ [(k, v)]"
  by (induction k v d rule: dict_set.induct) auto

text \<open>Building a dictionary from pairs, the last value of a repeated key winning.\<close>

definition dict_of_pairs :: "('k \<times> 'v) list \<Rightarrow> ('k, 'v) dict" where
  "dict_of_pairs ps = foldl (\<lambda>d (k, v). dict_set k v d) [] ps"

lemma dict_of_pairs_distinct_aux:
  "distinct (map fst (d @ ps)) \<Longrightarrow> foldl (\<lambda>d (k, v). dict_set k v d) d ps = d @ ps"
proof (induction ps arbitrary: d)
  case Nil
  then show ?case by simp
next
  case (Cons p ps)
  obtain k v where p: "p = (k, v)" by (cases p)
  with Cons.prems have "dict_set k v d = d @ [p]"
    by (auto intro!: dict_set_fresh)
  with Cons p show ?case by simp
qed

lemma dict_of_pairs_distinct: "distinct (map fst ps) \<Longrightarrow> dict_of_pairs ps = ps"
  using dict_of_pairs_distinct_aux [of "[]" ps] by (simp add: dict_of_pairs_def)

lemma distinct_dict_of_pairs_aux:
  "distinct (map fst d) \<Longrightarrow> distinct (map fst (foldl (\<lambda>d (k, v). dict_set k v d) d ps))"
  by (induction ps arbitrary: d) (auto simp: distinct_dict_set)

lemma distinct_dict_of_pairs: "distinct (map fst (dict_of_pairs ps))"
  unfolding dict_of_pairs_def by (rule distinct_dict_of_pairs_aux) simp

section \<open>Lists\<close>

lemma sum_list_map_nonneg: "(\<And>x. x \<in> set xs \<Longrightarrow> 0 \<le> f x) \<Longrightarrow> 0 \<le> sum_list (map f xs :: int list)"
  by (induction xs) auto

lemma find_SomeD: "find P xs = Some x \<Longrightarrow> P x \<and> x \<in> set xs"
  by (auto simp: find_Some_iff)

end
