(* ===== verification/Uuid.thy ===== *)
theory Uuid
  imports PyString "HOL-Library.Word"
begin

text \<open>
  Identifiers: a \<open>UUID\<close> is a 128-bit integer, and \<open>str(uuid)\<close> is its 32 hexadecimal digits
  in groups of 8, 4, 4, 4 and 12. The text has a fixed length and determines the identifier, on
  which the separation of the tenants' Redis keys rests.
\<close>

type_synonym uuid = "128 word"

definition hex_char :: "nat \<Rightarrow> char" where
  "hex_char d = (if d < 10 then char_of (48 + d) else char_of (87 + d))"

fun hex_digits :: "nat \<Rightarrow> nat \<Rightarrow> string" where
  "hex_digits 0 n = []"
| "hex_digits (Suc k) n = hex_digits k (n div 16) @ [hex_char (n mod 16)]"

lemma length_hex_digits [simp]: "length (hex_digits k n) = k"
  by (induction k arbitrary: n) auto

lemma ord_of_hex_char: "d < 16 \<Longrightarrow> ord_of (hex_char d) = (if d < 10 then 48 + d else 87 + d)"
  by (simp add: hex_char_def)

lemma hex_char_inj: "a < 16 \<Longrightarrow> b < 16 \<Longrightarrow> hex_char a = hex_char b \<Longrightarrow> a = b"
proof -
  assume ab: "a < 16" "b < 16" and eq: "hex_char a = hex_char b"
  have "ord_of (hex_char a) = ord_of (hex_char b)" using eq by simp
  then show "a = b" using ab by (auto simp: ord_of_hex_char split: if_splits)
qed

lemma hex_digits_inj: "hex_digits k m = hex_digits k n \<Longrightarrow> m mod 16 ^ k = n mod 16 ^ k"
proof (induction k arbitrary: m n)
  case 0
  then show ?case by simp
next
  case (Suc k)
  then have high: "hex_digits k (m div 16) = hex_digits k (n div 16)"
    and low: "hex_char (m mod 16) = hex_char (n mod 16)" by auto
  from low have "m mod 16 = n mod 16" by (rule hex_char_inj [rotated 2]) simp_all
  moreover from high have "m div 16 mod 16 ^ k = n div 16 mod 16 ^ k" by (rule Suc.IH)
  ultimately show ?case
    by (simp only: power_Suc mod_mult2_eq [of m 16 "16 ^ k"] mod_mult2_eq [of n 16 "16 ^ k"])
qed

definition group_hex :: "string \<Rightarrow> string" where
  "group_hex h = take 8 h @ ''-'' @ take 4 (drop 8 h) @ ''-'' @ take 4 (drop 12 h) @ ''-'' @
     take 4 (drop 16 h) @ ''-'' @ drop 20 h"

definition uuid_str :: "uuid \<Rightarrow> string" where
  "uuid_str u = group_hex (hex_digits 32 (unat u))"

lemma length_group_hex: "length h = 32 \<Longrightarrow> length (group_hex h) = 36"
  by (simp add: group_hex_def)

lemma group_hex_inj:
  assumes "length h = 32" and "length k = 32" and "group_hex h = group_hex k"
  shows "h = k"
proof -
  have parts: "take 8 h = take 8 k \<and> take 4 (drop 8 h) = take 4 (drop 8 k) \<and>
      take 4 (drop 12 h) = take 4 (drop 12 k) \<and> take 4 (drop 16 h) = take 4 (drop 16 k) \<and>
      drop 20 h = drop 20 k"
    using assms by (auto simp: group_hex_def append_eq_append_conv)
  have join: "x = take 8 x @ take 4 (drop 8 x) @ take 4 (drop 12 x) @ take 4 (drop 16 x) @ drop 20 x"
    for x :: string
  proof -
    have "drop 16 x = take 4 (drop 16 x) @ drop 20 x"
      using append_take_drop_id [of 4 "drop 16 x"] by simp
    moreover have "drop 12 x = take 4 (drop 12 x) @ drop 16 x"
      using append_take_drop_id [of 4 "drop 12 x"] by simp
    moreover have "drop 8 x = take 4 (drop 8 x) @ drop 12 x"
      using append_take_drop_id [of 4 "drop 8 x"] by simp
    moreover have "x = take 8 x @ drop 8 x" by simp
    ultimately show ?thesis by metis
  qed
  show ?thesis using parts join [of h] join [of k] by metis
qed

lemma length_uuid_str [simp]: "length (uuid_str u) = 36"
  unfolding uuid_str_def by (rule length_group_hex) (rule length_hex_digits)

lemma uuid_str_inj:
  assumes "uuid_str u = uuid_str v"
  shows "u = v"
proof -
  have "hex_digits 32 (unat u) = hex_digits 32 (unat v)"
    using assms unfolding uuid_str_def by (rule group_hex_inj [OF length_hex_digits length_hex_digits])
  then have "unat u mod 16 ^ 32 = unat v mod 16 ^ 32" by (rule hex_digits_inj)
  moreover have "unat w < 16 ^ 32" for w :: uuid
    using unsigned_less [of w, where ?'a = nat] by simp
  ultimately have "unat u = unat v" by (metis mod_less)
  then show "u = v" by (simp add: word_unat_eq_iff)
qed

lemma uuid_str_eq [simp]: "uuid_str u = uuid_str v \<longleftrightarrow> u = v"
  by (auto dest: uuid_str_inj)

text \<open>A prefix, an identifier, a separator and a tail: the identifier and the tail are determined.\<close>

lemma uuid_key_inj: "p @ uuid_str u @ s @ x = p @ uuid_str v @ s @ y \<Longrightarrow> u = v \<and> x = y"
  by (auto simp: append_eq_append_conv)

end
