(* ===== verification/Errors.thy ===== *)
theory Errors
  imports Uuid
begin

text \<open>
  The exceptions of the program, as one datatype. The arguments are what the exception carries:
  a message where handlers print it, the attributes the callers read (retry-after seconds, model,
  provider), the identifier in the message otherwise.
\<close>

section \<open>Provider errors (providers/errors.py)\<close>

text \<open>
  \<open>OpenAIProviderError\<close>, \<open>AnthropicProviderError\<close> and \<open>GeminiProviderError\<close> are
  subclasses of \<open>ProviderError\<close>; the class is the \<open>pe_class\<close> field.
\<close>

datatype provider_class = BaseProviderError | OpenAIProviderError | AnthropicProviderError | GeminiProviderError

record provider_error =
  pe_class :: provider_class
  pe_message :: string
  pe_retryable :: bool
  pe_status :: "int option"

definition RETRYABLE_HTTP_STATUS_CODES :: "int list" where
  "RETRYABLE_HTTP_STATUS_CODES = [429, 500, 502, 503, 504]"

definition is_retryable_http_status :: "int \<Rightarrow> bool" where
  "is_retryable_http_status status_code = (status_code \<in> set RETRYABLE_HTTP_STATUS_CODES)"

definition mk_provider_error :: "provider_class \<Rightarrow> string \<Rightarrow> bool \<Rightarrow> int option \<Rightarrow> provider_error" where
  "mk_provider_error cls message retryable status_code =
     \<lparr>pe_class = cls, pe_message = message, pe_retryable = retryable, pe_status = status_code\<rparr>"

definition from_http_status :: "provider_class \<Rightarrow> string \<Rightarrow> int \<Rightarrow> provider_error" where
  "from_http_status cls message status_code =
     mk_provider_error cls message (is_retryable_http_status status_code) (Some status_code)"

definition transient_error :: "provider_class \<Rightarrow> string \<Rightarrow> provider_error" where
  "transient_error cls message = mk_provider_error cls message True None"

section \<open>API error codes (api/errors.py)\<close>

datatype error_code =
    INVALID_REQUEST | UNAUTHORIZED | FORBIDDEN | RATE_LIMITED | QUOTA_EXCEEDED | MODEL_NOT_AVAILABLE
  | UNSUPPORTED_MODEL | CONFLICT | PROMPT_NOT_FOUND | MCP_SERVER_NOT_FOUND | MCP_ERROR
  | ORGANIZATION_NOT_FOUND | API_KEY_NOT_FOUND | CONTEXT_LENGTH_EXCEEDED | PROVIDER_ERROR | INTERNAL_ERROR

fun error_code_value :: "error_code \<Rightarrow> string" where
  "error_code_value INVALID_REQUEST = ''invalid_request''"
| "error_code_value UNAUTHORIZED = ''unauthorized''"
| "error_code_value FORBIDDEN = ''forbidden''"
| "error_code_value RATE_LIMITED = ''rate_limited''"
| "error_code_value QUOTA_EXCEEDED = ''quota_exceeded''"
| "error_code_value MODEL_NOT_AVAILABLE = ''model_not_available''"
| "error_code_value UNSUPPORTED_MODEL = ''unsupported_model''"
| "error_code_value CONFLICT = ''conflict''"
| "error_code_value PROMPT_NOT_FOUND = ''prompt_not_found''"
| "error_code_value MCP_SERVER_NOT_FOUND = ''mcp_server_not_found''"
| "error_code_value MCP_ERROR = ''mcp_error''"
| "error_code_value ORGANIZATION_NOT_FOUND = ''organization_not_found''"
| "error_code_value API_KEY_NOT_FOUND = ''api_key_not_found''"
| "error_code_value CONTEXT_LENGTH_EXCEEDED = ''context_length_exceeded''"
| "error_code_value PROVIDER_ERROR = ''provider_error''"
| "error_code_value INTERNAL_ERROR = ''internal_error''"

record api_error =
  ae_code :: error_code
  ae_message :: string
  ae_status :: int
  ae_headers :: "(string \<times> string) list"

section \<open>All exceptions\<close>

datatype exn =
    DomainValidationError string
  | ApiKeyNotFoundError uuid
  | ApiKeyAlreadyRevokedError uuid
  | InvalidApiKeyCredentialsError
  | OrganizationNotFoundError uuid
  | OrganizationSlugConflictError string
  | OrganizationSuspendedError uuid
  | ModelNotAvailableError string
  | QuotaExceededError int
  | RateLimitExceededError int
  | UnsupportedModelError string
  | ProviderNotRegisteredError string
  | ProviderErr provider_error
  | IdempotencyConflictError
  | PromptNotFoundError string "int option"
  | PromptVersionConflictError
  | ContextLimitExceededError
  | McpServerNotFoundError string
  | McpServerNameConflictError string
  | McpError string
  | APIError api_error
  | RequestValidationError "(string list \<times> string) list"
  | ValueError string
  | JSONDecodeError
  | PyKeyError string
  | PyTypeError
  | PyAttributeError
  | PyAssertionError
  | PyOverflowError
  | LookupError string
  | HTTPError
  | IntegrityError
  | DataError

text \<open>
  \<open>DomainValidationError\<close> and \<open>JSONDecodeError\<close> are subclasses of \<open>ValueError\<close>, which matters
  where code catches \<open>ValueError\<close>.
\<close>

definition is_value_error :: "exn \<Rightarrow> bool" where
  "is_value_error e = (case e of DomainValidationError _ \<Rightarrow> True | ValueError _ \<Rightarrow> True
     | JSONDecodeError \<Rightarrow> True | _ \<Rightarrow> False)"

text \<open>\<open>except (KeyError, TypeError, ValueError)\<close>.\<close>

definition is_malformed_payload :: "exn \<Rightarrow> bool" where
  "is_malformed_payload e = (is_value_error e \<or> (case e of PyKeyError _ \<Rightarrow> True | PyTypeError \<Rightarrow> True | _ \<Rightarrow> False))"

section \<open>Blank-string validation\<close>

text \<open>\<open>_require_non_blank(value, field_name)\<close>, defined alike in each domain module.\<close>

definition require_non_blank :: "string \<Rightarrow> string \<Rightarrow> exn + unit" where
  "require_non_blank v field =
     (if blank v then Inl (DomainValidationError (field @ '' must not be empty or blank'')) else Inr ())"

lemma require_non_blank_Inr [simp]: "require_non_blank v f = Inr u \<longleftrightarrow> \<not> blank v"
  by (simp add: require_non_blank_def)

lemma require_non_blank_Inl: "require_non_blank v f = Inl e \<longleftrightarrow>
    blank v \<and> e = DomainValidationError (f @ '' must not be empty or blank'')"
  by (auto simp: require_non_blank_def)

text \<open>\<open>if cond: raise DomainValidationError(msg)\<close>.\<close>

definition reject_if :: "bool \<Rightarrow> string \<Rightarrow> exn + unit" where
  "reject_if b msg = (if b then Inl (DomainValidationError msg) else Inr ())"

lemma reject_if_Inr [simp]: "reject_if b m = Inr u \<longleftrightarrow> \<not> b"
  by (simp add: reject_if_def)

lemma reject_if_Inl: "reject_if b m = Inl e \<longleftrightarrow> b \<and> e = DomainValidationError m"
  by (auto simp: reject_if_def)

lemmas reject_iffs = reject_if_Inl require_non_blank_Inl

lemma reject_if_simps [simp]: "reject_if False m = Inr ()" "reject_if True m = Inl (DomainValidationError m)"
  by (simp_all add: reject_if_def)

lemma require_non_blank_ok: "\<not> blank v \<Longrightarrow> require_non_blank v f = Inr ()"
  by (simp add: require_non_blank_def)

end
