(* ===== verification/PyFloat.thy ===== *)
theory PyFloat
  imports PyString Complex_Main
begin

text \<open>
  Python floats: the finite values as the rationals they denote, the infinities and NaN (the sign
  of zero is not kept). Reading a decimal literal rounds to the nearest binary64 value, ties to
  even; \<open>float.__repr__\<close> prints the shortest decimal that reads back as the same value.
\<close>

datatype pyfloat = Fin rat | PosInf | NegInf | NaN

definition float_isfinite :: "pyfloat \<Rightarrow> bool" where
  "float_isfinite x = (case x of Fin _ \<Rightarrow> True | _ \<Rightarrow> False)"

fun float_le :: "pyfloat \<Rightarrow> pyfloat \<Rightarrow> bool" where
  "float_le (Fin a) (Fin b) = (a \<le> b)"
| "float_le NaN _ = False"
| "float_le _ NaN = False"
| "float_le NegInf _ = True"
| "float_le _ PosInf = True"
| "float_le _ _ = False"

fun float_less :: "pyfloat \<Rightarrow> pyfloat \<Rightarrow> bool" where
  "float_less (Fin a) (Fin b) = (a < b)"
| "float_less NaN _ = False"
| "float_less _ NaN = False"
| "float_less NegInf NegInf = False"
| "float_less NegInf _ = True"
| "float_less PosInf _ = False"
| "float_less _ PosInf = True"
| "float_less (Fin _) NegInf = False"

definition pow_rat :: "rat \<Rightarrow> int \<Rightarrow> rat" where
  "pow_rat b e = (if 0 \<le> e then b ^ nat e else 1 / b ^ nat (- e))"

text \<open>Nearest integer, ties to even.\<close>

definition round_half_even :: "rat \<Rightarrow> int" where
  "round_half_even x = (let f = \<lfloor>x\<rfloor>; r = x - of_int f in
     if r < 1 / 2 then f else if 1 / 2 < r then f + 1 else if even f then f else f + 1)"

lemma round_half_even_of_int [simp]: "round_half_even (of_int i) = i"
  by (simp add: round_half_even_def)

lemma round_half_even_error: "\<bar>x - of_int (round_half_even x)\<bar> \<le> 1 / 2"
proof -
  have "of_int \<lfloor>x\<rfloor> \<le> x" and "x < of_int \<lfloor>x\<rfloor> + 1" by linarith+
  then show ?thesis by (auto simp: round_half_even_def Let_def)
qed

text \<open>Number of digits of \<open>n\<close> in base \<open>b\<close>, and the floor of the base-\<open>b\<close> logarithm of a positive rational.\<close>

function ndigits :: "nat \<Rightarrow> nat \<Rightarrow> nat" where
  "ndigits b n = (if n = 0 \<or> b < 2 then 0 else Suc (ndigits b (n div b)))"
  by pat_completeness auto
termination by (relation "measure snd") auto

declare ndigits.simps [simp del]

definition flog :: "nat \<Rightarrow> rat \<Rightarrow> int" where
  "flog b x = (let (n, d) = quotient_of x;
       e = int (ndigits b (nat n)) - int (ndigits b (nat d))
     in if pow_rat (of_nat b) e \<le> x then e else e - 1)"

definition float_of_rat :: "rat \<Rightarrow> pyfloat" where
  "float_of_rat x = (if x = 0 then Fin 0 else
     let a = \<bar>x\<bar>; p = max (flog 2 a - 52) (- 1074);
         v = of_int (round_half_even (a / pow_rat 2 p)) * pow_rat 2 p
     in if pow_rat 2 1024 \<le> v then (if 0 < x then PosInf else NegInf)
        else Fin (if 0 < x then v else - v))"

text \<open>
  Shortest round-tripping decimal of a positive \<open>a\<close> with \<open>k = \<lfloor>log10 a\<rfloor>\<close>: for each
  length the two neighbouring decimals are tried, the nearer one first.
\<close>

definition repr_candidate :: "rat \<Rightarrow> int \<Rightarrow> nat \<Rightarrow> (int \<times> int) option" where
  "repr_candidate a k n = (let q = k - int n + 1; y = a / pow_rat 10 q; f = \<lfloor>y\<rfloor>;
       near = round_half_even y; far = (if near = f then f + 1 else f);
       ok = (\<lambda>m. float_of_rat (of_int m * pow_rat 10 q) = Fin a)
     in if ok near then Some (near, q) else if ok far then Some (far, q) else None)"

fun repr_search :: "rat \<Rightarrow> int \<Rightarrow> nat list \<Rightarrow> int \<times> int" where
  "repr_search a k [] = (round_half_even (a / pow_rat 10 (k - 16)), k - 16)"
| "repr_search a k (n # ns) = (case repr_candidate a k n of Some r \<Rightarrow> r | None \<Rightarrow> repr_search a k ns)"

text \<open>Positional notation for decimal exponents from -4 to 15, scientific notation otherwise.\<close>

definition repr_digits :: "string \<Rightarrow> int \<Rightarrow> string" where
  "repr_digits ds pt = (let n = int (length ds) in
     if - 4 < pt \<and> pt \<le> 16 then
       (if pt \<le> 0 then ''0.'' @ replicate (nat (- pt)) CHR ''0'' @ ds
        else if n \<le> pt then ds @ replicate (nat (pt - n)) CHR ''0'' @ ''.0''
        else take (nat pt) ds @ ''.'' @ drop (nat pt) ds)
     else (let e = pt - 1; m = (if n = 1 then ds else take 1 ds @ ''.'' @ drop 1 ds);
               x = str_of_nat (nat \<bar>e\<bar>)
           in m @ ''e'' @ (if e < 0 then ''-'' else ''+'') @ (if length x < 2 then ''0'' @ x else x)))"

definition repr_pos :: "rat \<Rightarrow> string" where
  "repr_pos a = (let (m, q) = repr_search a (flog 10 a) [1..<18];
       ds = str_of_nat (nat m); pt = int (length ds) + q;
       ds' = rev (dropWhile (\<lambda>c. c = CHR ''0'') (rev ds))
     in repr_digits ds' pt)"

definition repr_float :: "pyfloat \<Rightarrow> string" where
  "repr_float x = (case x of
       NaN \<Rightarrow> ''nan'' | PosInf \<Rightarrow> ''inf'' | NegInf \<Rightarrow> ''-inf''
     | Fin a \<Rightarrow> if a = 0 then ''0.0'' else if 0 < a then repr_pos a else CHR ''-'' # repr_pos (- a))"

section \<open>Small integers are floats\<close>

lemma ndigits_bound: "n < b ^ k \<Longrightarrow> 2 \<le> b \<Longrightarrow> ndigits b n \<le> k"
proof (induction k arbitrary: n)
  case 0
  then show ?case by (simp add: ndigits.simps)
next
  case (Suc k)
  have "n div b < b ^ k" using Suc.prems by (intro less_mult_imp_div_less) (simp add: mult.commute)
  with Suc.IH [of "n div b"] Suc.prems(2) show ?case by (subst ndigits.simps) simp
qed

text \<open>Natural numbers below \<open>2 ^ 53\<close> are floats.\<close>

lemma flog_small: "n < 2 ^ 53 \<Longrightarrow> flog 2 (of_nat n) \<le> 52"
proof -
  assume n: "n < 2 ^ 53"
  have q: "quotient_of (of_nat n) = (int n, 1)" using quotient_of_int [of "int n"] by simp
  have "ndigits 2 n \<le> 53" using ndigits_bound [OF n] by simp
  moreover have "ndigits 2 1 = 1" by (simp add: ndigits.simps)
  ultimately show ?thesis by (simp add: flog_def q Let_def)
qed

lemma pow_rat_scale: "p \<le> 0 \<Longrightarrow> of_int (round_half_even (of_nat n / pow_rat 2 p)) * pow_rat 2 p = of_nat n"
proof -
  assume p: "p \<le> 0"
  have "of_nat n / pow_rat 2 p = of_int (int n * 2 ^ nat (- p))" using p by (simp add: pow_rat_def)
  then show ?thesis using p by (simp only: round_half_even_of_int) (simp add: pow_rat_def)
qed

lemma float_of_small: "n < 2 ^ 53 \<Longrightarrow> float_of_rat (of_nat n) = Fin (of_nat n)"
proof -
  assume n: "n < 2 ^ 53"
  let ?p = "max (flog 2 (of_nat n) - 52) (- 1074)"
  have v: "of_int (round_half_even (of_nat n / pow_rat 2 ?p)) * pow_rat 2 ?p = of_nat n"
    using flog_small [OF n] by (intro pow_rat_scale) simp
  have "(of_nat n :: rat) < 2 ^ 53" using n by (metis of_nat_less_iff of_nat_numeral of_nat_power)
  also have "\<dots> \<le> pow_rat 2 1024" by (simp add: pow_rat_def)
  finally have "\<not> pow_rat 2 1024 \<le> of_nat n" by simp
  with v show ?thesis by (simp add: float_of_rat_def Let_def)
qed
end
