(* ===== verification/Json.thy ===== *)
theory Json
  imports PyFloat Uuid
begin

text \<open>
  JSON values as \<open>json.loads\<close> builds them, the compact \<open>json.dumps\<close> with
  \<open>ensure_ascii=True\<close>, and the decoder of \<open>json.loads\<close>. The decoder is a recursive descent
  over the remaining text with fuel; \<open>loads\<close> gives it enough for any text, which
  \<open>parse_fuel_enough\<close> shows. The main result is that decoding the encoding of a well-formed
  value without floats gives the value back.
\<close>

datatype json =
    JNull
  | JBool bool
  | JInt int
  | JFloat pyfloat
  | JStr string
  | JArr "json list"
  | JObj "(string \<times> json) list"

section \<open>Encoding\<close>

abbreviation quote_char :: char where "quote_char \<equiv> CHR 0x22"
abbreviation backslash :: char where "backslash \<equiv> CHR 0x5C"

text \<open>\<open>ESCAPE_ASCII\<close>: quote, backslash and everything outside space to tilde is escaped.\<close>

definition escape_char :: "char \<Rightarrow> string" where
  "escape_char c =
     (if c = quote_char then [backslash, quote_char]
      else if c = backslash then [backslash, backslash]
      else if c = CHR 0x0A then backslash # ''n''
      else if c = CHR 0x0D then backslash # ''r''
      else if c = CHR 0x09 then backslash # ''t''
      else if c = CHR 0x0C then backslash # ''f''
      else if c = CHR 0x08 then backslash # ''b''
      else if 32 \<le> ord_of c \<and> ord_of c \<le> 126 then [c]
      else backslash # CHR ''u'' # hex_digits 4 (ord_of c))"

definition escape_string :: "string \<Rightarrow> string" where
  "escape_string s = concat (map escape_char s)"

definition dumps_string :: "string \<Rightarrow> string" where
  "dumps_string s = quote_char # escape_string s @ [quote_char]"

definition dumps_float :: "pyfloat \<Rightarrow> string" where
  "dumps_float x = (case x of NaN \<Rightarrow> ''NaN'' | PosInf \<Rightarrow> ''Infinity'' | NegInf \<Rightarrow> ''-Infinity''
     | Fin a \<Rightarrow> repr_float (Fin a))"

text \<open>\<open>json.dumps\<close> with the item and key separators as parameters.\<close>

fun dumps_with :: "string \<Rightarrow> string \<Rightarrow> json \<Rightarrow> string" where
  "dumps_with isep ksep JNull = ''null''"
| "dumps_with isep ksep (JBool b) = (if b then ''true'' else ''false'')"
| "dumps_with isep ksep (JInt i) = str_of_int i"
| "dumps_with isep ksep (JFloat x) = dumps_float x"
| "dumps_with isep ksep (JStr s) = dumps_string s"
| "dumps_with isep ksep (JArr xs) = ''['' @ join isep (map (dumps_with isep ksep) xs) @ '']''"
| "dumps_with isep ksep (JObj kvs) =
     ''{'' @ join isep (map (\<lambda>kv. dumps_string (fst kv) @ ksep @ dumps_with isep ksep (snd kv)) kvs) @ ''}''"

abbreviation dumps_compact :: "json \<Rightarrow> string" where
  "dumps_compact \<equiv> dumps_with '','' '':''"

text \<open>\<open>sort_keys=True\<close> orders the members of every object by key.\<close>

fun sort_keys :: "json \<Rightarrow> json" where
  "sort_keys (JArr xs) = JArr (map sort_keys xs)"
| "sort_keys (JObj kvs) = JObj (sort_key fst (map (\<lambda>kv. (fst kv, sort_keys (snd kv))) kvs))"
| "sort_keys j = j"

section \<open>Decoding\<close>

definition is_json_ws :: "char \<Rightarrow> bool" where
  "is_json_ws c = (c = CHR '' '' \<or> c = CHR 0x09 \<or> c = CHR 0x0A \<or> c = CHR 0x0D)"

definition skip_ws :: "string \<Rightarrow> string" where
  "skip_ws s = dropWhile is_json_ws s"

definition hex_val :: "char \<Rightarrow> nat option" where
  "hex_val c = (let n = ord_of c in
     if 48 \<le> n \<and> n \<le> 57 then Some (n - 48)
     else if 97 \<le> n \<and> n \<le> 102 then Some (n - 87)
     else if 65 \<le> n \<and> n \<le> 70 then Some (n - 55) else None)"

fun hex_number :: "nat \<Rightarrow> string \<Rightarrow> nat option" where
  "hex_number acc [] = Some acc"
| "hex_number acc (c # cs) = (case hex_val c of None \<Rightarrow> None | Some d \<Rightarrow> hex_number (16 * acc + d) cs)"

definition unescape_char :: "char \<Rightarrow> char option" where
  "unescape_char c =
     (if c = quote_char then Some quote_char
      else if c = backslash then Some backslash
      else if c = CHR ''/'' then Some CHR ''/''
      else if c = CHR ''n'' then Some CHR 0x0A
      else if c = CHR ''r'' then Some CHR 0x0D
      else if c = CHR ''t'' then Some CHR 0x09
      else if c = CHR ''f'' then Some CHR 0x0C
      else if c = CHR ''b'' then Some CHR 0x08
      else None)"

definition push_char :: "char \<Rightarrow> (string \<times> string) option \<Rightarrow> (string \<times> string) option" where
  "push_char c r = map_option (\<lambda>(s, t). (c # s, t)) r"

text \<open>
  The body of a string literal after the opening quote. An escape of a code point above 255
  is outside the strings of the model and is not decoded.
\<close>

fun parse_string :: "string \<Rightarrow> (string \<times> string) option" where
  "parse_string [] = None"
| "parse_string (c # cs) =
     (if c = quote_char then Some ([], cs)
      else if c = backslash then
        (case cs of
           [] \<Rightarrow> None
         | e # ds \<Rightarrow>
             if e = CHR ''u'' then
               (case hex_number 0 (take 4 ds) of
                  Some n \<Rightarrow> if 4 \<le> length ds \<and> n < 256 then push_char (char_of n) (parse_string (drop 4 ds)) else None
                | None \<Rightarrow> None)
             else (case unescape_char e of Some x \<Rightarrow> push_char x (parse_string ds) | None \<Rightarrow> None))
      else if ord_of c < 32 then None
      else push_char c (parse_string cs))"

text \<open>The number scanner: integer part, optional fraction, optional exponent.\<close>

definition scan_frac :: "string \<Rightarrow> string \<times> string" where
  "scan_frac s = (case s of c # r \<Rightarrow>
       if c = CHR ''.'' \<and> takeWhile is_digit r \<noteq> [] then (takeWhile is_digit r, dropWhile is_digit r) else ([], s)
     | [] \<Rightarrow> ([], s))"

definition scan_exp :: "string \<Rightarrow> (int \<times> string) option" where
  "scan_exp s = (case s of c # r \<Rightarrow>
       if c = CHR ''e'' \<or> c = CHR ''E'' then
         (let neg = (case r of x # _ \<Rightarrow> x = CHR ''-'' | [] \<Rightarrow> False);
              r' = (case r of x # t \<Rightarrow> if x = CHR ''-'' \<or> x = CHR ''+'' then t else r | [] \<Rightarrow> r);
              ds = takeWhile is_digit r'
          in if ds = [] then None
             else Some (if neg then - int (nat_of_digits ds) else int (nat_of_digits ds), dropWhile is_digit r'))
       else None
     | [] \<Rightarrow> None)"

definition number_value :: "bool \<Rightarrow> string \<Rightarrow> string \<Rightarrow> int \<Rightarrow> json" where
  "number_value neg ip fr ex =
     (let m = of_int (int (nat_of_digits (ip @ fr))) * pow_rat 10 (ex - int (length fr))
      in JFloat (float_of_rat (if neg then - m else m)))"

definition scan_int :: "string \<Rightarrow> (string \<times> string) option" where
  "scan_int s = (case s of [] \<Rightarrow> None | c # r \<Rightarrow>
     if c = CHR ''0'' then Some ([c], r)
     else if is_digit c then Some (takeWhile is_digit s, dropWhile is_digit s) else None)"

definition scan_number :: "bool \<Rightarrow> string \<Rightarrow> (json \<times> string) option" where
  "scan_number neg s = (case scan_int s of None \<Rightarrow> None
     | Some (ip, r) \<Rightarrow> (case scan_frac r of (fr, r2) \<Rightarrow> (case scan_exp r2 of
           Some (ex, r3) \<Rightarrow> Some (number_value neg ip fr ex, r3)
         | None \<Rightarrow> if fr = [] then
               Some (JInt (if neg then - int (nat_of_digits ip) else int (nat_of_digits ip)), r2)
             else Some (number_value neg ip fr 0, r2))))"

definition parse_literal :: "string \<Rightarrow> json \<Rightarrow> string \<Rightarrow> (json \<times> string) option" where
  "parse_literal w j s = (if prefix w s then Some (j, drop (length w) s) else None)"

definition parse_scalar :: "string \<Rightarrow> (json \<times> string) option" where
  "parse_scalar s = (case s of [] \<Rightarrow> None | c # r \<Rightarrow>
     if c = CHR ''n'' then parse_literal ''null'' JNull s
     else if c = CHR ''t'' then parse_literal ''true'' (JBool True) s
     else if c = CHR ''f'' then parse_literal ''false'' (JBool False) s
     else if c = CHR ''N'' then parse_literal ''NaN'' (JFloat NaN) s
     else if c = CHR ''I'' then parse_literal ''Infinity'' (JFloat PosInf) s
     else if c = CHR ''-'' then
       (if prefix ''Infinity'' r then Some (JFloat NegInf, drop 8 r) else scan_number True r)
     else scan_number False s)"

fun parse_value :: "nat \<Rightarrow> string \<Rightarrow> (json \<times> string) option"
and parse_elems :: "nat \<Rightarrow> string \<Rightarrow> (json list \<times> string) option"
and parse_members :: "nat \<Rightarrow> string \<Rightarrow> ((string \<times> json) list \<times> string) option" where
  "parse_value 0 s = None"
| "parse_value (Suc n) s = (case s of [] \<Rightarrow> None | c # r \<Rightarrow>
     if c = quote_char then map_option (\<lambda>(x, t). (JStr x, t)) (parse_string r)
     else if c = CHR ''['' then
       (case skip_ws r of
          d # t \<Rightarrow> if d = CHR '']'' then Some (JArr [], t)
                   else map_option (\<lambda>(xs, t). (JArr xs, t)) (parse_elems n (skip_ws r))
        | [] \<Rightarrow> None)
     else if c = CHR ''{'' then
       (case skip_ws r of
          d # t \<Rightarrow> if d = CHR ''}'' then Some (JObj [], t)
                   else map_option (\<lambda>(kvs, t). (JObj (dict_of_pairs kvs), t)) (parse_members n (skip_ws r))
        | [] \<Rightarrow> None)
     else parse_scalar s)"
| "parse_elems 0 s = None"
| "parse_elems (Suc n) s = (case parse_value n s of None \<Rightarrow> None
     | Some (x, r) \<Rightarrow> (case skip_ws r of [] \<Rightarrow> None
        | c # t \<Rightarrow> if c = CHR '']'' then Some ([x], t)
            else if c = CHR '','' then map_option (\<lambda>(xs, u). (x # xs, u)) (parse_elems n (skip_ws t))
            else None))"
| "parse_members 0 s = None"
| "parse_members (Suc n) s = (case s of [] \<Rightarrow> None | q # r0 \<Rightarrow>
     if q \<noteq> quote_char then None else
     (case parse_string r0 of None \<Rightarrow> None
      | Some (k, r1) \<Rightarrow> (case skip_ws r1 of [] \<Rightarrow> None
         | d # r2 \<Rightarrow> if d \<noteq> CHR '':'' then None else
             (case parse_value n (skip_ws r2) of None \<Rightarrow> None
              | Some (x, r) \<Rightarrow> (case skip_ws r of [] \<Rightarrow> None
                 | c # t \<Rightarrow> if c = CHR ''}'' then Some ([(k, x)], t)
                     else if c = CHR '','' then map_option (\<lambda>(kvs, u). ((k, x) # kvs, u)) (parse_members n (skip_ws t))
                     else None)))))"

definition json_fuel :: "string \<Rightarrow> nat" where
  "json_fuel s = 2 * length s + 2"

text \<open>\<open>json.loads\<close>: \<open>None\<close> is \<open>JSONDecodeError\<close>.\<close>

definition loads :: "string \<Rightarrow> json option" where
  "loads s = (case parse_value (json_fuel s) (skip_ws s) of
     Some (j, r) \<Rightarrow> if skip_ws r = [] then Some j else None
   | None \<Rightarrow> None)"

section \<open>Strings read back\<close>

lemma hex_val_hex_char: "d < 16 \<Longrightarrow> hex_val (hex_char d) = Some d"
  by (auto simp: hex_val_def ord_of_hex_char Let_def)

lemma hex_number_append:
  "hex_number a (s @ t) = (case hex_number a s of None \<Rightarrow> None | Some b \<Rightarrow> hex_number b t)"
  by (induction s arbitrary: a) (auto split: option.splits)

lemma hex_number_hex_digits: "hex_number a (hex_digits k n) = Some (a * 16 ^ k + n mod 16 ^ k)"
proof (induction k arbitrary: n)
  case 0
  then show ?case by simp
next
  case (Suc k)
  have "n mod (16 * 16 ^ k) = 16 * (n div 16 mod 16 ^ k) + n mod 16"
    by (rule mod_mult2_eq)
  then show ?case
    by (simp add: hex_number_append Suc hex_val_hex_char algebra_simps)
qed

lemma parse_string_hex:
  assumes "ord_of c < 256"
  shows "parse_string (backslash # CHR ''u'' # hex_digits 4 (ord_of c) @ t) = push_char c (parse_string t)"
proof -
  have "ord_of c mod 16 ^ 4 = ord_of c"
    by (rule mod_less, rule less_trans [OF assms]) simp
  then have "hex_number 0 (take 4 (hex_digits 4 (ord_of c) @ t)) = Some (ord_of c)"
    using hex_number_hex_digits [of 0 4 "ord_of c"] by simp
  then show ?thesis using assms
    by (simp del: hex_digits.simps)
qed

lemma parse_string_escape_char: "parse_string (escape_char c @ t) = push_char c (parse_string t)"
proof (cases "c \<in> {quote_char, backslash, CHR 0x0A, CHR 0x0D, CHR 0x09, CHR 0x0C, CHR 0x08}")
  case True
  then show ?thesis by (auto simp: escape_char_def unescape_char_def)
next
  case special: False
  show ?thesis
  proof (cases "32 \<le> ord_of c \<and> ord_of c \<le> 126")
    case True
    with special show ?thesis by (auto simp: escape_char_def)
  next
    case False
    have "ord_of c < 256" by simp
    with special False show ?thesis
      by (auto simp: escape_char_def parse_string_hex simp del: parse_string.simps hex_digits.simps)
  qed
qed

lemma parse_string_escape: "parse_string (escape_string s @ quote_char # t) = Some (s, t)"
proof (induction s)
  case Nil
  then show ?case by (simp add: escape_string_def)
next
  case (Cons c s)
  then show ?case
    by (simp add: escape_string_def parse_string_escape_char push_char_def del: parse_string.simps)
qed

section \<open>Numbers read back\<close>

definition num_stop :: "string \<Rightarrow> bool" where
  "num_stop r = (case r of [] \<Rightarrow> True
     | c # _ \<Rightarrow> \<not> is_digit c \<and> c \<noteq> CHR ''.'' \<and> c \<noteq> CHR ''e'' \<and> c \<noteq> CHR ''E'')"

lemma takeWhile_digits: "num_stop r \<Longrightarrow> \<forall>c\<in>set s. is_digit c \<Longrightarrow> takeWhile is_digit (s @ r) = s"
  and dropWhile_digits: "num_stop r \<Longrightarrow> \<forall>c\<in>set s. is_digit c \<Longrightarrow> dropWhile is_digit (s @ r) = r"
  by (induction s; cases r; simp add: num_stop_def)+

lemma scan_int_str_of_nat: "num_stop r \<Longrightarrow> scan_int (str_of_nat n @ r) = Some (str_of_nat n, r)"
proof -
  assume stop: "num_stop r"
  show ?thesis
  proof (cases "n = 0")
    case True
    then show ?thesis by (simp add: scan_int_def)
  next
    case False
    then obtain c t where ct: "str_of_nat n = c # t" "c \<noteq> CHR ''0''"
      using str_of_nat_hd [of n] by (cases "str_of_nat n") auto
    have "\<forall>x\<in>set (str_of_nat n). is_digit x" by (rule str_of_nat_digits)
    with stop have tw: "takeWhile is_digit (str_of_nat n @ r) = str_of_nat n"
      by (rule takeWhile_digits)
    have dw: "dropWhile is_digit (str_of_nat n @ r) = r"
      by (rule dropWhile_digits [OF stop str_of_nat_digits])
    have "is_digit c" using str_of_nat_digits [of n] ct by simp
    with tw dw ct show ?thesis by (simp add: scan_int_def)
  qed
qed

lemma scan_number_str_of_nat:
  "num_stop r \<Longrightarrow> scan_number neg (str_of_nat n @ r) = Some (JInt (if neg then - int n else int n), r)"
proof -
  assume stop: "num_stop r"
  then have "scan_frac r = ([], r)" and "scan_exp r = None"
    by (auto simp: scan_frac_def scan_exp_def num_stop_def split: list.splits)
  then show ?thesis
    by (simp add: scan_number_def scan_int_str_of_nat [OF stop])
qed

definition json_ws_free_start :: "char \<Rightarrow> bool" where
  "json_ws_free_start c \<longleftrightarrow> \<not> is_json_ws c \<and> c \<noteq> CHR '']'' \<and> c \<noteq> CHR ''}''"

lemma digit_not_special: "is_digit c \<Longrightarrow> c \<noteq> quote_char \<and> c \<noteq> CHR ''['' \<and> c \<noteq> CHR ''{'' \<and> c \<noteq> CHR ''n'' \<and>
   c \<noteq> CHR ''t'' \<and> c \<noteq> CHR ''f'' \<and> c \<noteq> CHR ''N'' \<and> c \<noteq> CHR ''I'' \<and> c \<noteq> CHR ''-''"
  by (auto simp: is_digit_def)

lemma parse_scalar_int:
  assumes "num_stop r"
  shows "parse_scalar (str_of_int i @ r) = Some (JInt i, r)"
proof (cases "i < 0")
  case True
  obtain c t where ct: "str_of_nat (nat (- i)) = c # t" and dig: "is_digit c"
    using str_of_nat_digits [of "nat (- i)"] by (cases "str_of_nat (nat (- i))") auto
  have "\<not> prefix ''Infinity'' (str_of_nat (nat (- i)) @ r)"
    using digit_not_special [OF dig] by (auto simp: ct)
  with True scan_number_str_of_nat [OF assms, of True "nat (- i)"] show ?thesis
    by (simp add: str_of_int_def parse_scalar_def)
next
  case False
  obtain c t where ct: "str_of_nat (nat i) = c # t" and dig: "is_digit c"
    using str_of_nat_digits [of "nat i"] by (cases "str_of_nat (nat i)") auto
  from False scan_number_str_of_nat [OF assms, of False "nat i"] show ?thesis
    using digit_not_special [OF dig] by (simp add: str_of_int_def parse_scalar_def ct)
qed


section \<open>Values read back\<close>

text \<open>Values that \<open>json.dumps\<close> writes without loss: distinct member names, no floats.\<close>

fun json_plain :: "json \<Rightarrow> bool" where
  "json_plain (JFloat x) = False"
| "json_plain (JArr xs) = (\<forall>x\<in>set xs. json_plain x)"
| "json_plain (JObj kvs) = (distinct (map fst kvs) \<and> (\<forall>kv\<in>set kvs. json_plain (snd kv)))"
| "json_plain j = True"

definition value_start :: "char \<Rightarrow> bool" where
  "value_start c \<longleftrightarrow> c \<in> set ''ntf[{-'' \<or> c = quote_char \<or> is_digit c"

lemma value_start_not_ws: "value_start c \<Longrightarrow> \<not> is_json_ws c \<and> c \<noteq> CHR '']'' \<and> c \<noteq> CHR ''}''"
  by (auto simp: value_start_def is_json_ws_def is_digit_def)

lemma str_of_nat_start: "\<exists>c t. str_of_nat n = c # t \<and> is_digit c"
  using str_of_nat_digits [of n] by (cases "str_of_nat n") auto

lemma dumps_start: "json_plain j \<Longrightarrow> \<exists>c t. dumps_compact j = c # t \<and> value_start c"
proof (cases j)
  case (JInt i)
  then show ?thesis
    using str_of_nat_start [of "nat i"] by (auto simp: str_of_int_def value_start_def)
qed (auto simp: value_start_def dumps_string_def)

lemma skip_ws_dumps: "json_plain j \<Longrightarrow> skip_ws (dumps_compact j @ t) = dumps_compact j @ t"
  using dumps_start [of j] by (auto simp: skip_ws_def dest: value_start_not_ws)

lemma skip_ws_Cons: "\<not> is_json_ws c \<Longrightarrow> skip_ws (c # t) = c # t"
  by (simp add: skip_ws_def)

definition reads_back :: "json \<Rightarrow> bool" where
  "reads_back j \<longleftrightarrow> (\<forall>n r. 2 * length (dumps_compact j) \<le> n \<longrightarrow> num_stop r \<longrightarrow>
     parse_value n (dumps_compact j @ r) = Some (j, r))"

lemma num_stop_sep: "num_stop (CHR '','' # r)" "num_stop (CHR '']'' # r)" "num_stop (CHR ''}'' # r)"
  by (simp_all add: num_stop_def is_digit_def)

lemma not_ws_sep: "\<not> is_json_ws CHR '',''" "\<not> is_json_ws CHR '']''" "\<not> is_json_ws CHR ''}''"
    "\<not> is_json_ws CHR '':''" "\<not> is_json_ws quote_char"
  by (simp_all add: is_json_ws_def)

lemma parse_elems_dumps:
  assumes "\<And>x. x \<in> set xs \<Longrightarrow> reads_back x \<and> json_plain x" and "xs \<noteq> []"
    and "2 * length (join '','' (map dumps_compact xs)) + 2 \<le> n"
  shows "parse_elems n (join '','' (map dumps_compact xs) @ CHR '']'' # r) = Some (xs, r)"
  using assms
proof (induction xs arbitrary: n)
  case Nil
  then show ?case by simp
next
  case (Cons x xs)
  obtain m where m: "n = Suc m" using Cons.prems(3) by (cases n) auto
  have x: "reads_back x" "json_plain x" using Cons.prems(1) by auto
  show ?case
  proof (cases "xs = []")
    case True
    with Cons.prems m x(1) have "parse_value m (dumps_compact x @ CHR '']'' # r) = Some (x, CHR '']'' # r)"
      unfolding reads_back_def by (auto simp: num_stop_sep)
    with True m show ?thesis by (simp add: skip_ws_Cons not_ws_sep)
  next
    case False
    let ?t = "join '','' (map dumps_compact xs)"
    have len: "2 * length (dumps_compact x) + 2 * length ?t + 4 \<le> n"
      using Cons.prems(3) False by (simp add: join_Cons)
    then have v: "parse_value m (dumps_compact x @ CHR '','' # ?t @ CHR '']'' # r)
        = Some (x, CHR '','' # ?t @ CHR '']'' # r)"
      using x(1) m unfolding reads_back_def by (auto simp: num_stop_sep)
    obtain y ys where xs: "xs = y # ys" using False by (cases xs) auto
    have "json_plain y" using Cons.prems(1) xs by auto
    then have ws: "skip_ws (?t @ CHR '']'' # r) = ?t @ CHR '']'' # r"
      using skip_ws_dumps [of y] xs by (cases ys) auto
    have "parse_elems m (?t @ CHR '']'' # r) = Some (xs, r)"
      using Cons.IH [of m] Cons.prems(1) False len m by auto
    with v ws m False show ?thesis
      by (simp add: join_Cons skip_ws_Cons not_ws_sep)
  qed
qed

abbreviation dumps_member :: "string \<times> json \<Rightarrow> string" where
  "dumps_member \<equiv> \<lambda>kv. dumps_string (fst kv) @ '':'' @ dumps_compact (snd kv)"

lemma parse_members_dumps:
  assumes "\<And>kv. kv \<in> set kvs \<Longrightarrow> reads_back (snd kv) \<and> json_plain (snd kv)" and "kvs \<noteq> []"
    and "2 * length (join '','' (map dumps_member kvs)) + 2 \<le> n"
  shows "parse_members n (join '','' (map dumps_member kvs) @ CHR ''}'' # r) = Some (kvs, r)"
  using assms
proof (induction kvs arbitrary: n)
  case Nil
  then show ?case by simp
next
  case (Cons kv kvs)
  obtain m where m: "n = Suc m" using Cons.prems(3) by (cases n) auto
  obtain k x where kv: "kv = (k, x)" by (cases kv)
  have x: "reads_back x" "json_plain x" using Cons.prems(1) [of kv] kv by simp_all
  have key: "parse_string (escape_string k @ quote_char # u) = Some (k, u)" for u
    by (rule parse_string_escape)
  have wx: "skip_ws (dumps_compact x @ u) = dumps_compact x @ u" for u
    using x(2) by (rule skip_ws_dumps)
  show ?case
  proof (cases "kvs = []")
    case True
    have "2 * length (dumps_compact x) \<le> m"
      using Cons.prems(3) m True kv by (simp add: dumps_string_def)
    then have "parse_value m (dumps_compact x @ CHR ''}'' # r) = Some (x, CHR ''}'' # r)"
      using x(1) unfolding reads_back_def by (auto simp: num_stop_sep)
    with True m kv wx key show ?thesis
      by (simp add: dumps_string_def skip_ws_Cons not_ws_sep del: parse_string.simps)
  next
    case False
    let ?t = "join '','' (map dumps_member kvs)"
    have len: "2 * length (dumps_compact x) + 2 * length ?t + 8 \<le> n"
      using Cons.prems(3) False kv by (simp add: join_Cons dumps_string_def)
    then have v: "parse_value m (dumps_compact x @ CHR '','' # ?t @ CHR ''}'' # r)
        = Some (x, CHR '','' # ?t @ CHR ''}'' # r)"
      using x(1) m unfolding reads_back_def by (auto simp: num_stop_sep)
    obtain y ys where xs: "kvs = y # ys" using False by (cases kvs) auto
    have ws: "skip_ws (?t @ CHR ''}'' # r) = ?t @ CHR ''}'' # r"
      using xs by (cases ys) (auto simp: dumps_string_def skip_ws_Cons not_ws_sep)
    have "parse_members m (?t @ CHR ''}'' # r) = Some (kvs, r)"
      using Cons.IH [of m] Cons.prems(1) False len m by auto
    with v ws m False kv wx key show ?thesis
      by (simp add: join_Cons dumps_string_def skip_ws_Cons not_ws_sep del: parse_string.simps)
  qed
qed

lemma reads_back_scalar:
  assumes "dumps_compact j = c # t" "c \<noteq> quote_char" "c \<noteq> CHR ''[''" "c \<noteq> CHR ''{''"
    and "\<And>r. num_stop r \<Longrightarrow> parse_scalar (dumps_compact j @ r) = Some (j, r)"
  shows "reads_back j"
  unfolding reads_back_def
proof (intro allI impI)
  fix n r
  assume n: "2 * length (dumps_compact j) \<le> n" and r: "num_stop r"
  obtain m where "n = Suc m" using n assms(1) by (cases n) auto
  with assms r show "parse_value n (dumps_compact j @ r) = Some (j, r)" by simp
qed

lemma str_of_int_start: "\<exists>c t. str_of_int i = c # t \<and> c \<noteq> quote_char \<and> c \<noteq> CHR ''['' \<and> c \<noteq> CHR ''{''"
  using str_of_nat_start [of "nat i"] digit_not_special by (auto simp: str_of_int_def)

lemma reads_back_int: "reads_back (JInt i)"
proof -
  obtain c t where "str_of_int i = c # t" "c \<noteq> quote_char" "c \<noteq> CHR ''[''" "c \<noteq> CHR ''{''"
    using str_of_int_start by blast
  moreover have "parse_scalar (dumps_compact (JInt i) @ r) = Some (JInt i, r)" if "num_stop r" for r
    using that by (simp add: parse_scalar_int)
  ultimately show ?thesis by (intro reads_back_scalar [of _ c t]) auto
qed

lemma reads_back_string: "reads_back (JStr s)"
  unfolding reads_back_def
proof (intro allI impI)
  fix n r
  assume "2 * length (dumps_compact (JStr s)) \<le> n"
  then obtain m where "n = Suc m" by (cases n) (auto simp: dumps_string_def)
  then show "parse_value n (dumps_compact (JStr s) @ r) = Some (JStr s, r)"
    by (simp add: dumps_string_def parse_string_escape del: parse_string.simps)
qed

lemma reads_back_array:
  assumes "\<And>x. x \<in> set xs \<Longrightarrow> reads_back x \<and> json_plain x"
  shows "reads_back (JArr xs)"
  unfolding reads_back_def
proof (intro allI impI)
  fix n r
  assume n: "2 * length (dumps_compact (JArr xs)) \<le> n"
  then obtain m where m: "n = Suc m" by (cases n) auto
  show "parse_value n (dumps_compact (JArr xs) @ r) = Some (JArr xs, r)"
  proof (cases xs)
    case Nil
    with m show ?thesis by (simp add: skip_ws_Cons not_ws_sep)
  next
    case (Cons y ys)
    let ?t = "join '','' (map dumps_compact xs)"
    obtain c u where cu: "?t = c # u" "value_start c"
      using dumps_start [of y] assms [of y] Cons by (cases ys) auto
    have "parse_elems m (?t @ CHR '']'' # r) = Some (xs, r)"
      using n m Cons by (intro parse_elems_dumps assms) auto
    with cu m show ?thesis
      by (auto simp: skip_ws_Cons dest: value_start_not_ws)
  qed
qed

lemma reads_back_object:
  assumes "\<And>kv. kv \<in> set kvs \<Longrightarrow> reads_back (snd kv) \<and> json_plain (snd kv)" and "distinct (map fst kvs)"
  shows "reads_back (JObj kvs)"
  unfolding reads_back_def
proof (intro allI impI)
  fix n r
  assume n: "2 * length (dumps_compact (JObj kvs)) \<le> n"
  then obtain m where m: "n = Suc m" by (cases n) auto
  show "parse_value n (dumps_compact (JObj kvs) @ r) = Some (JObj kvs, r)"
  proof (cases kvs)
    case Nil
    with m show ?thesis by (simp add: skip_ws_Cons not_ws_sep)
  next
    case (Cons y ys)
    let ?t = "join '','' (map dumps_member kvs)"
    obtain u where cu: "?t = quote_char # u"
      using Cons by (cases ys) (auto simp: dumps_string_def)
    have "parse_members m (?t @ CHR ''}'' # r) = Some (kvs, r)"
      using n m Cons by (intro parse_members_dumps assms) auto
    with cu m assms(2) show ?thesis
      by (auto simp: skip_ws_Cons not_ws_sep dict_of_pairs_distinct)
  qed
qed

lemma reads_back_plain: "json_plain j \<Longrightarrow> reads_back j"
proof (induction j)
  case JNull
  show ?case by (intro reads_back_scalar [of _ "CHR ''n''"]) (auto simp: parse_scalar_def parse_literal_def)
next
  case (JBool b)
  then show ?case
    by (intro reads_back_scalar [of _ "hd (dumps_compact (JBool b))" "tl (dumps_compact (JBool b))"])
      (auto simp: parse_scalar_def parse_literal_def)
next
  case (JInt i)
  show ?case by (rule reads_back_int)
next
  case (JFloat x)
  then show ?case by simp
next
  case (JStr s)
  show ?case by (rule reads_back_string)
next
  case (JArr xs)
  then show ?case by (intro reads_back_array) auto
next
  case (JObj kvs)
  then show ?case by (intro reads_back_object) (auto simp: snds.simps)
qed

lemma loads_dumps: "json_plain j \<Longrightarrow> loads (dumps_compact j) = Some j"
proof -
  assume plain: "json_plain j"
  then have "reads_back j" by (rule reads_back_plain)
  then have "parse_value (json_fuel (dumps_compact j)) (dumps_compact j @ []) = Some (j, [])"
    unfolding reads_back_def
    by (elim allE [of _ "json_fuel (dumps_compact j)"] allE [of _ "[]"] impE)
      (simp_all add: json_fuel_def num_stop_def del: parse_value.simps)
  moreover have "skip_ws (dumps_compact j) = dumps_compact j"
    using skip_ws_dumps [OF plain, of "[]"] by simp
  ultimately show ?thesis by (simp add: loads_def del: parse_value.simps) (simp add: skip_ws_def)
qed

section \<open>The decoder's fuel is enough\<close>

text \<open>Every recogniser consumes at least one character of what it reads.\<close>

lemma length_skip_ws: "length (skip_ws s) \<le> length s"
  by (simp add: skip_ws_def length_dropWhile_le)

lemma parse_string_shorter: "parse_string s = Some (x, r) \<Longrightarrow> length r < length s"
proof (induction s arbitrary: x r rule: parse_string.induct)
  case 1
  then show ?case by simp
next
  case (2 c cs)
  show ?case
  proof (cases "c = quote_char")
    case True
    with 2 show ?thesis by simp
  next
    case nq: False
    show ?thesis
    proof (cases "c = backslash")
      case True
      with 2 nq show ?thesis
        by (fastforce simp: push_char_def split: list.splits if_splits option.splits)
    next
      case False
      with 2 nq show ?thesis
        by (fastforce simp: push_char_def split: if_splits)
    qed
  qed
qed

lemma parse_literal_shorter: "parse_literal w j s = Some (x, r) \<Longrightarrow> w \<noteq> [] \<Longrightarrow> length r < length s"
  by (auto simp: parse_literal_def prefix_def split: if_splits)

lemma scan_int_shorter: "scan_int s = Some (x, r) \<Longrightarrow> length r < length s"
  by (auto simp: scan_int_def le_imp_less_Suc length_dropWhile_le split: list.splits if_splits)

lemma scan_frac_le: "scan_frac s = (x, r) \<Longrightarrow> length r \<le> length s"
  by (auto simp: scan_frac_def le_SucI length_dropWhile_le split: list.splits if_splits)

lemma scan_exp_le: "scan_exp s = Some (x, r) \<Longrightarrow> length r \<le> length s"
  using length_dropWhile_le [of is_digit] 
  by (auto simp: scan_exp_def Let_def intro: le_SucI split: list.splits if_splits)

lemma scan_number_shorter: "scan_number neg s = Some (x, r) \<Longrightarrow> length r < length s"
  by (auto simp: scan_number_def dest!: scan_int_shorter scan_frac_le scan_exp_le
      split: option.splits prod.splits if_splits)

lemma parse_scalar_shorter: "parse_scalar s = Some (x, r) \<Longrightarrow> length r < length s"
  by (auto simp: parse_scalar_def prefix_def dest!: parse_literal_shorter scan_number_shorter
      split: list.splits if_splits)

lemma parse_shorter:
  "parse_value n s = Some (x, r) \<Longrightarrow> length r < length s"
  "parse_elems n s = Some (xs, r) \<Longrightarrow> length r < length s"
  "parse_members n s = Some (kvs, r) \<Longrightarrow> length r < length s"
proof (induction n arbitrary: s x xs kvs r)
  case 0
  case 1 then show ?case by simp
next
  case 0
  case 2 then show ?case by simp
next
  case 0
  case 3 then show ?case by simp
next
  case (Suc n)
  case 1
  then obtain c t where s: "s = c # t" by (cases s) auto
  show ?case
  proof (cases "parse_scalar s = Some (x, r)")
    case True
    then show ?thesis by (rule parse_scalar_shorter)
  next
    case False
    with 1 s show ?thesis
      using length_skip_ws [of t]
      by (fastforce dest: parse_string_shorter Suc.IH split: if_splits list.splits)
  qed
next
  case (Suc n)
  case 2
  then obtain y u where y: "parse_value n s = Some (y, u)" by (auto split: option.splits)
  then have "length u < length s" by (rule Suc.IH)
  moreover obtain c t where "skip_ws u = c # t" using 2 y by (cases "skip_ws u") auto
  moreover have "length (skip_ws u) \<le> length u" by (rule length_skip_ws)
  ultimately show ?case
    using 2 y length_skip_ws [of t] by (fastforce dest: Suc.IH split: if_splits)
next
  case (Suc n)
  case 3
  then obtain r0 k r1 d r2 y u c t
    where s: "s = quote_char # r0" and k: "parse_string r0 = Some (k, r1)" and d: "skip_ws r1 = d # r2"
      and y: "parse_value n (skip_ws r2) = Some (y, u)" and c: "skip_ws u = c # t"
    by (auto split: list.splits option.splits if_splits)
  have lens: "length r1 < length r0" "Suc (length r2) \<le> length r1" "length u < length (skip_ws r2)"
    "length (skip_ws r2) \<le> length r2" "Suc (length t) \<le> length u" "length (skip_ws t) \<le> length t"
    using parse_string_shorter [OF k] length_skip_ws [of r1] Suc.IH(1) [OF y] length_skip_ws [of r2]
      length_skip_ws [of u] length_skip_ws [of t] d c by simp_all
  from 3 s k d y c have "r = t \<or> (\<exists>kvs'. parse_members n (skip_ws t) = Some (kvs', r))"
    by (auto split: if_splits)
  with lens s show ?case by (auto dest!: Suc.IH(3))
qed

text \<open>Beyond twice the length, more fuel changes nothing: a \<open>None\<close> of \<open>loads\<close> is a syntax error.\<close>

lemma parse_fuel_Suc:
  "2 * length s \<le> n \<Longrightarrow> parse_value (Suc n) s = parse_value n s"
  "2 * length s + 1 \<le> n \<Longrightarrow> parse_elems (Suc n) s = parse_elems n s"
  "2 * length s + 1 \<le> n \<Longrightarrow> parse_members (Suc n) s = parse_members n s"
proof (induction n arbitrary: s)
  case 0
  case 1 then show ?case by simp
next
  case 0
  case 2 then show ?case by simp
next
  case 0
  case 3 then show ?case by simp
next
  case (Suc n)
  case 1
  have "parse_elems (Suc n) (skip_ws t) = parse_elems n (skip_ws t) \<and>
        parse_members (Suc n) (skip_ws t) = parse_members n (skip_ws t)" if "s = c # t" for c t
    using Suc.IH(2,3) [of "skip_ws t"] 1 that length_skip_ws [of t] by simp
  then show ?case by (cases s) (auto split: list.split simp del: parse_elems.simps parse_members.simps)
next
  case (Suc n)
  case 2
  have "parse_value (Suc n) s = parse_value n s" using Suc.IH(1) [of s] 2 by simp
  moreover have "parse_elems (Suc n) (skip_ws t) = parse_elems n (skip_ws t)"
    if "parse_value n s = Some (y, u)" "skip_ws u = c # t" for y u c t
    using Suc.IH(2) [of "skip_ws t"] 2 parse_shorter(1) [OF that(1)] that(2)
      length_skip_ws [of u] length_skip_ws [of t] by simp
  ultimately show ?case
    unfolding parse_elems.simps(2) [of "Suc n" s] parse_elems.simps(2) [of n s]
    by (auto split: option.split list.split simp del: parse_elems.simps parse_value.simps)
next
  case (Suc n)
  case 3
  have v: "parse_value (Suc n) (skip_ws r2) = parse_value n (skip_ws r2)"
    if "s = q # r0" "parse_string r0 = Some (k, r1)" "skip_ws r1 = d # r2" for q r0 k r1 d r2
    using Suc.IH(1) [of "skip_ws r2"] 3 that(1,3) parse_string_shorter [OF that(2)]
      length_skip_ws [of r1] length_skip_ws [of r2] by simp
  have m: "parse_members (Suc n) (skip_ws t) = parse_members n (skip_ws t)"
    if "s = q # r0" "parse_string r0 = Some (k, r1)" "skip_ws r1 = d # r2"
      "parse_value n (skip_ws r2) = Some (y, u)" "skip_ws u = c # t" for q r0 k r1 d r2 y u c t
    using Suc.IH(3) [of "skip_ws t"] 3 that(1,3,5) parse_string_shorter [OF that(2)] parse_shorter(1) [OF that(4)]
      length_skip_ws [of r1] length_skip_ws [of r2] length_skip_ws [of u] length_skip_ws [of t] by simp
  show ?case
    unfolding parse_members.simps(2) [of "Suc n" s] parse_members.simps(2) [of n s] using v m
    by (auto split: option.split list.split simp del: parse_members.simps parse_value.simps)
qed

lemma parse_fuel_enough:
  assumes "2 * length s \<le> n" and "2 * length s \<le> m"
  shows "parse_value n s = parse_value m s"
proof -
  have "parse_value (2 * length s + k) s = parse_value (2 * length s) s" for k
    by (induction k) (simp_all add: parse_fuel_Suc(1) del: parse_value.simps)
  from this [of "n - 2 * length s"] this [of "m - 2 * length s"] show ?thesis
    using assms by simp
qed

end
