(* ===== verification/Generation.thy ===== *)
theory Generation
  imports Errors Json
begin

text \<open>
  The provider-neutral generation contracts of \<open>domain/generation.py\<close>. Each frozen dataclass is
  a record; its constructor with \<open>__post_init__\<close> is a function \<open>mk_...\<close> that raises what the
  validation raises, and the predicate \<open>..._ok\<close> is the invariant that construction establishes.
\<close>

section \<open>Roles, tools, messages\<close>

datatype message_role = SYSTEM | USER | ASSISTANT | TOOL

fun role_value :: "message_role \<Rightarrow> string" where
  "role_value SYSTEM = ''system''"
| "role_value USER = ''user''"
| "role_value ASSISTANT = ''assistant''"
| "role_value TOOL = ''tool''"

text \<open>\<open>MessageRole(value)\<close> raises \<open>ValueError\<close> for an unknown value.\<close>

definition message_role_of :: "string \<Rightarrow> exn + message_role" where
  "message_role_of v =
     (if v = ''system'' then Inr SYSTEM else if v = ''user'' then Inr USER
      else if v = ''assistant'' then Inr ASSISTANT else if v = ''tool'' then Inr TOOL
      else Inl (ValueError (v @ '' is not a valid MessageRole'')))"

lemma message_role_of_value [simp]: "message_role_of (role_value r) = Inr r"
  by (cases r) (simp_all add: message_role_of_def)

record tool_definition =
  td_name :: string
  td_description :: string
  td_parameters :: json

fun is_json_object :: "json \<Rightarrow> bool" where
  "is_json_object (JObj _) = True"
| "is_json_object _ = False"

definition mk_tool_definition :: "string \<Rightarrow> string \<Rightarrow> json \<Rightarrow> exn + tool_definition" where
  "mk_tool_definition name description parameters =
     bind_r (require_non_blank name ''name'') (\<lambda>_.
     bind_r (reject_if (\<not> is_json_object parameters) ''parameters must be a JSON object'') (\<lambda>_.
     Inr \<lparr>td_name = name, td_description = description, td_parameters = parameters\<rparr>))"

record tool_call =
  tc_id :: string
  tc_name :: string
  tc_arguments :: string

definition mk_tool_call :: "string \<Rightarrow> string \<Rightarrow> string \<Rightarrow> exn + tool_call" where
  "mk_tool_call cid name arguments =
     bind_r (require_non_blank cid ''id'') (\<lambda>_.
     bind_r (require_non_blank name ''name'') (\<lambda>_.
     bind_r (reject_if (blank arguments) ''arguments must not be empty or blank'') (\<lambda>_.
     Inr \<lparr>tc_id = cid, tc_name = name, tc_arguments = arguments\<rparr>)))"

record message =
  msg_role :: message_role
  msg_content :: string
  msg_tool_call_id :: "string option"
  msg_name :: "string option"
  msg_tool_calls :: "tool_call list"

definition blank_opt :: "string option \<Rightarrow> bool" where
  "blank_opt x = (case x of None \<Rightarrow> True | Some s \<Rightarrow> blank s)"

definition validate_message :: "message \<Rightarrow> exn + unit" where
  "validate_message m =
     (if msg_role m = TOOL then
        bind_r (reject_if (blank_opt (msg_tool_call_id m)) ''tool_call_id is required for tool messages'') (\<lambda>_.
        bind_r (require_non_blank (msg_content m) ''content'') (\<lambda>_.
        reject_if (msg_tool_calls m \<noteq> []) ''tool messages cannot include tool_calls''))
      else
        bind_r (reject_if (msg_tool_call_id m \<noteq> None) ''tool_call_id is only valid for tool messages'') (\<lambda>_.
        if msg_tool_calls m \<noteq> [] then
          reject_if (msg_role m \<noteq> ASSISTANT) ''tool_calls are only valid on assistant messages''
        else require_non_blank (msg_content m) ''content''))"

definition mk_message ::
    "message_role \<Rightarrow> string \<Rightarrow> string option \<Rightarrow> string option \<Rightarrow> tool_call list \<Rightarrow> exn + message" where
  "mk_message role content tool_call_id name tool_calls =
     (let m = \<lparr>msg_role = role, msg_content = content, msg_tool_call_id = tool_call_id,
               msg_name = name, msg_tool_calls = tool_calls\<rparr>
      in bind_r (validate_message m) (\<lambda>_. Inr m))"

section \<open>Requests, usage, responses, stream events\<close>

record generation_request =
  gr_model :: string
  gr_messages :: "message list"
  gr_temperature :: "pyfloat option"
  gr_max_output_tokens :: "int option"
  gr_stream :: bool
  gr_tools :: "tool_definition list"
  gr_cache :: bool

definition uses_tools :: "generation_request \<Rightarrow> bool" where
  "uses_tools r = (if gr_tools r \<noteq> [] then True
     else (\<exists>m\<in>set (gr_messages r). msg_role m = TOOL \<or> msg_tool_calls m \<noteq> []))"

definition temperature_in_range :: "pyfloat \<Rightarrow> bool" where
  "temperature_in_range t = (float_le (Fin 0) t \<and> float_le t (Fin 2))"

definition validate_generation_request :: "generation_request \<Rightarrow> exn + generation_request" where
  "validate_generation_request r =
     bind_r (require_non_blank (gr_model r) ''model'') (\<lambda>_.
     bind_r (reject_if (gr_messages r = []) ''messages must contain at least one message'') (\<lambda>_.
     bind_r (reject_if (case gr_temperature r of None \<Rightarrow> False | Some t \<Rightarrow> \<not> temperature_in_range t)
               ''temperature must be between 0 and 2 inclusive'') (\<lambda>_.
     bind_r (reject_if (case gr_max_output_tokens r of None \<Rightarrow> False | Some n \<Rightarrow> n \<le> 0)
               ''max_output_tokens must be greater than zero'') (\<lambda>_.
     bind_r (reject_if (gr_stream r \<and> uses_tools r) ''tools are not supported for streaming requests.'') (\<lambda>_.
     bind_r (reject_if (gr_stream r \<and> gr_cache r) ''cache is not supported for streaming requests.'') (\<lambda>_.
     Inr r))))))"

text \<open>\<open>dataclasses.replace(request, model=m)\<close> constructs, hence validates, again.\<close>

definition replace_model :: "generation_request \<Rightarrow> string \<Rightarrow> exn + generation_request" where
  "replace_model r m = validate_generation_request (r\<lparr>gr_model := m\<rparr>)"

record token_usage =
  tu_input_tokens :: int
  tu_output_tokens :: int

definition mk_token_usage :: "int \<Rightarrow> int \<Rightarrow> exn + token_usage" where
  "mk_token_usage i ot =
     bind_r (reject_if (i < 0) ''input_tokens must not be negative'') (\<lambda>_.
     bind_r (reject_if (ot < 0) ''output_tokens must not be negative'') (\<lambda>_.
     Inr \<lparr>tu_input_tokens = i, tu_output_tokens = ot\<rparr>))"

definition total_tokens :: "token_usage \<Rightarrow> int" where
  "total_tokens u = tu_input_tokens u + tu_output_tokens u"

record generation_response =
  rs_id :: string
  rs_model :: string
  rs_output :: message
  rs_usage :: "token_usage option"
  rs_cached :: bool

definition mk_generation_response ::
    "string \<Rightarrow> string \<Rightarrow> message \<Rightarrow> token_usage option \<Rightarrow> bool \<Rightarrow> exn + generation_response" where
  "mk_generation_response rid model output usage cached =
     bind_r (require_non_blank rid ''id'') (\<lambda>_.
     bind_r (require_non_blank model ''model'') (\<lambda>_.
     bind_r (reject_if (msg_role output \<noteq> ASSISTANT) ''output message role must be assistant'') (\<lambda>_.
     Inr \<lparr>rs_id = rid, rs_model = model, rs_output = output, rs_usage = usage, rs_cached = cached\<rparr>)))"

record generation_delta =
  gd_id :: string
  gd_model :: string
  gd_content :: string

definition mk_generation_delta :: "string \<Rightarrow> string \<Rightarrow> string \<Rightarrow> exn + generation_delta" where
  "mk_generation_delta did model content =
     bind_r (require_non_blank did ''id'') (\<lambda>_.
     bind_r (require_non_blank model ''model'') (\<lambda>_.
     bind_r (reject_if (content = []) ''content must not be empty'') (\<lambda>_.
     Inr \<lparr>gd_id = did, gd_model = model, gd_content = content\<rparr>)))"

datatype stream_event = Delta generation_delta | Completed generation_response

section \<open>Invariants established by construction\<close>

definition tool_definition_ok :: "tool_definition \<Rightarrow> bool" where
  "tool_definition_ok t \<longleftrightarrow> \<not> blank (td_name t) \<and> is_json_object (td_parameters t)"

definition tool_call_ok :: "tool_call \<Rightarrow> bool" where
  "tool_call_ok c \<longleftrightarrow> \<not> blank (tc_id c) \<and> \<not> blank (tc_name c) \<and> \<not> blank (tc_arguments c)"

definition message_ok :: "message \<Rightarrow> bool" where
  "message_ok m \<longleftrightarrow>
     (msg_role m = TOOL \<longrightarrow> \<not> blank_opt (msg_tool_call_id m) \<and> \<not> blank (msg_content m) \<and> msg_tool_calls m = []) \<and>
     (msg_role m \<noteq> TOOL \<longrightarrow> msg_tool_call_id m = None) \<and>
     (msg_tool_calls m \<noteq> [] \<longrightarrow> msg_role m = ASSISTANT) \<and>
     (msg_tool_calls m = [] \<longrightarrow> \<not> blank (msg_content m))"

definition generation_request_ok :: "generation_request \<Rightarrow> bool" where
  "generation_request_ok r \<longleftrightarrow>
     \<not> blank (gr_model r) \<and> gr_messages r \<noteq> [] \<and>
     (\<forall>t. gr_temperature r = Some t \<longrightarrow> temperature_in_range t) \<and>
     (\<forall>n. gr_max_output_tokens r = Some n \<longrightarrow> 0 < n) \<and>
     (gr_stream r \<longrightarrow> \<not> uses_tools r \<and> \<not> gr_cache r)"

definition token_usage_ok :: "token_usage \<Rightarrow> bool" where
  "token_usage_ok u \<longleftrightarrow> 0 \<le> tu_input_tokens u \<and> 0 \<le> tu_output_tokens u"

definition generation_response_ok :: "generation_response \<Rightarrow> bool" where
  "generation_response_ok r \<longleftrightarrow>
     \<not> blank (rs_id r) \<and> \<not> blank (rs_model r) \<and> msg_role (rs_output r) = ASSISTANT"

lemma validate_message_Inr [simp]: "validate_message m = Inr u \<longleftrightarrow> message_ok m"
  by (auto simp: validate_message_def message_ok_def bind_r_eq_Inr blank_opt_def split: option.splits)

lemma mk_message_Inr:
  "mk_message r c t n cs = Inr m \<longleftrightarrow>
     m = \<lparr>msg_role = r, msg_content = c, msg_tool_call_id = t, msg_name = n, msg_tool_calls = cs\<rparr> \<and> message_ok m"
  by (auto simp: mk_message_def Let_def bind_r_eq_Inr)

lemma mk_tool_call_Inr:
  "mk_tool_call i n a = Inr c \<longleftrightarrow> c = \<lparr>tc_id = i, tc_name = n, tc_arguments = a\<rparr> \<and> tool_call_ok c"
  by (auto simp: mk_tool_call_def bind_r_eq_Inr tool_call_ok_def)

lemma mk_tool_definition_Inr:
  "mk_tool_definition n d p = Inr t \<longleftrightarrow>
     t = \<lparr>td_name = n, td_description = d, td_parameters = p\<rparr> \<and> tool_definition_ok t"
  by (auto simp: mk_tool_definition_def bind_r_eq_Inr tool_definition_ok_def)

lemma validate_generation_request_Inr:
  "validate_generation_request r = Inr r' \<longleftrightarrow> r' = r \<and> generation_request_ok r"
  by (auto simp: validate_generation_request_def bind_r_eq_Inr generation_request_ok_def
      not_le split: option.splits)

lemma replace_model_Inr:
  "replace_model r m = Inr r' \<longleftrightarrow> r' = r\<lparr>gr_model := m\<rparr> \<and> generation_request_ok (r\<lparr>gr_model := m\<rparr>)"
  by (simp add: replace_model_def validate_generation_request_Inr)

lemma mk_token_usage_Inr:
  "mk_token_usage i ot = Inr u \<longleftrightarrow> u = \<lparr>tu_input_tokens = i, tu_output_tokens = ot\<rparr> \<and> token_usage_ok u"
  by (auto simp: mk_token_usage_def bind_r_eq_Inr token_usage_ok_def)

lemma mk_generation_response_Inr:
  "mk_generation_response i m ot u c = Inr r \<longleftrightarrow>
     r = \<lparr>rs_id = i, rs_model = m, rs_output = ot, rs_usage = u, rs_cached = c\<rparr> \<and> generation_response_ok r"
  by (auto simp: mk_generation_response_def bind_r_eq_Inr generation_response_ok_def)

lemma mk_generation_delta_Inr:
  "mk_generation_delta i m c = Inr d \<longleftrightarrow>
     d = \<lparr>gd_id = i, gd_model = m, gd_content = c\<rparr> \<and> \<not> blank i \<and> \<not> blank m \<and> c \<noteq> []"
  by (auto simp: mk_generation_delta_def bind_r_eq_Inr)

lemmas constructed_iffs = mk_message_Inr mk_tool_call_Inr mk_tool_definition_Inr
  validate_generation_request_Inr mk_token_usage_Inr mk_generation_response_Inr mk_generation_delta_Inr

lemma uses_tools_replace_model [simp]: "uses_tools (r\<lparr>gr_model := m\<rparr>) = uses_tools r"
  by (simp add: uses_tools_def)

text \<open>A valid request stays valid under any non-blank model, which is why failover cannot break it.\<close>

lemma generation_request_ok_replace:
  "generation_request_ok r \<Longrightarrow> \<not> blank m \<Longrightarrow> generation_request_ok (r\<lparr>gr_model := m\<rparr>)"
  by (simp add: generation_request_ok_def)

text \<open>Every validation failure is a \<open>DomainValidationError\<close>.\<close>

definition is_validation_error :: "exn \<Rightarrow> bool" where
  "is_validation_error e = (case e of DomainValidationError _ \<Rightarrow> True | _ \<Rightarrow> False)"

lemma validation_error_value_error: "is_validation_error e \<Longrightarrow> is_value_error e"
  by (cases e) (auto simp: is_validation_error_def is_value_error_def)

lemma mk_message_Inl: "mk_message r c t n cs = Inl e \<Longrightarrow> is_validation_error e"
  by (auto simp: mk_message_def validate_message_def Let_def bind_r_eq_Inl reject_iffs
      is_validation_error_def split: if_splits)

lemma mk_tool_call_Inl: "mk_tool_call i n a = Inl e \<Longrightarrow> is_validation_error e"
  by (auto simp: mk_tool_call_def bind_r_eq_Inl reject_iffs is_validation_error_def)

lemma mk_tool_definition_Inl: "mk_tool_definition n d p = Inl e \<Longrightarrow> is_validation_error e"
  by (auto simp: mk_tool_definition_def bind_r_eq_Inl reject_iffs is_validation_error_def)

lemma validate_generation_request_Inl: "validate_generation_request r = Inl e \<Longrightarrow> is_validation_error e"
  by (auto simp: validate_generation_request_def bind_r_eq_Inl reject_iffs is_validation_error_def)

lemma mk_token_usage_Inl: "mk_token_usage i ot = Inl e \<Longrightarrow> is_validation_error e"
  by (auto simp: mk_token_usage_def bind_r_eq_Inl reject_iffs is_validation_error_def)

lemma mk_generation_response_Inl: "mk_generation_response i m ot u c = Inl e \<Longrightarrow> is_validation_error e"
  by (auto simp: mk_generation_response_def bind_r_eq_Inl reject_iffs is_validation_error_def)

lemmas constructed_Inl = mk_message_Inl mk_tool_call_Inl mk_tool_definition_Inl
  validate_generation_request_Inl mk_token_usage_Inl mk_generation_response_Inl

section \<open>Sample values\<close>

text \<open>Concrete values on which the properties of the development are evaluated.\<close>

definition user_message :: "string \<Rightarrow> message" where
  "user_message c = \<lparr>msg_role = USER, msg_content = c, msg_tool_call_id = None, msg_name = None, msg_tool_calls = []\<rparr>"

definition assistant_message :: "string \<Rightarrow> message" where
  "assistant_message c =
     \<lparr>msg_role = ASSISTANT, msg_content = c, msg_tool_call_id = None, msg_name = None, msg_tool_calls = []\<rparr>"

definition sample_request :: "string \<Rightarrow> generation_request" where
  "sample_request m = \<lparr>gr_model = m, gr_messages = [user_message ''hi''], gr_temperature = None,
     gr_max_output_tokens = None, gr_stream = False, gr_tools = [], gr_cache = False\<rparr>"

definition sample_response :: "string \<Rightarrow> generation_response" where
  "sample_response m = \<lparr>rs_id = ''r1'', rs_model = m, rs_output = assistant_message ''hello'',
     rs_usage = Some \<lparr>tu_input_tokens = 3, tu_output_tokens = 5\<rparr>, rs_cached = False\<rparr>"

lemma sample_request_sel [simp]:
  "gr_model (sample_request m) = m" "gr_stream (sample_request m) = False" "gr_cache (sample_request m) = False"
  "gr_messages (sample_request m) = [user_message ''hi'']" "gr_tools (sample_request m) = []"
  by (simp_all add: sample_request_def)

end
