(* ===== verification/Routing.thy ===== *)
theory Routing
  imports Generation
begin

text \<open>
  Model routing: the catalog rules of \<open>domain/routing.py\<close>, the context windows, and
  \<open>ModelRouter\<close> of \<open>application/routing/model_router.py\<close>.
\<close>

record model_route =
  mr_model :: string
  mr_provider :: string

definition mk_model_route :: "string \<Rightarrow> string \<Rightarrow> exn + model_route" where
  "mk_model_route model provider =
     bind_r (require_non_blank model ''model'') (\<lambda>_.
     bind_r (require_non_blank provider ''provider'') (\<lambda>_.
     Inr \<lparr>mr_model = model, mr_provider = provider\<rparr>))"

type_synonym catalog = "(string, string) dict"
type_synonym failover_catalog = "(string, string list) dict"

definition DEFAULT_MODEL_CATALOG :: catalog where
  "DEFAULT_MODEL_CATALOG =
     [(''gpt-4o-mini'', ''openai''), (''gpt-4o'', ''openai''),
      (''claude-3-5-sonnet-20241022'', ''anthropic''), (''gemini-2.5-flash'', ''gemini'')]"

definition DEFAULT_FAILOVER_CATALOG :: failover_catalog where
  "DEFAULT_FAILOVER_CATALOG =
     [(''gpt-4o'', [''claude-3-5-sonnet-20241022'', ''gemini-2.5-flash'']),
      (''gpt-4o-mini'', [''claude-3-5-sonnet-20241022'', ''gemini-2.5-flash'']),
      (''claude-3-5-sonnet-20241022'', [''gpt-4o'', ''gemini-2.5-flash'']),
      (''gemini-2.5-flash'', [''gpt-4o-mini''])]"

definition DEFAULT_MODEL_CONTEXT_WINDOWS :: "(string, int) dict" where
  "DEFAULT_MODEL_CONTEXT_WINDOWS =
     [(''gpt-4o-mini'', 128000), (''gpt-4o'', 128000),
      (''claude-3-5-sonnet-20241022'', 200000), (''gemini-2.5-flash'', 1048576)]"

definition resolve_model_route :: "string \<Rightarrow> catalog \<Rightarrow> exn + model_route" where
  "resolve_model_route requested_model cat =
     bind_r (require_non_blank requested_model ''requested_model'') (\<lambda>_.
     case dict_get cat requested_model of
       None \<Rightarrow> Inl (UnsupportedModelError requested_model)
     | Some provider \<Rightarrow> mk_model_route requested_model provider)"

text \<open>The loop over the failover models, with the chain so far and the models already in it.\<close>

fun chain_fallbacks ::
    "catalog \<Rightarrow> string list \<Rightarrow> string list \<Rightarrow> model_route list \<Rightarrow> exn + model_route list" where
  "chain_fallbacks cat [] seen chain = Inr chain"
| "chain_fallbacks cat (m # ms) seen chain =
     (if m \<in> set seen then chain_fallbacks cat ms seen chain
      else case resolve_model_route m cat of
          Inr r \<Rightarrow> chain_fallbacks cat ms (m # seen) (chain @ [r])
        | Inl e \<Rightarrow> (case e of UnsupportedModelError _ \<Rightarrow> chain_fallbacks cat ms seen chain
                    | _ \<Rightarrow> Inl e))"

definition resolve_route_chain ::
    "string \<Rightarrow> catalog \<Rightarrow> failover_catalog option \<Rightarrow> exn + model_route list" where
  "resolve_route_chain requested_model cat failover =
     bind_r (resolve_model_route requested_model cat) (\<lambda>primary.
     let fallbacks = (case failover of None \<Rightarrow> DEFAULT_FAILOVER_CATALOG | Some f \<Rightarrow> f) in
     chain_fallbacks cat (case dict_get fallbacks requested_model of None \<Rightarrow> [] | Some ms \<Rightarrow> ms)
       [mr_model primary] [primary])"

section \<open>ModelRouter\<close>

record 'p model_router =
  rt_providers :: "(string, 'p) dict"
  rt_catalog :: catalog

definition mk_model_router :: "(string, 'p) dict \<Rightarrow> catalog option \<Rightarrow> 'p model_router" where
  "mk_model_router providers cat =
     \<lparr>rt_providers = providers, rt_catalog = (case cat of None \<Rightarrow> DEFAULT_MODEL_CATALOG | Some c \<Rightarrow> c)\<rparr>"

text \<open>The resolved route: the catalog route and the adapter that serves it.\<close>

definition router_resolve :: "'p model_router \<Rightarrow> string \<Rightarrow> exn + (model_route \<times> 'p)" where
  "router_resolve rt requested_model =
     bind_r (resolve_model_route requested_model (rt_catalog rt)) (\<lambda>route.
     case dict_get (rt_providers rt) (mr_provider route) of
       None \<Rightarrow> Inl (ProviderNotRegisteredError (mr_provider route))
     | Some adapter \<Rightarrow> Inr (route, adapter))"

section \<open>Lemmas\<close>

text \<open>A route that agrees with the catalog.\<close>

definition route_in :: "catalog \<Rightarrow> model_route \<Rightarrow> bool" where
  "route_in cat r \<longleftrightarrow> dict_get cat (mr_model r) = Some (mr_provider r) \<and>
     \<not> blank (mr_model r) \<and> \<not> blank (mr_provider r)"

lemma mk_model_route_Inr:
  "mk_model_route m p = Inr r \<longleftrightarrow> r = \<lparr>mr_model = m, mr_provider = p\<rparr> \<and> \<not> blank m \<and> \<not> blank p"
  by (auto simp: mk_model_route_def bind_r_eq_Inr)

lemma resolve_model_route_Inr:
  "resolve_model_route m cat = Inr r \<longleftrightarrow> mr_model r = m \<and> route_in cat r"
  by (cases r) (auto simp: resolve_model_route_def bind_r_eq_Inr mk_model_route_Inr route_in_def split: option.splits)

lemma resolve_model_route_route_in: "route_in cat r \<Longrightarrow> resolve_model_route (mr_model r) cat = Inr r"
  by (simp add: resolve_model_route_Inr)

lemma resolve_unsupported_iff:
  "resolve_model_route m cat = Inl (UnsupportedModelError x) \<longleftrightarrow> x = m \<and> \<not> blank m \<and> dict_get cat m = None"
  by (auto simp: resolve_model_route_def bind_r_eq_Inl require_non_blank_Inl mk_model_route_def split: option.splits)

lemma router_resolve_Inr:
  "router_resolve rt m = Inr (r, p) \<longleftrightarrow> mr_model r = m \<and> route_in (rt_catalog rt) r \<and>
     dict_get (rt_providers rt) (mr_provider r) = Some p"
  by (auto simp: router_resolve_def bind_r_eq_Inr resolve_model_route_Inr split: option.splits)

lemma router_resolve_route_in:
  "route_in (rt_catalog rt) r \<Longrightarrow> router_resolve rt (mr_model r) =
     (case dict_get (rt_providers rt) (mr_provider r) of
        None \<Rightarrow> Inl (ProviderNotRegisteredError (mr_provider r)) | Some p \<Rightarrow> Inr (r, p))"
  by (simp add: router_resolve_def resolve_model_route_route_in)

text \<open>What the loop adds: routes of the catalog, for new models, in the order of the failover list.\<close>

lemma chain_fallbacks_spec:
  assumes "chain_fallbacks cat ms seen chain = Inr rs"
  shows "\<exists>ext. rs = chain @ ext \<and> (\<forall>r\<in>set ext. route_in cat r) \<and>
     subseq (map mr_model ext) ms \<and> distinct (map mr_model ext) \<and> set (map mr_model ext) \<inter> set seen = {} \<and>
     (\<forall>m\<in>set ms. dict_get cat m \<noteq> None \<longrightarrow> m \<in> set seen \<or> m \<in> mr_model ` set ext)"
  using assms
proof (induction cat ms seen chain arbitrary: rs rule: chain_fallbacks.induct)
  case (1 cat seen chain)
  then show ?case by simp
next
  case (2 cat m ms seen chain)
  show ?case
  proof (cases "m \<in> set seen")
    case True
    with "2.prems" have "chain_fallbacks cat ms seen chain = Inr rs" by simp
    from "2.IH"(1) [OF True this] show ?thesis using True by (auto intro: list_emb_Cons)
  next
    case new: False
    show ?thesis
    proof (cases "resolve_model_route m cat")
      case (Inr r)
      with "2.prems" new have "chain_fallbacks cat ms (m # seen) (chain @ [r]) = Inr rs" by simp
      from "2.IH"(3) [OF new Inr this] obtain ext where ext: "rs = chain @ r # ext"
        "\<forall>x\<in>set ext. route_in cat x" "subseq (map mr_model ext) ms" "distinct (map mr_model ext)"
        "set (map mr_model ext) \<inter> set (m # seen) = {}"
        "\<forall>x\<in>set ms. dict_get cat x \<noteq> None \<longrightarrow> x \<in> set (m # seen) \<or> x \<in> mr_model ` set ext"
        by auto
      have r: "mr_model r = m" "route_in cat r" using Inr by (auto simp: resolve_model_route_Inr)
      show ?thesis
        by (rule exI [of _ "r # ext"]) (use ext r new in auto)
    next
      case (Inl e)
      with "2.prems" new obtain x where e: "e = UnsupportedModelError x" by (cases e) auto
      with Inl have none: "dict_get cat m = None" by (simp add: resolve_unsupported_iff)
      from "2.prems" new Inl e have "chain_fallbacks cat ms seen chain = Inr rs" by simp
      from "2.IH"(2) [OF new Inl e this] show ?thesis using none by (auto intro: list_emb_Cons)
    qed
  qed
qed

lemma resolve_route_chain_spec:
  assumes "resolve_route_chain m cat fo = Inr rs"
  shows "\<exists>primary ext. rs = primary # ext \<and> mr_model primary = m \<and> (\<forall>r\<in>set rs. route_in cat r) \<and>
     distinct (map mr_model rs) \<and>
     (let fb = (case dict_get (case fo of None \<Rightarrow> DEFAULT_FAILOVER_CATALOG | Some f \<Rightarrow> f) m of
                  None \<Rightarrow> [] | Some ms \<Rightarrow> ms) in
      subseq (map mr_model ext) fb \<and>
      (\<forall>x\<in>set fb. dict_get cat x \<noteq> None \<longrightarrow> x \<in> set (map mr_model rs)))"
proof -
  from assms obtain primary where p: "resolve_model_route m cat = Inr primary"
    and rest: "chain_fallbacks cat (case dict_get (case fo of None \<Rightarrow> DEFAULT_FAILOVER_CATALOG | Some f \<Rightarrow> f) m of
         None \<Rightarrow> [] | Some ms \<Rightarrow> ms) [mr_model primary] [primary] = Inr rs"
    by (auto simp: resolve_route_chain_def bind_r_eq_Inr Let_def)
  from p have "mr_model primary = m" "route_in cat primary" by (auto simp: resolve_model_route_Inr)
  moreover from chain_fallbacks_spec [OF rest] obtain ext where "rs = primary # ext"
    "\<forall>r\<in>set ext. route_in cat r" "subseq (map mr_model ext) (case dict_get (case fo of
         None \<Rightarrow> DEFAULT_FAILOVER_CATALOG | Some f \<Rightarrow> f) m of None \<Rightarrow> [] | Some ms \<Rightarrow> ms)"
    "distinct (map mr_model ext)" "set (map mr_model ext) \<inter> {mr_model primary} = {}"
    "\<forall>x\<in>set (case dict_get (case fo of None \<Rightarrow> DEFAULT_FAILOVER_CATALOG | Some f \<Rightarrow> f) m of
         None \<Rightarrow> [] | Some ms \<Rightarrow> ms). dict_get cat x \<noteq> None \<longrightarrow> x = mr_model primary \<or> x \<in> mr_model ` set ext"
    by auto
  ultimately show ?thesis
    by (intro exI [of _ primary] exI [of _ ext]) (auto simp: Let_def)
qed

text \<open>Blank catalog entries are the only way for the chain itself to raise once the primary resolves.\<close>

lemma chain_fallbacks_total:
  assumes "\<And>m p. dict_get cat m = Some p \<Longrightarrow> \<not> blank p" and "\<And>m. m \<in> set ms \<Longrightarrow> \<not> blank m"
  shows "\<exists>rs. chain_fallbacks cat ms seen chain = Inr rs"
  using assms
proof (induction cat ms seen chain rule: chain_fallbacks.induct)
  case (1 cat seen chain)
  then show ?case by simp
next
  case (2 cat m ms seen chain)
  have "resolve_model_route m cat = Inl (UnsupportedModelError m) \<or>
      (\<exists>r. resolve_model_route m cat = Inr r)"
    using 2(4,5) [of m] by (cases "dict_get cat m")
      (auto simp: resolve_model_route_def require_non_blank_ok mk_model_route_def)
  with 2 show ?case by (auto split: sum.splits)
qed

end
