(* ===== verification/Context.thy ===== *)
theory Context
  imports Routing
begin

text \<open>
  The context budget: \<open>domain/context.py\<close>, \<open>application/context/build_context.py\<close> and the
  heuristic token counter of \<open>infrastructure/tokens\<close>. The token counter is an interface (locale
  \<open>token_counter\<close>), interpreted with the heuristic counter. The main result determines the
  output: the shortest prefix of droppable units is removed that makes the request fit.
\<close>

section \<open>Token counting\<close>

record token_counting =
  ct_message :: "message \<Rightarrow> int"
  ct_tools :: "tool_definition list \<Rightarrow> int"

text \<open>\<open>math.ceil(len(text) / 3)\<close>; the float division is exact enough for every string below \<open>2^53\<close> characters.\<close>

definition estimate :: "string \<Rightarrow> int" where
  "estimate text = (int (length text) + 2) div 3"

definition heuristic_count_message :: "message \<Rightarrow> int" where
  "heuristic_count_message m =
     foldl (\<lambda>tot call. tot + (estimate (tc_name call) + estimate (tc_arguments call)))
       (4 + estimate (msg_content m)) (msg_tool_calls m)"

definition heuristic_count_tools :: "tool_definition list \<Rightarrow> int" where
  "heuristic_count_tools tools = sum_list (map (\<lambda>t.
     estimate (td_name t @ td_description t @ dumps_with '', '' '': '' (sort_keys (td_parameters t)))) tools)"

definition heuristic_token_counter :: token_counting where
  "heuristic_token_counter = \<lparr>ct_message = heuristic_count_message, ct_tools = heuristic_count_tools\<rparr>"

section \<open>Policy and units\<close>

record context_policy =
  cp_max_input_tokens :: "int option"
  cp_truncate :: bool

definition mk_context_policy :: "int option \<Rightarrow> bool \<Rightarrow> exn + context_policy" where
  "mk_context_policy m t =
     bind_r (reject_if (case m of None \<Rightarrow> False | Some n \<Rightarrow> n \<le> 0) ''max_input_tokens must be greater than zero'')
       (\<lambda>_. Inr \<lparr>cp_max_input_tokens = m, cp_truncate = t\<rparr>)"

text \<open>The loop of \<open>_group_units\<close> over the messages from position \<open>i\<close> on.\<close>

fun group_loop :: "message list \<Rightarrow> nat \<Rightarrow> message list \<Rightarrow> nat list list \<Rightarrow> nat list list" where
  "group_loop all i [] units = units"
| "group_loop all i (m # ms) units =
     (if msg_role m = SYSTEM then group_loop all (Suc i) ms units
      else if msg_role m = TOOL \<and> units \<noteq> [] \<and> msg_tool_calls (all ! (hd (last units))) \<noteq> []
      then group_loop all (Suc i) ms (butlast units @ [last units @ [i]])
      else group_loop all (Suc i) ms (units @ [[i]]))"

definition group_units :: "message list \<Rightarrow> nat list list" where
  "group_units messages = group_loop messages 0 messages []"

section \<open>BuildContext\<close>

record build_context =
  bc_counter :: token_counting
  bc_failover_enabled :: bool
  bc_windows :: "(string, int) dict"
  bc_failover_catalog :: failover_catalog

definition context_budget :: "build_context \<Rightarrow> string \<Rightarrow> int option \<Rightarrow> context_policy \<Rightarrow> int option" where
  "context_budget bc model max_output policy =
     (let candidates = model # (if bc_failover_enabled bc
             then (case dict_get (bc_failover_catalog bc) model of None \<Rightarrow> [] | Some ms \<Rightarrow> ms) else []);
          windows = List.map_filter (dict_get (bc_windows bc)) candidates;
          limits = (if windows \<noteq> [] then [Min (set windows) - (case max_output of None \<Rightarrow> 0 | Some n \<Rightarrow> n)] else [])
                 @ (case cp_max_input_tokens policy of None \<Rightarrow> [] | Some n \<Rightarrow> [n])
      in if limits = [] then None else Some (max (Min (set limits)) 0))"

text \<open>The loop \<open>for unit in units[:-1]\<close>: the dropped indexes and the remaining total.\<close>

fun drop_units :: "int list \<Rightarrow> int \<Rightarrow> nat list list \<Rightarrow> nat list \<Rightarrow> int \<Rightarrow> nat list \<times> int" where
  "drop_units costs budget [] dropped tot = (dropped, tot)"
| "drop_units costs budget (u # us) dropped tot =
     (if tot \<le> budget then (dropped, tot)
      else drop_units costs budget us (dropped @ u) (tot - sum_list (map (\<lambda>i. costs ! i) u)))"

definition without :: "message list \<Rightarrow> nat list \<Rightarrow> message list" where
  "without messages dropped = map snd (filter (\<lambda>(i, m). i \<notin> set dropped) (enumerate 0 messages))"

definition build_context_execute ::
    "build_context \<Rightarrow> string \<Rightarrow> message list \<Rightarrow> tool_definition list \<Rightarrow> int option \<Rightarrow> context_policy \<Rightarrow>
     exn + message list" where
  "build_context_execute bc model messages tools max_output policy =
     (case context_budget bc model max_output policy of
        None \<Rightarrow> Inr messages
      | Some budget \<Rightarrow>
          (let costs = map (ct_message (bc_counter bc)) messages;
               tot = ct_tools (bc_counter bc) tools + sum_list costs
           in if tot \<le> budget then Inr messages
              else if \<not> cp_truncate policy then Inl ContextLimitExceededError
              else (case drop_units costs budget (butlast (group_units messages)) [] tot of
                      (dropped, tot') \<Rightarrow>
                        if budget < tot' then Inl ContextLimitExceededError
                        else Inr (without messages dropped))))"

section \<open>Units partition the non-system messages\<close>

definition turn_indexes :: "message list \<Rightarrow> nat list" where
  "turn_indexes ms = filter (\<lambda>i. msg_role (ms ! i) \<noteq> SYSTEM) [0..<length ms]"

lemma concat_group_loop:
  "concat (group_loop all i ms units) =
     concat units @ filter (\<lambda>j. msg_role (ms ! (j - i)) \<noteq> SYSTEM) [i..<i + length ms]"
proof (induction all i ms units rule: group_loop.induct)
  case (1 all i units)
  then show ?case by simp
next
  case (2 all i m ms units)
  have shift: "filter (\<lambda>j. msg_role ((m # ms) ! (j - i)) \<noteq> SYSTEM) [Suc i..<Suc (i + length ms)] =
      filter (\<lambda>j. msg_role (ms ! (j - Suc i)) \<noteq> SYSTEM) [Suc i..<Suc (i + length ms)]"
    by (rule filter_cong) (auto simp: nth_Cons')
  have "[i..<Suc (i + length ms)] = i # [Suc i..<Suc (i + length ms)]" by (simp add: upt_rec)
  then have all: "filter (\<lambda>j. msg_role ((m # ms) ! (j - i)) \<noteq> SYSTEM) [i..<i + length (m # ms)] =
      (if msg_role m \<noteq> SYSTEM then [i] else []) @
      filter (\<lambda>j. msg_role (ms ! (j - Suc i)) \<noteq> SYSTEM) [Suc i..<Suc i + length ms]"
    using shift by simp
  have snoc: "units \<noteq> [] \<Longrightarrow> concat (butlast units) @ last units = concat units"
    by (metis append_butlast_last_id concat.simps concat_append append_Nil2)
  show ?case unfolding all using "2.IH" snoc by (auto simp flip: append_assoc)
qed

lemma concat_group_units: "concat (group_units ms) = turn_indexes ms"
  by (simp add: group_units_def turn_indexes_def concat_group_loop)

lemma distinct_group_units: "distinct (concat (group_units ms))"
  by (simp add: concat_group_units turn_indexes_def)

section \<open>What remains, and what it costs\<close>

lemma without_Nil [simp]: "without ms [] = ms"
  by (simp add: without_def map_snd_enumerate)

lemma without_alt: "without ms D = map (\<lambda>i. ms ! i) (filter (\<lambda>i. i \<notin> set D) [0..<length ms])"
proof -
  have "enumerate 0 ms = map (\<lambda>i. (i, ms ! i)) [0..<length ms]"
    by (rule nth_equalityI) (simp_all add: enumerate_eq_zip)
  then show ?thesis by (simp add: without_def filter_map o_def)
qed

lemma without_subseq: "subseq (without ms D) ms"
  unfolding without_alt by (metis map_nth subseq_filter_left subseq_map)

lemma cost_without:
  fixes f :: "message \<Rightarrow> int"
  assumes "distinct D" and "set D \<subseteq> {..<length ms}"
  shows "sum_list (map f (without ms D)) = sum_list (map f ms) - sum_list (map (\<lambda>i. map f ms ! i) D)"
proof -
  let ?g = "\<lambda>i. f (ms ! i)"
  have "sum_list (map f ms) = (\<Sum>i<length ms. ?g i)"
    by (simp add: sum_list_sum_nth atLeast0LessThan)
  also have "\<dots> = (\<Sum>i\<in>{..<length ms} - set D. ?g i) + (\<Sum>i\<in>set D. ?g i)"
    using assms(2) by (subst sum.subset_diff [of "set D"]) auto
  also have "(\<Sum>i\<in>set D. ?g i) = sum_list (map (\<lambda>i. map f ms ! i) D)"
    using assms by (simp add: sum_list_distinct_conv_sum_set subset_iff)
  also have "(\<Sum>i\<in>{..<length ms} - set D. ?g i) = sum_list (map f (without ms D))"
    unfolding without_alt
    by (simp add: o_def sum_list_distinct_conv_sum_set) (rule sum.cong, auto)
  finally show ?thesis by simp
qed

section \<open>Truncation\<close>

text \<open>What is left when the oldest \<open>k\<close> units are dropped, and the estimated size of the request.\<close>

definition kept :: "message list \<Rightarrow> nat \<Rightarrow> message list" where
  "kept messages k = without messages (concat (take k (group_units messages)))"

definition request_size :: "token_counting \<Rightarrow> tool_definition list \<Rightarrow> message list \<Rightarrow> int" where
  "request_size ct tools messages = ct_tools ct tools + sum_list (map (ct_message ct) messages)"

lemma kept_0 [simp]: "kept ms 0 = ms"
  by (simp add: kept_def)

lemma units_below: "set (concat (take k (group_units ms))) \<subseteq> {..<length ms}"
proof -
  have "set (concat (take k (group_units ms))) \<subseteq> set (concat (group_units ms))"
    by (auto dest: in_set_takeD)
  then show ?thesis by (auto simp: concat_group_units turn_indexes_def)
qed

lemma distinct_take_units: "distinct (concat (take k (group_units ms)))"
  using distinct_group_units [of ms]
  by (metis append_take_drop_id concat_append distinct_append)

lemma request_size_kept:
  "request_size ct tools (kept ms k) = request_size ct tools ms -
     sum_list (map (\<lambda>i. map (ct_message ct) ms ! i) (concat (take k (group_units ms))))"
  unfolding request_size_def kept_def
  by (subst cost_without [OF distinct_take_units units_below]) simp

lemma drop_units_spec:
  assumes "drop_units costs budget us dropped tot = (dropped', tot')"
  shows "\<exists>k \<le> length us. dropped' = dropped @ concat (take k us) \<and>
     tot' = tot - sum_list (map (\<lambda>i. costs ! i) (concat (take k us))) \<and>
     (\<forall>j<k. budget < tot - sum_list (map (\<lambda>i. costs ! i) (concat (take j us)))) \<and>
     (k < length us \<longrightarrow> tot' \<le> budget)"
  using assms
proof (induction us arbitrary: dropped tot)
  case Nil
  then show ?case by simp
next
  case (Cons u us)
  let ?c = "\<lambda>is. sum_list (map (\<lambda>i. costs ! i) is)"
  show ?case
  proof (cases "tot \<le> budget")
    case True
    with Cons.prems show ?thesis by (intro exI [of _ 0]) auto
  next
    case False
    with Cons.prems have "drop_units costs budget us (dropped @ u) (tot - ?c u) = (dropped', tot')" by simp
    from Cons.IH [OF this] obtain k where k: "k \<le> length us" "dropped' = (dropped @ u) @ concat (take k us)"
      "tot' = tot - ?c u - ?c (concat (take k us))"
      "\<forall>j<k. budget < tot - ?c u - ?c (concat (take j us))" "k < length us \<longrightarrow> tot' \<le> budget"
      by blast
    have "budget < tot - ?c (concat (take j (u # us)))" if "j < Suc k" for j
      using that k(4) False by (cases j) auto
    with k show ?thesis by (intro exI [of _ "Suc k"]) auto
  qed
qed

lemma budget_within:
  assumes "context_budget bc model mo pol = Some b"
  shows "build_context_execute bc model ms tools mo pol = Inr out \<longleftrightarrow>
    (\<exists>k. out = kept ms k \<and> request_size (bc_counter bc) tools out \<le> b \<and>
       (\<forall>j<k. b < request_size (bc_counter bc) tools (kept ms j)) \<and>
       (0 < k \<longrightarrow> cp_truncate pol \<and> k < length (group_units ms)))"
    (is "?l \<longleftrightarrow> ?r")
proof -
  let ?size = "request_size (bc_counter bc) tools"
  let ?costs = "map (ct_message (bc_counter bc)) ms"
  consider (fits) "?size ms \<le> b" | (fixed) "b < ?size ms" "\<not> cp_truncate pol" | (cut) "b < ?size ms" "cp_truncate pol"
    by linarith
  then show ?thesis
  proof cases
    case fits
    have "?r \<longleftrightarrow> out = ms"
    proof
      assume ?r
      then obtain k where k: "out = kept ms k" "\<forall>j<k. b < ?size (kept ms j)" by blast
      with fits have "k = 0" by (metis gr0I kept_0 not_le)
      with k show "out = ms" by simp
    next
      assume "out = ms"
      with fits show ?r by (intro exI [of _ 0]) simp
    qed
    with fits assms show ?thesis by (auto simp: build_context_execute_def request_size_def)
  next
    case fixed
    then have "\<not> ?r" by (metis gr0I kept_0 not_le)
    with fixed assms show ?thesis by (simp add: build_context_execute_def request_size_def)
  next
    case cut
    obtain D t where d: "drop_units ?costs b (butlast (group_units ms)) [] (?size ms) = (D, t)"
      by (cases "drop_units ?costs b (butlast (group_units ms)) [] (?size ms)")
    let ?us = "group_units ms"
    let ?c = "\<lambda>is. sum_list (map (\<lambda>i. ?costs ! i) is)"
    have pre: "take j (butlast ?us) = take j ?us" if "j \<le> length ?us - 1" for j
      using that by (cases ?us rule: rev_cases) auto
    from drop_units_spec [OF d] obtain k where k0: "k \<le> length ?us - 1"
      "D = concat (take k (butlast ?us))" "t = ?size ms - ?c (concat (take k (butlast ?us)))"
      "\<forall>j<k. b < ?size ms - ?c (concat (take j (butlast ?us)))" "k < length ?us - 1 \<longrightarrow> t \<le> b"
      by auto
    have "\<forall>j<k. b < ?size (kept ms j)"
    proof (intro allI impI)
      fix j assume "j < k"
      with k0(1,4) pre [of j] show "b < ?size (kept ms j)" unfolding request_size_kept by fastforce
    qed
    with k0 pre [OF k0(1)] have k: "k \<le> length ?us - 1" "D = concat (take k ?us)" "t = ?size (kept ms k)"
      "\<forall>j<k. b < ?size (kept ms j)" "k < length ?us - 1 \<longrightarrow> t \<le> b"
      unfolding request_size_kept by simp_all
    have l: "?l \<longleftrightarrow> t \<le> b \<and> out = kept ms k"
      using cut assms d k(2) by (auto simp: build_context_execute_def request_size_def kept_def)
    have same: "k' = k" if "?size (kept ms k') \<le> b" "\<forall>j<k'. b < ?size (kept ms j)" "t \<le> b" for k'
      using that k(3,4) by (metis linorder_neqE_nat not_le)
    have pos: "0 < k" if "t \<le> b" using that k(3) cut(1) by (cases k) auto
    show ?thesis
    proof
      assume ?l
      with l pos k cut(2) show ?r by (intro exI [of _ k]) auto
    next
      assume ?r
      then obtain k' where k': "out = kept ms k'" "?size out \<le> b" "\<forall>j<k'. b < ?size (kept ms j)"
        "0 < k' \<longrightarrow> k' < length (group_units ms)" by blast
      have "t \<le> b"
      proof (rule ccontr)
        assume "\<not> t \<le> b"
        with k(1,5) k'(4) have "k' \<le> k" by (cases k') auto
        with k(3,4) k'(1,2) \<open>\<not> t \<le> b\<close> show False by (metis linorder_neqE_nat not_le not_less)
      qed
      with same k' l show ?l by auto
    qed
  qed
qed

text \<open>A budget that is absent checks nothing; with one, failing means no admissible cut fits.\<close>

lemma no_budget: "context_budget bc model mo pol = None \<Longrightarrow> build_context_execute bc model ms tools mo pol = Inr ms"
  by (simp add: build_context_execute_def)

lemma build_context_error: "build_context_execute bc model ms tools mo pol = Inl e \<Longrightarrow> e = ContextLimitExceededError"
  by (auto simp: build_context_execute_def Let_def split: option.splits if_splits prod.splits)

lemma kept_keeps_systems:
  assumes "i < length ms" "msg_role (ms ! i) = SYSTEM"
  shows "i \<notin> set (concat (take k (group_units ms)))"
proof
  assume "i \<in> set (concat (take k (group_units ms)))"
  then have "i \<in> set (concat (group_units ms))" by (auto dest: in_set_takeD)
  with assms show False by (simp add: concat_group_units turn_indexes_def)
qed

text \<open>A unit is dropped as a whole or not at all.\<close>

lemma kept_units_whole:
  assumes "n < length (group_units ms)" "i \<in> set (group_units ms ! n)"
  shows "i \<in> set (concat (take k (group_units ms))) \<longleftrightarrow> n < k"
proof
  assume "n < k"
  with assms(1) have "take k (group_units ms) ! n \<in> set (take k (group_units ms))" by (intro nth_mem) simp
  with \<open>n < k\<close> assms show "i \<in> set (concat (take k (group_units ms)))" by auto
next
  assume i: "i \<in> set (concat (take k (group_units ms)))"
  show "n < k"
  proof (rule ccontr)
    assume "\<not> n < k"
    with assms(1) have "drop k (group_units ms) ! (n - k) \<in> set (drop k (group_units ms))" by (intro nth_mem) simp
    with \<open>\<not> n < k\<close> assms have "i \<in> set (concat (drop k (group_units ms)))" by auto
    with i distinct_group_units [of ms] show False
      by (metis append_take_drop_id concat_append distinct_append disjoint_iff)
  qed
qed

section \<open>Token counters\<close>

text \<open>The contract of \<open>ports/token_counter.py\<close>: estimates are never negative.\<close>

locale token_counter =
  fixes ct :: token_counting
  assumes message_nonneg: "0 \<le> ct_message ct m"
    and tools_nonneg: "0 \<le> ct_tools ct ts"
begin

lemma size_without: "request_size ct ts (without ms D) \<le> request_size ct ts ms"
proof -
  have "sum_list (map (ct_message ct) (map snd (filter P xs))) \<le> sum_list (map (ct_message ct) (map snd xs))"
    for P and xs :: "(nat \<times> message) list"
    by (induction xs) (auto simp: message_nonneg add_increasing)
  from this [of "\<lambda>(i, m). i \<notin> set D" "enumerate 0 ms"] show ?thesis
    by (simp add: request_size_def without_def map_snd_enumerate)
qed

lemma size_kept_antimono:
  assumes "j \<le> k"
  shows "request_size ct ts (kept ms k) \<le> request_size ct ts (kept ms j)"
proof -
  have nonneg: "0 \<le> sum_list (map (\<lambda>i. map (ct_message ct) ms ! i) D)" if "set D \<subseteq> {..<length ms}" for D
    using that by (induction D) (auto simp: message_nonneg)
  have split: "take k (group_units ms) = take j (group_units ms) @ drop j (take k (group_units ms))"
    (is "_ = _ @ ?E")
    using assms by (metis append_take_drop_id min.absorb1 take_take)
  then have "set (concat ?E) \<subseteq> set (concat (take k (group_units ms)))"
    by (auto dest: in_set_dropD)
  with units_below [of k ms] have "set (concat ?E) \<subseteq> {..<length ms}" by blast
  from nonneg [OF this] have "0 \<le> sum_list (map (\<lambda>i. map (ct_message ct) ms ! i) (concat ?E))" .
  then show ?thesis unfolding request_size_kept by (subst split) simp
qed

text \<open>Truncation gives up only when the system messages and the last unit alone are too large.\<close>

lemma error_only_if_last_unit_too_large:
  assumes "bc_counter bc = ct" "context_budget bc model mo pol = Some b" "cp_truncate pol"
  shows "build_context_execute bc model ms tools mo pol = Inl e \<Longrightarrow>
    b < request_size ct tools (kept ms (length (group_units ms) - 1))"
proof (rule ccontr)
  let ?n = "length (group_units ms) - 1"
  assume err: "build_context_execute bc model ms tools mo pol = Inl e"
    and "\<not> b < request_size ct tools (kept ms ?n)"
  then have fits: "request_size ct tools (kept ms ?n) \<le> b" by simp
  define k where "k = (LEAST k. request_size ct tools (kept ms k) \<le> b)"
  have k: "request_size ct tools (kept ms k) \<le> b" "\<forall>j<k. b < request_size ct tools (kept ms j)" "k \<le> ?n"
    unfolding k_def using fits not_less_Least [of _ "\<lambda>k. request_size ct tools (kept ms k) \<le> b"]
    by (auto intro: LeastI Least_le simp: not_le [symmetric])
  have "build_context_execute bc model ms tools mo pol = Inr (kept ms k)"
    unfolding budget_within [OF assms(2)] assms(1)
    by (rule exI [of _ k]) (use k assms(3) in auto)
  with err show False by simp
qed

end

lemma estimate_nonneg [simp]: "0 \<le> estimate s"
  by (simp add: estimate_def)

lemma heuristic_count_message_nonneg: "0 \<le> heuristic_count_message m"
proof -
  have "0 \<le> a \<Longrightarrow> 0 \<le> foldl (\<lambda>t call. t + (estimate (tc_name call) + estimate (tc_arguments call))) a cs" for a cs
    by (induction cs arbitrary: a) auto
  from this [of "4 + estimate (msg_content m)" "msg_tool_calls m"] show ?thesis
    by (simp add: heuristic_count_message_def)
qed

interpretation heuristic: token_counter heuristic_token_counter
  by unfold_locales
    (auto simp: heuristic_token_counter_def heuristic_count_tools_def heuristic_count_message_nonneg
      intro!: sum_list_map_nonneg)

lemma kept_systems: "filter (\<lambda>m. msg_role m = SYSTEM) (kept ms k) = filter (\<lambda>m. msg_role m = SYSTEM) ms"
proof -
  let ?D = "concat (take k (group_units ms))"
  have "filter (\<lambda>m. msg_role m = SYSTEM) (kept ms k) =
      map (\<lambda>i. ms ! i) (filter (\<lambda>i. msg_role (ms ! i) = SYSTEM) (filter (\<lambda>i. i \<notin> set ?D) [0..<length ms]))"
    unfolding kept_def without_alt by (simp add: filter_map o_def)
  also have "filter (\<lambda>i. msg_role (ms ! i) = SYSTEM) (filter (\<lambda>i. i \<notin> set ?D) [0..<length ms]) =
      filter (\<lambda>i. msg_role (ms ! i) = SYSTEM) [0..<length ms]"
    unfolding filter_filter by (rule filter_cong) (use kept_keeps_systems [of _ ms k] in auto)
  also have "map (\<lambda>i. ms ! i) \<dots> = filter (\<lambda>m. msg_role m = SYSTEM) (map (\<lambda>i. ms ! i) [0..<length ms])"
    by (simp add: filter_map o_def)
  finally show ?thesis by (simp add: map_nth)
qed

section \<open>Properties\<close>

definition demo_build_context :: "build_context" where
  "demo_build_context = \<lparr>bc_counter = heuristic_token_counter, bc_failover_enabled = True,
     bc_windows = [(''m'', 30), (''n'', 40)], bc_failover_catalog = [(''m'', [''n''])]\<rparr>"

definition demo_conversation :: "message list" where
  "demo_conversation = [(user_message ''be brief'')\<lparr>msg_role := SYSTEM\<rparr>, user_message ''a long question here'',
     assistant_message ''a long answer here'', user_message ''and now?'']"


text \<open>When the context check fails. With the heuristic token counter a request over budget is refused
  exactly when truncation is not allowed or even the system messages and the last unit do not fit.\<close>

theorem context_limit_exact:
  assumes "bc_counter bc = heuristic_token_counter" and "context_budget bc model mo pol = Some b"
  shows "build_context_execute bc model ms tools mo pol = Inl ContextLimitExceededError \<longleftrightarrow>
    b < request_size heuristic_token_counter tools ms \<and>
    (\<not> cp_truncate pol \<or> b < request_size heuristic_token_counter tools (kept ms (length (group_units ms) - 1)))"
proof -
  let ?n = "length (group_units ms) - 1" and ?size = "request_size heuristic_token_counter tools"
  have anti: "?size (kept ms j) \<le> ?size (kept ms i)" if "i \<le> j" for i j
    using heuristic.size_kept_antimono that .
  have ok: "(\<exists>out. build_context_execute bc model ms tools mo pol = Inr out) \<longleftrightarrow>
      ?size ms \<le> b \<or> cp_truncate pol \<and> ?size (kept ms ?n) \<le> b"
  proof
    assume "\<exists>out. build_context_execute bc model ms tools mo pol = Inr out"
    then obtain k where "?size (kept ms k) \<le> b" "0 < k \<longrightarrow> cp_truncate pol \<and> k < length (group_units ms)"
      using budget_within [OF assms(2), of ms tools] assms(1) by auto
    with anti [of k ?n] show "?size ms \<le> b \<or> cp_truncate pol \<and> ?size (kept ms ?n) \<le> b"
      by (cases k) force+
  next
    assume "?size ms \<le> b \<or> cp_truncate pol \<and> ?size (kept ms ?n) \<le> b"
    then show "\<exists>out. build_context_execute bc model ms tools mo pol = Inr out"
    proof
      assume "?size ms \<le> b"
      then have "build_context_execute bc model ms tools mo pol = Inr ms"
        using budget_within [OF assms(2), of ms tools ms] assms(1) by (auto intro!: exI [of _ 0])
      then show ?thesis ..
    next
      assume "cp_truncate pol \<and> ?size (kept ms ?n) \<le> b"
      then show ?thesis
        using heuristic.error_only_if_last_unit_too_large [OF assms, of ms tools]
        by (cases "build_context_execute bc model ms tools mo pol") auto
    qed
  qed
  show ?thesis
  proof (cases "build_context_execute bc model ms tools mo pol")
    case (Inl e)
    with ok build_context_error [OF Inl] show ?thesis by auto
  next
    case (Inr out)
    with ok show ?thesis by auto
  qed
qed


lemma context_limit_exact_witness:
  "build_context_execute demo_build_context ''m'' demo_conversation [] (Some 25)
     \<lparr>cp_max_input_tokens = None, cp_truncate = True\<rparr> = Inl ContextLimitExceededError"
proof -
  let ?p = "\<lparr>cp_max_input_tokens = None, cp_truncate = True\<rparr>"
  have c: "bc_counter demo_build_context = heuristic_token_counter" by (simp add: demo_build_context_def)
  have b: "context_budget demo_build_context ''m'' (Some 25) ?p = Some 5" by code_simp
  have "5 < request_size heuristic_token_counter [] demo_conversation \<and>
    5 < request_size heuristic_token_counter [] (kept demo_conversation (length (group_units demo_conversation) - 1))"
    by code_simp
  with context_limit_exact [OF c b, of demo_conversation "[]"] show ?thesis by simp
qed

end
