(* ===== verification/Calendar.thy ===== *)
theory Calendar
  imports Errors
begin

text \<open>
  Date and time: the part of \<open>datetime\<close> the program uses (fields, time zone with a fixed offset,
  \<open>replace\<close>, comparison and subtraction of aware values) and the month arithmetic of
  \<open>domain/organization_policy.py\<close>. The main result bounds the retry-after seconds of a quota error.
\<close>

text \<open>\<open>dt_tz = None\<close> is a naive value; otherwise the offset from UTC in seconds.\<close>

record datetime =
  dt_year :: nat
  dt_month :: nat
  dt_day :: nat
  dt_hour :: nat
  dt_minute :: nat
  dt_second :: nat
  dt_micro :: nat
  dt_tz :: "int option"

definition aware :: "datetime \<Rightarrow> bool" where
  "aware d = (dt_tz d \<noteq> None)"

section \<open>The proleptic Gregorian calendar\<close>

definition is_leap :: "nat \<Rightarrow> bool" where
  "is_leap y = (y mod 4 = 0 \<and> (y mod 100 \<noteq> 0 \<or> y mod 400 = 0))"

definition days_in_month :: "nat \<Rightarrow> nat \<Rightarrow> nat" where
  "days_in_month y m = (if m = 2 then (if is_leap y then 29 else 28)
     else if m \<in> {4, 6, 9, 11} then 30 else 31)"

definition days_before_month :: "nat \<Rightarrow> nat \<Rightarrow> nat" where
  "days_before_month y m = sum_list (map (days_in_month y) [1..<m])"

text \<open>Days before 1 January of the year after \<open>y\<close>.\<close>

definition days_through_year :: "nat \<Rightarrow> nat" where
  "days_through_year y = y * 365 + y div 4 - y div 100 + y div 400"

definition ordinal :: "datetime \<Rightarrow> int" where
  "ordinal d = int (days_through_year (dt_year d - 1) + days_before_month (dt_year d) (dt_month d) + dt_day d)"

definition valid_datetime :: "datetime \<Rightarrow> bool" where
  "valid_datetime d \<longleftrightarrow> 1 \<le> dt_year d \<and> dt_year d \<le> 9999 \<and> 1 \<le> dt_month d \<and> dt_month d \<le> 12 \<and>
     1 \<le> dt_day d \<and> dt_day d \<le> days_in_month (dt_year d) (dt_month d) \<and>
     dt_hour d < 24 \<and> dt_minute d < 60 \<and> dt_second d < 60 \<and> dt_micro d < 1000000"

text \<open>Microseconds on the UTC time line; comparison and subtraction of aware values use it.\<close>

definition instant :: "datetime \<Rightarrow> int" where
  "instant d = ((ordinal d * 86400 + int (dt_hour d) * 3600 + int (dt_minute d) * 60 + int (dt_second d))
     - (case dt_tz d of None \<Rightarrow> 0 | Some off \<Rightarrow> off)) * 1000000 + int (dt_micro d)"

section \<open>Month bounds\<close>

definition year_error :: "nat \<Rightarrow> exn" where
  "year_error y = ValueError (''year '' @ str_of_nat y @ '' is out of range'')"

definition current_month_utc_bounds :: "datetime \<Rightarrow> exn + (datetime \<times> datetime)" where
  "current_month_utc_bounds now =
     (if dt_tz now = None then Inl (DomainValidationError ''now must be timezone-aware'')
      else (let start = now\<lparr>dt_day := 1, dt_hour := 0, dt_minute := 0, dt_second := 0, dt_micro := 0\<rparr> in
        if dt_month start = 12 then
          (if 9999 < dt_year start + 1 then Inl (year_error (dt_year start + 1))
           else Inr (start, start\<lparr>dt_year := dt_year start + 1, dt_month := 1\<rparr>))
        else Inr (start, start\<lparr>dt_month := dt_month start + 1\<rparr>)))"

text \<open>\<open>int(delta.total_seconds())\<close> of a non-negative difference in microseconds.\<close>

definition seconds_until_end_of_month_utc :: "datetime \<Rightarrow> exn + int" where
  "seconds_until_end_of_month_utc now =
     (if dt_tz now = None then Inl (DomainValidationError ''now must be timezone-aware'')
      else bind_r (current_month_utc_bounds now) (\<lambda>(start, end).
        Inr (max 1 ((instant end - instant now) div 1000000))))"

section \<open>Lemmas\<close>

lemma days_through_Suc: "days_through_year (Suc y) = days_through_year y + (if is_leap (Suc y) then 366 else 365)"
proof -
  have le: "y div 100 \<le> y * 365 + y div 4" by simp
  have dvd: "Suc y mod 400 = 0 \<Longrightarrow> Suc y mod 100 = 0" "Suc y mod 100 = 0 \<Longrightarrow> Suc y mod 4 = 0"
    using dvd_trans [of 100 400 "Suc y"] dvd_trans [of 4 100 "Suc y"] by (simp_all add: mod_eq_0_iff_dvd)
  have d: "Suc y div k = y div k + (if Suc y mod k = 0 then 1 else 0)" for k by (simp add: div_Suc)
  obtain a b c where abc: "y div 4 = a" "y div 100 = b" "y div 400 = c" by blast
  show ?thesis using le dvd
    unfolding days_through_year_def is_leap_def d abc by (simp add: ac_simps)
qed

lemma days_before_month_Suc: "1 \<le> m \<Longrightarrow> days_before_month y (Suc m) = days_before_month y m + days_in_month y m"
  by (simp add: days_before_month_def)

lemma days_before_month_1 [simp]: "days_before_month y (Suc 0) = 0" "days_before_month y 1 = 0"
  by (simp_all add: days_before_month_def)

lemma days_of_year: "days_before_month y 12 + days_in_month y 12 = (if is_leap y then 366 else 365)"
proof -
  have "[1..<12] = [1, 2, 3, 4, 5, 6, 7, 8, 9, 10, 11::nat]" by (simp add: upt_rec)
  then show ?thesis by (simp add: days_before_month_def days_in_month_def)
qed

lemma days_in_month_bounds: "28 \<le> days_in_month y m" "days_in_month y m \<le> 31"
  by (auto simp: days_in_month_def)

lemma month_bounds_ordinal:
  assumes "current_month_utc_bounds now = Inr (start, end)" and "valid_datetime now"
  shows "ordinal end = ordinal start + int (days_in_month (dt_year now) (dt_month now))"
    and "ordinal now = ordinal start + int (dt_day now) - 1"
    and "dt_tz start = dt_tz now" "dt_tz end = dt_tz now"
    and "dt_hour end = 0" "dt_minute end = 0" "dt_second end = 0" "dt_micro end = 0"
    and "dt_hour start = 0" "dt_minute start = 0" "dt_second start = 0" "dt_micro start = 0"
proof -
  let ?s = "now\<lparr>dt_day := 1, dt_hour := 0, dt_minute := 0, dt_second := 0, dt_micro := 0\<rparr>"
  from assms(1) have s: "start = ?s" and e: "end = (if dt_month now = 12
      then ?s\<lparr>dt_year := dt_year now + 1, dt_month := 1\<rparr> else ?s\<lparr>dt_month := dt_month now + 1\<rparr>)"
    by (auto simp: current_month_utc_bounds_def Let_def split: if_splits)
  have v: "1 \<le> dt_year now" "1 \<le> dt_month now" using assms(2) by (simp_all add: valid_datetime_def)
  then obtain y where y: "dt_year now = Suc y" by (cases "dt_year now") auto
  show "ordinal end = ordinal start + int (days_in_month (dt_year now) (dt_month now))"
    using v y days_before_month_Suc [OF v(2), of "Suc y"] days_of_year [of "Suc y"] days_through_Suc [of y]
    by (auto simp: s e ordinal_def)
  show "ordinal now = ordinal start + int (dt_day now) - 1" by (simp add: s ordinal_def)
qed (use assms(1) in \<open>auto simp: current_month_utc_bounds_def Let_def split: if_splits\<close>)

lemma month_contains_now:
  assumes "current_month_utc_bounds now = Inr (start, end)" and "valid_datetime now"
  shows "instant start \<le> instant now" and "instant now < instant end"
    and "instant end - instant start = int (days_in_month (dt_year now) (dt_month now)) * 86400 * 1000000"
proof -
  note b = month_bounds_ordinal [OF assms]
  have v: "1 \<le> dt_day now" "dt_day now \<le> days_in_month (dt_year now) (dt_month now)" "dt_hour now < 24"
    "dt_minute now < 60" "dt_second now < 60" "dt_micro now < 1000000"
    using assms(2) by (simp_all add: valid_datetime_def)
  show "instant start \<le> instant now" using v(1) b by (simp add: instant_def)
  show "instant end - instant start = int (days_in_month (dt_year now) (dt_month now)) * 86400 * 1000000"
    using b by (simp add: instant_def algebra_simps)
  show "instant now < instant end" using v b by (simp add: instant_def algebra_simps)
qed

lemma month_bounds_total:
  assumes "valid_datetime now" "aware now" "dt_year now < 9999 \<or> dt_month now < 12"
  shows "\<exists>start end. current_month_utc_bounds now = Inr (start, end)"
  using assms by (auto simp: current_month_utc_bounds_def Let_def aware_def)

lemma seconds_bounds:
  assumes "valid_datetime now" and "aware now" and "dt_year now < 9999 \<or> dt_month now < 12"
  shows "\<exists>secs. seconds_until_end_of_month_utc now = Inr secs \<and> 1 \<le> secs \<and> secs \<le> 31 * 86400"
proof -
  from month_bounds_total [OF assms] obtain start "end" where b: "current_month_utc_bounds now = Inr (start, end)"
    by blast
  note m = month_contains_now [OF b assms(1)]
  have "instant end - instant now \<le> 31 * 86400 * 1000000"
    using m(1,3) days_in_month_bounds(2) [of "dt_year now" "dt_month now"] by simp
  then have "(instant end - instant now) div 1000000 \<le> 31 * 86400" by linarith
  then show ?thesis
    using b assms(2) by (auto simp: seconds_until_end_of_month_utc_def aware_def max_def)
qed

section \<open>Properties\<close>

text \<open>The month window and the quota's retry-after. For every valid aware instant before December 9999
  the month bounds exist, enclose the instant and are one calendar month apart, and the retry-after is
  between one second and 31 days and reaches no further than the end of the window.\<close>

theorem month_window:
  assumes "valid_datetime now" and "aware now" and "dt_year now < 9999 \<or> dt_month now < 12"
  shows "\<exists>start end secs. current_month_utc_bounds now = Inr (start, end) \<and>
    seconds_until_end_of_month_utc now = Inr secs \<and>
    instant start \<le> instant now \<and> instant now < instant end \<and>
    instant end - instant start = int (days_in_month (dt_year now) (dt_month now)) * 86400 * 1000000 \<and>
    1 \<le> secs \<and> secs \<le> 31 * 86400 \<and> (secs - 1) * 1000000 < instant end - instant now"
proof -
  from month_bounds_total [OF assms] obtain start "end" where b: "current_month_utc_bounds now = Inr (start, end)"
    by blast
  from seconds_bounds [OF assms] obtain secs
    where s: "seconds_until_end_of_month_utc now = Inr secs" "1 \<le> secs" "secs \<le> 31 * 86400" by blast
  note m = month_contains_now [OF b assms(1)]
  have "((instant end - instant now) div 1000000) * 1000000 \<le> instant end - instant now" by linarith
  then have "(secs - 1) * 1000000 < instant end - instant now"
    using s(1) b m assms(2) by (auto simp: seconds_until_end_of_month_utc_def aware_def max_def)
  with b m s show ?thesis by blast
qed

definition sample_instant :: "datetime" where
  "sample_instant = \<lparr>dt_year = 2024, dt_month = 2, dt_day = 28, dt_hour = 23, dt_minute = 59,
     dt_second = 59, dt_micro = 1, dt_tz = Some 0\<rparr>"

lemma month_window_witness: "\<exists>secs. seconds_until_end_of_month_utc sample_instant = Inr secs \<and> secs \<le> 31 * 86400"
proof -
  have "valid_datetime sample_instant" "aware sample_instant" "dt_year sample_instant < 9999"
    by (simp_all add: sample_instant_def valid_datetime_def aware_def days_in_month_def is_leap_def)
  with month_window [of sample_instant] show ?thesis by blast
qed

lemma days_before_month_2: "days_before_month y 2 = 31"
  and days_before_month_3: "days_before_month y 3 = 31 + days_in_month y 2"
  by (simp_all add: days_before_month_def upt_rec days_in_month_def)

lemmas calendar_eval = current_month_utc_bounds_def seconds_until_end_of_month_utc_def instant_def ordinal_def
  days_through_year_def days_before_month_2 days_before_month_3 days_in_month_def is_leap_def

lemma sample_month_seconds: "seconds_until_end_of_month_utc sample_instant = Inr 86400"
  by (simp add: calendar_eval sample_instant_def)

text \<open>The quota window follows the instant's own time zone. For an instant 2024-03-01 00:30 at offset
  +01:00, which is still February in UTC, the window starts at the local month start, an hour off the
  UTC month the function's name and documentation announce.\<close>

theorem month_bounds_not_utc:
  "\<exists>start end. current_month_utc_bounds \<lparr>dt_year = 2024, dt_month = 3, dt_day = 1, dt_hour = 0,
       dt_minute = 30, dt_second = 0, dt_micro = 0, dt_tz = Some 3600\<rparr> = Inr (start, end) \<and>
     instant start = instant \<lparr>dt_year = 2024, dt_month = 2, dt_day = 29, dt_hour = 23,
       dt_minute = 0, dt_second = 0, dt_micro = 0, dt_tz = Some 0\<rparr>"
  by (simp add: calendar_eval)

end
