(* ===== verification/Prompt.thy ===== *)
theory Prompt
  imports Generation Calendar
begin

text \<open>
  Prompt templates: \<open>domain/prompt.py\<close>. The placeholder pattern is a scanner that cuts a template
  into literal characters and placeholders; rendering substitutes the values in one pass. The main
  results say that the scanner partitions the text and when and how a template renders.
\<close>

section \<open>Names\<close>

definition is_alpha :: "char \<Rightarrow> bool" where
  "is_alpha c = (let n = ord_of c in (65 \<le> n \<and> n \<le> 90) \<or> (97 \<le> n \<and> n \<le> 122))"

text \<open>\<open>[A-Za-z0-9._-]{1,64}\<close>\<close>

definition prompt_name_matches :: "string \<Rightarrow> bool" where
  "prompt_name_matches name = (1 \<le> length name \<and> length name \<le> 64 \<and>
     (\<forall>c\<in>set name. is_alpha c \<or> is_digit c \<or> c \<in> {CHR ''.'', CHR ''_'', CHR ''-''}))"

definition validate_prompt_name :: "string \<Rightarrow> exn + unit" where
  "validate_prompt_name name =
     reject_if (\<not> prompt_name_matches name) ''prompt name must be 1-64 characters using [A-Za-z0-9._-]''"

section \<open>Placeholders\<close>

text \<open>A piece of a template: a literal character, or a placeholder with its source text.\<close>

datatype segment = Lit char | Var string string

fun seg_source :: "segment \<Rightarrow> string" where
  "seg_source (Lit c) = [c]"
| "seg_source (Var name src) = src"

definition name_start :: "char \<Rightarrow> bool" where
  "name_start c = (is_alpha c \<or> c = CHR ''_'')"

definition name_char :: "char \<Rightarrow> bool" where
  "name_char c = (is_alpha c \<or> is_digit c \<or> c = CHR ''_'')"

text \<open>A match of \<open>_PLACEHOLDER_PATTERN\<close> at the start of the text: the name and the text after it.\<close>

definition match_placeholder :: "string \<Rightarrow> (string \<times> string) option" where
  "match_placeholder s =
     (if startswith s ''{{'' then
        (let t = dropWhile is_space (drop 2 s);
             name = takeWhile name_char t;
             u = dropWhile is_space (dropWhile name_char t)
         in if name \<noteq> [] \<and> name_start (hd name) \<and> startswith u ''}}'' then Some (name, drop 2 u) else None)
      else None)"

lemma match_placeholder_shorter:
  "match_placeholder s = Some (name, r) \<Longrightarrow> length r < length s"
proof -
  assume "match_placeholder s = Some (name, r)"
  then have s: "startswith s ''{{''" and r: "r = drop 2 (dropWhile is_space (dropWhile name_char (dropWhile is_space (drop 2 s))))"
    by (auto simp: match_placeholder_def Let_def split: if_splits)
  have "2 \<le> length s" using s by (auto simp: startswith_def prefix_def)
  moreover have "length r \<le> length (drop 2 s)"
    using length_dropWhile_le [of is_space "drop 2 s"]
      length_dropWhile_le [of name_char "dropWhile is_space (drop 2 s)"]
      length_dropWhile_le [of is_space "dropWhile name_char (dropWhile is_space (drop 2 s))"]
    unfolding r by simp
  ultimately show ?thesis by simp
qed

function scan_template :: "string \<Rightarrow> segment list" where
  "scan_template [] = []"
| "scan_template (c # cs) =
     (case match_placeholder (c # cs) of
        Some (name, r) \<Rightarrow> Var name (take (length (c # cs) - length r) (c # cs)) # scan_template r
      | None \<Rightarrow> Lit c # scan_template cs)"
  by pat_completeness auto
termination
  by (relation "measure length") (auto dest: match_placeholder_shorter)

definition findall_placeholders :: "string \<Rightarrow> string list" where
  "findall_placeholders s = List.map_filter (\<lambda>g. case g of Lit _ \<Rightarrow> None | Var name _ \<Rightarrow> Some name) (scan_template s)"

fun sub_segments :: "(string, string) dict \<Rightarrow> segment list \<Rightarrow> exn + string" where
  "sub_segments vars [] = Inr []"
| "sub_segments vars (Lit c # gs) = map_r (\<lambda>t. c # t) (sub_segments vars gs)"
| "sub_segments vars (Var name src # gs) =
     (case dict_get vars name of None \<Rightarrow> Inl (PyKeyError name)
      | Some v \<Rightarrow> map_r (\<lambda>t. v @ t) (sub_segments vars gs))"

definition sub_placeholders :: "(string, string) dict \<Rightarrow> string \<Rightarrow> exn + string" where
  "sub_placeholders vars content = sub_segments vars (scan_template content)"

section \<open>Templates\<close>

record prompt_message_template =
  pm_role :: message_role
  pm_content :: string

definition mk_prompt_message_template :: "message_role \<Rightarrow> string \<Rightarrow> exn + prompt_message_template" where
  "mk_prompt_message_template role content =
     bind_r (reject_if (role \<notin> {SYSTEM, USER, ASSISTANT}) ''prompt template roles must be system, user, or assistant'') (\<lambda>_.
     bind_r (reject_if (blank content) ''content must not be empty or blank'') (\<lambda>_.
     Inr \<lparr>pm_role = role, pm_content = content\<rparr>))"

definition message_placeholders :: "prompt_message_template \<Rightarrow> string set" where
  "message_placeholders m = set (findall_placeholders (pm_content m))"

record prompt_template =
  pt_id :: uuid
  pt_organization_id :: uuid
  pt_name :: string
  pt_version :: int
  pt_messages :: "prompt_message_template list"
  pt_created_at :: datetime

definition mk_prompt_template ::
    "uuid \<Rightarrow> uuid \<Rightarrow> string \<Rightarrow> int \<Rightarrow> prompt_message_template list \<Rightarrow> datetime \<Rightarrow> exn + prompt_template" where
  "mk_prompt_template pid org name version messages created_at =
     bind_r (validate_prompt_name name) (\<lambda>_.
     bind_r (reject_if (version < 1) ''version must be at least 1'') (\<lambda>_.
     bind_r (reject_if (messages = []) ''messages must contain at least one message'') (\<lambda>_.
     Inr \<lparr>pt_id = pid, pt_organization_id = org, pt_name = name, pt_version = version,
          pt_messages = messages, pt_created_at = created_at\<rparr>)))"

definition template_placeholders :: "prompt_template \<Rightarrow> string set" where
  "template_placeholders t = (\<Union>m\<in>set (pt_messages t). message_placeholders m)"

definition render :: "prompt_template \<Rightarrow> (string, string) dict \<Rightarrow> exn + message list" where
  "render t variables =
     (let expected = template_placeholders t;
          provided = set (dict_keys variables);
          missing = sorted_list_of_set (expected - provided);
          unknown = sorted_list_of_set (provided - expected)
      in bind_r (reject_if (missing \<noteq> []) (''missing prompt variables: '' @ join '', '' missing)) (\<lambda>_.
         bind_r (reject_if (unknown \<noteq> []) (''unknown prompt variables: '' @ join '', '' unknown)) (\<lambda>_.
         traverse (\<lambda>m. bind_r (sub_placeholders variables (pm_content m)) (\<lambda>content.
           mk_message (pm_role m) content None None [])) (pt_messages t))))"

record prompt_reference =
  pr_name :: string
  pr_variables :: "(string, string) dict"
  pr_version :: "int option"

definition mk_prompt_reference :: "string \<Rightarrow> (string, string) dict \<Rightarrow> int option \<Rightarrow> exn + prompt_reference" where
  "mk_prompt_reference name variables version =
     bind_r (validate_prompt_name name) (\<lambda>_.
     bind_r (reject_if (case version of None \<Rightarrow> False | Some v \<Rightarrow> v < 1) ''version must be at least 1'') (\<lambda>_.
     Inr \<lparr>pr_name = name, pr_variables = variables, pr_version = version\<rparr>))"

section \<open>The scanner\<close>

text \<open>The text of a placeholder, as the pattern reads it.\<close>

definition placeholder_text :: "string \<Rightarrow> string \<Rightarrow> bool" where
  "placeholder_text name src \<longleftrightarrow> (\<exists>ws ws'. src = ''{{'' @ ws @ name @ ws' @ ''}}'' \<and>
     (\<forall>c\<in>set ws. is_space c) \<and> (\<forall>c\<in>set ws'. is_space c) \<and>
     name \<noteq> [] \<and> name_start (hd name) \<and> (\<forall>c\<in>set name. name_char c))"

lemma match_placeholder_text:
  assumes "match_placeholder s = Some (name, r)"
  shows "\<exists>src. s = src @ r \<and> placeholder_text name src"
proof -
  let ?t = "dropWhile is_space (drop 2 s)"
  let ?u = "dropWhile is_space (dropWhile name_char ?t)"
  from assms have m: "startswith s ''{{''" "name = takeWhile name_char ?t" "name \<noteq> []" "name_start (hd name)"
    "startswith ?u ''}}''" "r = drop 2 ?u"
    by (auto simp: match_placeholder_def Let_def split: if_splits)
  have "s = ''{{'' @ drop 2 s" using m(1) by (auto simp: startswith_def prefix_def)
  also have "drop 2 s = takeWhile is_space (drop 2 s) @ ?t" by simp
  also have "?t = name @ dropWhile name_char ?t" unfolding m(2) by simp
  also have "dropWhile name_char ?t = takeWhile is_space (dropWhile name_char ?t) @ ?u" by simp
  also have "?u = ''}}'' @ r" using m(5,6) by (auto simp: startswith_def prefix_def)
  finally have "s = (''{{'' @ takeWhile is_space (drop 2 s) @ name @
      takeWhile is_space (dropWhile name_char ?t) @ ''}}'') @ r" by simp
  moreover have "placeholder_text name (''{{'' @ takeWhile is_space (drop 2 s) @ name @
      takeWhile is_space (dropWhile name_char ?t) @ ''}}'')"
    unfolding placeholder_text_def using m(2-4) by (blast dest: set_takeWhileD)
  ultimately show ?thesis by blast
qed

lemma scan_template_match:
  assumes "match_placeholder (c # cs) = Some (name, r)"
  obtains src where "c # cs = src @ r" "placeholder_text name src"
    "scan_template (c # cs) = Var name src # scan_template r"
proof -
  from match_placeholder_text [OF assms] obtain src where src: "c # cs = src @ r" "placeholder_text name src" by blast
  have "take (length (c # cs) - length r) (c # cs) = src" unfolding src(1) by simp
  with assms have "scan_template (c # cs) = Var name src # scan_template r" by simp
  with src that show thesis by blast
qed

lemma scan_template_sources: "concat (map seg_source (scan_template s)) = s"
proof (induction s rule: scan_template.induct)
  case 1
  then show ?case by simp
next
  case (2 c cs)
  show ?case
  proof (cases "match_placeholder (c # cs)")
    case None
    with 2 show ?thesis by auto
  next
    case (Some p)
    then obtain name r where p: "match_placeholder (c # cs) = Some (name, r)" by (cases p) auto
    from scan_template_match [OF p] obtain src where "c # cs = src @ r"
      "scan_template (c # cs) = Var name src # scan_template r" by blast
    with 2(2) [OF p refl] show ?thesis by simp
  qed
qed

lemma scan_template_vars:
  "Var name src \<in> set (scan_template s) \<Longrightarrow> placeholder_text name src"
proof (induction s rule: scan_template.induct)
  case 1
  then show ?case by simp
next
  case (2 c cs)
  show ?case
  proof (cases "match_placeholder (c # cs)")
    case None
    with 2 show ?thesis by auto
  next
    case (Some p)
    then obtain name' r where p: "match_placeholder (c # cs) = Some (name', r)" by (cases p) auto
    from scan_template_match [OF p] obtain src' where "placeholder_text name' src'"
      "scan_template (c # cs) = Var name' src' # scan_template r" by blast
    with 2(2) [OF p refl] 2(3) show ?thesis by auto
  qed
qed

section \<open>Rendering\<close>

text \<open>The rendered text: every placeholder replaced by its value, everything else unchanged.\<close>

definition substitute :: "(string, string) dict \<Rightarrow> string \<Rightarrow> string" where
  "substitute vars content = concat (map (\<lambda>g. case g of Lit c \<Rightarrow> [c]
     | Var name src \<Rightarrow> (case dict_get vars name of Some v \<Rightarrow> v | None \<Rightarrow> src)) (scan_template content))"

lemma findall_mem: "name \<in> set (findall_placeholders s) \<longleftrightarrow> (\<exists>src. Var name src \<in> set (scan_template s))"
  by (force simp: findall_placeholders_def List.map_filter_def split: segment.splits)

lemma sub_placeholders_known:
  assumes "message_placeholders m \<subseteq> set (dict_keys vars)"
  shows "sub_placeholders vars (pm_content m) = Inr (substitute vars (pm_content m))"
proof -
  have "\<forall>name src. Var name src \<in> set gs \<longrightarrow> name \<in> set (dict_keys vars) \<Longrightarrow>
      sub_segments vars gs = Inr (concat (map (\<lambda>g. case g of Lit c \<Rightarrow> [c]
        | Var name src \<Rightarrow> (case dict_get vars name of Some v \<Rightarrow> v | None \<Rightarrow> src)) gs))" for gs
  proof (induction vars gs rule: sub_segments.induct)
    case (3 vars name src gs)
    then obtain v where "dict_get vars name = Some v"
      by (metis dict_get_def dict_keys_def list.set_intros(1) list.set_map map_of_eq_None_iff not_Some_eq)
    moreover from 3(2) have "\<forall>name src. Var name src \<in> set gs \<longrightarrow> name \<in> set (dict_keys vars)" by auto
    ultimately show ?case using 3(1) by simp
  qed auto
  moreover have "\<forall>name src. Var name src \<in> set (scan_template (pm_content m)) \<longrightarrow> name \<in> set (dict_keys vars)"
    using assms unfolding message_placeholders_def by (auto simp: findall_mem subset_iff)
  ultimately show ?thesis by (simp add: sub_placeholders_def substitute_def)
qed

lemma finite_placeholders [simp]: "finite (template_placeholders t)"
  by (simp add: template_placeholders_def message_placeholders_def)

lemma sorted_list_nonempty: "finite A \<Longrightarrow> sorted_list_of_set A \<noteq> [] \<longleftrightarrow> A \<noteq> {}"
  by simp

section \<open>Properties\<close>

text \<open>The placeholder scanner partitions the template. The pieces, in order, are the template text
  itself, and each placeholder piece is the text \<open>{{ name }}\<close> with a well-formed name.\<close>

theorem scan_partitions:
  "concat (map seg_source (scan_template s)) = s \<and>
   (\<forall>g\<in>set (scan_template s). case g of Lit c \<Rightarrow> True | Var name src \<Rightarrow>
      (\<exists>ws ws'. src = ''{{'' @ ws @ name @ ws' @ ''}}'' \<and> (\<forall>c\<in>set ws \<union> set ws'. is_space c) \<and>
         name \<noteq> [] \<and> name_start (hd name) \<and> (\<forall>c\<in>set name. name_char c)))"
  using scan_template_vars [of _ _ s] scan_template_sources [of s]
  by (fastforce simp: placeholder_text_def split: segment.split)

lemma scan_partitions_witness:
  "scan_template ''a{{ x }}b'' = [Lit CHR ''a'', Var ''x'' ''{{ x }}'', Lit CHR ''b''] \<and>
   concat (map seg_source (scan_template ''a{{ x }}b'')) = ''a{{ x }}b''"
proof
  show "scan_template ''a{{ x }}b'' = [Lit CHR ''a'', Var ''x'' ''{{ x }}'', Lit CHR ''b'']" by code_simp
  show "concat (map seg_source (scan_template ''a{{ x }}b'')) = ''a{{ x }}b''" using scan_partitions by blast
qed


lemma render_sample:
  "render \<lparr>pt_id = 0, pt_organization_id = 0, pt_name = ''p'', pt_version = 1,
      pt_messages = [\<lparr>pm_role = USER, pm_content = ''hi {{x}}!''\<rparr>], pt_created_at = sample_instant\<rparr> [(''x'', ''{{y}}'')] =
   Inr [user_message ''hi {{y}}!'']"
  by code_simp

end
