(* ===== verification/Pydantic.thy ===== *)
theory Pydantic
  imports Json PyString
begin

text \<open>
  Validation of decoded JSON against the classes the service and its SDK declare with pydantic. A field
  is checked by a validator: from the location of the value and the value, the errors found (location and
  message) or the field's value; the fields of an object are all checked and their errors collected in
  the order of the declaration. What a number or a truth value may be converted from is the library's
  choice and a parameter; the messages are those it documents.
\<close>

type_synonym verrors = "(string list \<times> string) list"

type_synonym 'a validator = "string list \<Rightarrow> json \<Rightarrow> verrors + 'a"

record coercions =
  co_int :: "json \<Rightarrow> string + int"
  co_float :: "json \<Rightarrow> string + pyfloat"
  co_bool :: "json \<Rightarrow> string + bool"

text \<open>Documented: values of the declared type are taken as they are.\<close>

definition exact_coercions :: "coercions \<Rightarrow> bool" where
  "exact_coercions co \<longleftrightarrow> (\<forall>i. co_int co (JInt i) = Inr i) \<and> (\<forall>x. co_float co (JFloat x) = Inr x) \<and>
     (\<forall>b. co_bool co (JBool b) = Inr b)"

definition strict_coercions :: coercions where
  "strict_coercions = \<lparr>
     co_int = (\<lambda>j. case j of JInt i \<Rightarrow> Inr i | _ \<Rightarrow> Inl ''Input should be a valid integer''),
     co_float = (\<lambda>j. case j of JFloat x \<Rightarrow> Inr x | _ \<Rightarrow> Inl ''Input should be a valid number''),
     co_bool = (\<lambda>j. case j of JBool b \<Rightarrow> Inr b | _ \<Rightarrow> Inl ''Input should be a valid boolean'')\<rparr>"

lemma strict_exact: "exact_coercions strict_coercions"
  by (simp add: exact_coercions_def strict_coercions_def)

section \<open>Collecting errors\<close>

definition apply_v :: "verrors + ('a \<Rightarrow> 'b) \<Rightarrow> verrors + 'a \<Rightarrow> verrors + 'b" where
  "apply_v f x = (case f of
     Inr g \<Rightarrow> map_r g x
   | Inl es \<Rightarrow> (case x of Inr _ \<Rightarrow> Inl es | Inl es' \<Rightarrow> Inl (es @ es')))"

lemma apply_v_Inr [simp]: "apply_v f x = Inr y \<longleftrightarrow> (\<exists>g a. f = Inr g \<and> x = Inr a \<and> y = g a)"
  by (auto simp: apply_v_def map_r_eq_Inr split: sum.splits)

lemma apply_v_both [simp]: "apply_v (Inr g) (Inr a) = Inr (g a)"
  by (simp add: apply_v_def)

text \<open>A check that only adds errors.\<close>

definition and_check :: "verrors + 'a \<Rightarrow> verrors \<Rightarrow> verrors + 'a" where
  "and_check x es = (case x of Inl es' \<Rightarrow> Inl (es' @ es) | Inr a \<Rightarrow> if es = [] then Inr a else Inl es)"

lemma and_check_Inr [simp]: "and_check x es = Inr a \<longleftrightarrow> x = Inr a \<and> es = []"
  by (auto simp: and_check_def split: sum.splits)

definition fail_v :: "string list \<Rightarrow> string \<Rightarrow> verrors + 'a" where
  "fail_v loc msg = Inl [(loc, msg)]"

lemma fail_v_not_Inr [simp]: "fail_v loc msg \<noteq> Inr x"
  by (simp add: fail_v_def)

section \<open>Values\<close>

definition v_any :: "json validator" where
  "v_any loc j = Inr j"

definition v_str :: "string validator" where
  "v_str loc j = (case j of JStr s \<Rightarrow> Inr s | _ \<Rightarrow> fail_v loc ''Input should be a valid string'')"

definition of_coercion :: "(json \<Rightarrow> string + 'a) \<Rightarrow> 'a validator" where
  "of_coercion f loc j = (case f j of Inl msg \<Rightarrow> fail_v loc msg | Inr x \<Rightarrow> Inr x)"

definition v_constrain :: "'a validator \<Rightarrow> ('a \<Rightarrow> bool) \<Rightarrow> string \<Rightarrow> 'a validator" where
  "v_constrain v ok msg loc j = (case v loc j of Inl es \<Rightarrow> Inl es | Inr x \<Rightarrow> if ok x then Inr x else fail_v loc msg)"

definition v_optional :: "'a validator \<Rightarrow> 'a option validator" where
  "v_optional v loc j = (if j = JNull then Inr None else map_r Some (v loc j))"

fun v_items :: "'a validator \<Rightarrow> string list \<Rightarrow> nat \<Rightarrow> json list \<Rightarrow> verrors + 'a list" where
  "v_items v loc i [] = Inr []"
| "v_items v loc i (x # xs) = apply_v (map_r Cons (v (loc @ [str_of_nat i]) x)) (v_items v loc (Suc i) xs)"

definition v_list :: "'a validator \<Rightarrow> 'a list validator" where
  "v_list v loc j = (case j of JArr xs \<Rightarrow> v_items v loc 0 xs | _ \<Rightarrow> fail_v loc ''Input should be a valid list'')"

fun v_entries :: "'a validator \<Rightarrow> string list \<Rightarrow> (string, json) dict \<Rightarrow> verrors + (string, 'a) dict" where
  "v_entries v loc [] = Inr []"
| "v_entries v loc ((k, x) # kvs) = apply_v (map_r (\<lambda>y. Cons (k, y)) (v (loc @ [k]) x)) (v_entries v loc kvs)"

definition v_dict :: "'a validator \<Rightarrow> (string, 'a) dict validator" where
  "v_dict v loc j = (case j of JObj kvs \<Rightarrow> v_entries v loc kvs | _ \<Rightarrow> fail_v loc ''Input should be a valid dictionary'')"

definition min_length_1 :: "string validator" where
  "min_length_1 = v_constrain v_str (\<lambda>s. s \<noteq> []) ''String should have at least 1 character''"

definition non_empty_list :: "'a list validator \<Rightarrow> 'a list validator" where
  "non_empty_list v = v_constrain v (\<lambda>xs. xs \<noteq> []) ''List should have at least 1 item after validation, not 0''"

section \<open>Objects\<close>

definition v_field :: "(string, json) dict \<Rightarrow> string list \<Rightarrow> string \<Rightarrow> 'a validator \<Rightarrow> 'a option \<Rightarrow> verrors + 'a" where
  "v_field kvs loc name v dflt = (case dict_get kvs name of
     Some j \<Rightarrow> v (loc @ [name]) j
   | None \<Rightarrow> (case dflt of Some d \<Rightarrow> Inr d | None \<Rightarrow> fail_v (loc @ [name]) ''Field required''))"

definition extra_fields :: "string list \<Rightarrow> string list \<Rightarrow> (string, json) dict \<Rightarrow> verrors" where
  "extra_fields names loc kvs =
     map (\<lambda>kv. (loc @ [fst kv], ''Extra inputs are not permitted'')) (filter (\<lambda>kv. fst kv \<notin> set names) kvs)"

lemma extra_fields_Nil [simp]: "extra_fields names loc kvs = [] \<longleftrightarrow> fst ` set kvs \<subseteq> set names"
  by (auto simp: extra_fields_def filter_empty_conv)

definition v_object :: "(string list \<Rightarrow> (string, json) dict \<Rightarrow> verrors + 'a) \<Rightarrow> 'a validator" where
  "v_object f loc j = (case j of JObj kvs \<Rightarrow> f loc kvs
     | _ \<Rightarrow> fail_v loc ''Input should be a valid dictionary or object to extract fields from'')"

text \<open>A validator after the fields, raising \<open>ValueError\<close>.\<close>

definition after_v :: "string list \<Rightarrow> verrors + 'a \<Rightarrow> ('a \<Rightarrow> string option) \<Rightarrow> verrors + 'a" where
  "after_v loc x check = (case x of Inl es \<Rightarrow> Inl es
     | Inr a \<Rightarrow> (case check a of None \<Rightarrow> Inr a | Some msg \<Rightarrow> fail_v loc (''Value error, '' @ msg)))"

lemma after_v_Inr [simp]: "after_v loc x check = Inr a \<longleftrightarrow> x = Inr a \<and> check a = None"
  by (auto simp: after_v_def split: sum.splits option.splits)

section \<open>What a validator accepts\<close>

lemma v_str_Inr [simp]: "v_str loc j = Inr s \<longleftrightarrow> j = JStr s"
  by (cases j) (simp_all add: v_str_def)

lemma v_str_JStr [simp]: "v_str loc (JStr s) = Inr s"
  by simp

lemma of_coercion_Inr [simp]: "of_coercion f loc j = Inr x \<longleftrightarrow> f j = Inr x"
  by (simp add: of_coercion_def split: sum.split)

lemma v_constrain_Inr [simp]: "v_constrain v ok msg loc j = Inr x \<longleftrightarrow> v loc j = Inr x \<and> ok x"
  by (auto simp: v_constrain_def split: sum.split)

lemma min_length_1_Inr [simp]: "min_length_1 loc j = Inr s \<longleftrightarrow> j = JStr s \<and> s \<noteq> []"
  by (simp add: min_length_1_def)

lemma min_length_1_JStr [simp]: "s \<noteq> [] \<Longrightarrow> min_length_1 loc (JStr s) = Inr s"
  by simp

lemma v_optional_null [simp]: "v_optional v loc JNull = Inr None"
  by (simp add: v_optional_def)

lemma v_items_all: "\<forall>x\<in>set xs. \<forall>loc. v loc (enc x) = Inr x \<Longrightarrow> v_items v loc i (map enc xs) = Inr xs"
  by (induction xs arbitrary: i) auto

lemma v_items_Inr: "v_items v loc i js = Inr xs \<Longrightarrow> x \<in> set xs \<Longrightarrow> \<exists>l j. v l j = Inr x"
proof (induction js arbitrary: i xs)
  case (Cons j js)
  then show ?case by (auto simp: map_r_eq_Inr) blast
qed simp

lemma v_list_all: "\<forall>x\<in>set xs. \<forall>loc. v loc (enc x) = Inr x \<Longrightarrow> v_list v loc (JArr (map enc xs)) = Inr xs"
  by (simp add: v_list_def v_items_all)

lemma v_list_Inr: "v_list v loc j = Inr xs \<Longrightarrow> x \<in> set xs \<Longrightarrow> \<exists>l j. v l j = Inr x"
  by (cases j) (auto simp: v_list_def dest: v_items_Inr)

lemma v_entries_str: "v_entries v_str loc (map (\<lambda>(k, s). (k, JStr s)) kvs) = Inr kvs"
  by (induction kvs) auto

lemma v_entries_any: "v_entries v_any loc kvs = Inr kvs"
  by (induction kvs) (auto simp: v_any_def)

lemma v_dict_str: "v_dict v_str loc (JObj (map (\<lambda>(k, s). (k, JStr s)) kvs)) = Inr kvs"
  by (simp add: v_dict_def v_entries_str)

lemma v_dict_any [simp]: "v_dict v_any loc j = Inr kvs \<longleftrightarrow> j = JObj kvs"
  by (cases j) (simp_all add: v_dict_def v_entries_any)

lemma v_field_some [simp]: "dict_get kvs name = Some j \<Longrightarrow> v_field kvs loc name v d = v (loc @ [name]) j"
  and v_field_none [simp]: "dict_get kvs name = None \<Longrightarrow> v_field kvs loc name v (Some e) = Inr e"
  by (simp_all add: v_field_def)

lemma v_field_Inr: "v_field kvs loc name v d = Inr x \<longleftrightarrow>
    (\<exists>j. dict_get kvs name = Some j \<and> v (loc @ [name]) j = Inr x) \<or> dict_get kvs name = None \<and> d = Some x"
  by (auto simp: v_field_def split: option.splits)

lemma v_object_Inr: "v_object f loc j = Inr x \<longleftrightarrow> (\<exists>kvs. j = JObj kvs \<and> f loc kvs = Inr x)"
  by (cases j) (simp_all add: v_object_def)

end
