(* ===== verification/Sse.thy ===== *)
theory Sse
  imports Json
begin

text \<open>
  Server-sent events: the frames \<open>_sse_message\<close> of \<open>api/routes/responses.py\<close> writes, the reader
  \<open>iter_sse_events\<close> of \<open>providers/sse.py\<close> the adapters use on provider streams, and the reader
  \<open>SseParser\<close> of the Python SDK. The readers get the lines of the body; cutting the body into lines is
  the HTTP library's, and \<open>lines_of\<close> does it at line feeds. The property says that both readers
  recover every frame the service writes.
\<close>

section \<open>Writing\<close>

definition sse_message :: "string \<Rightarrow> json \<Rightarrow> string" where
  "sse_message event payload =
     ''event: '' @ event @ [newline] @ ''data: '' @ dumps_compact payload @ [newline, newline]"

section \<open>Reading provider streams\<close>

type_synonym sse_event = "string option \<times> string"

text \<open>The loop of \<open>iter_sse_events\<close>: the completed events and the pending event name and data lines.\<close>

fun sse_scan :: "string list \<Rightarrow> string option \<Rightarrow> string list \<Rightarrow> sse_event list \<times> (string option \<times> string list)" where
  "sse_scan [] event_name data_lines = ([], (event_name, data_lines))"
| "sse_scan (raw_line # raw_lines) event_name data_lines =
     (let line = rstrip_char (CHR 0x0D) raw_line in
      if line = [] then
        (case sse_scan raw_lines None [] of (evs, st) \<Rightarrow>
           (if data_lines \<noteq> [] then (event_name, join [newline] data_lines) # evs else evs, st))
      else if startswith line '':'' then sse_scan raw_lines event_name data_lines
      else if startswith line ''event:'' then sse_scan raw_lines (Some (strip (drop 6 line))) data_lines
      else if startswith line ''data:'' then sse_scan raw_lines event_name (data_lines @ [lstrip (drop 5 line)])
      else sse_scan raw_lines event_name data_lines)"

definition sse_flush :: "string option \<times> string list \<Rightarrow> sse_event list" where
  "sse_flush st = (case st of (event_name, data_lines) \<Rightarrow>
     if data_lines \<noteq> [] then [(event_name, join [newline] data_lines)] else [])"

definition iter_sse_events :: "string list \<Rightarrow> sse_event list" where
  "iter_sse_events raw_lines = (case sse_scan raw_lines None [] of (evs, st) \<Rightarrow> evs @ sse_flush st)"

section \<open>Reading with the SDK\<close>

record sse_parser =
  sp_event :: string
  sp_data :: "string list"

definition new_parser :: sse_parser where
  "new_parser = \<lparr>sp_event = ''message'', sp_data = []\<rparr>"

definition parser_finish :: "sse_parser \<Rightarrow> (string \<times> string) option \<times> sse_parser" where
  "parser_finish p =
     (if sp_data p = [] then (None, p\<lparr>sp_event := ''message''\<rparr>)
      else (Some (sp_event p, join [newline] (sp_data p)), new_parser))"

definition parser_feed :: "string \<Rightarrow> sse_parser \<Rightarrow> (string \<times> string) option \<times> sse_parser" where
  "parser_feed raw_line p =
     (let line = rstrip_char (CHR 0x0D) raw_line in
      if line = [] then parser_finish p
      else if startswith line '':'' then (None, p)
      else (case partition_at (CHR '':'') line of (field_name, _, v) \<Rightarrow>
        (let val = (if startswith v '' '' then drop 1 v else v) in
         if field_name = ''event'' then (None, p\<lparr>sp_event := val\<rparr>)
         else if field_name = ''data'' then (None, p\<lparr>sp_data := sp_data p @ [val]\<rparr>)
         else (None, p))))"

text \<open>Feeding every line, then \<open>finish\<close>, as the clients of the SDK do.\<close>

fun parser_run :: "string list \<Rightarrow> sse_parser \<Rightarrow> (string \<times> string) list" where
  "parser_run [] p = (case parser_finish p of (None, _) \<Rightarrow> [] | (Some f, _) \<Rightarrow> [f])"
| "parser_run (line # lines) p = (case parser_feed line p of
     (None, p') \<Rightarrow> parser_run lines p' | (Some f, p') \<Rightarrow> f # parser_run lines p')"

section \<open>Lines\<close>

function lines_of :: "string \<Rightarrow> string list" where
  "lines_of s = (let line = takeWhile (\<lambda>c. c \<noteq> newline) s; rest = dropWhile (\<lambda>c. c \<noteq> newline) s in
     case rest of [] \<Rightarrow> (if line = [] then [] else [line]) | c # r \<Rightarrow> line # lines_of r)"
  by pat_completeness auto

termination
proof (relation "measure length", simp)
  fix s :: string and line rest c r
  assume "rest = dropWhile (\<lambda>c. c \<noteq> newline) s" "rest = c # r"
  then have "length (c # r) \<le> length s" by (metis length_dropWhile_le)
  then show "(r, s) \<in> measure length" by simp
qed

declare lines_of.simps [simp del]

lemma lines_of_Nil [simp]: "lines_of [] = []"
  by (subst lines_of.simps) simp

lemma lines_of_line: "newline \<notin> set l \<Longrightarrow> lines_of (l @ newline # r) = l # lines_of r"
proof -
  assume "newline \<notin> set l"
  then have "takeWhile (\<lambda>c. c \<noteq> newline) (l @ newline # r) = l" "dropWhile (\<lambda>c. c \<noteq> newline) (l @ newline # r) = newline # r"
    by (auto simp: takeWhile_append dropWhile_append)
  then show ?thesis by (subst lines_of.simps) simp
qed

section \<open>Encoded JSON is printable ASCII\<close>

definition printable :: "string \<Rightarrow> bool" where
  "printable s \<longleftrightarrow> (\<forall>c\<in>set s. 32 \<le> ord_of c \<and> ord_of c \<le> 126)"

lemma printable_simps [simp]: "printable []" "printable (c # s) \<longleftrightarrow> 32 \<le> ord_of c \<and> ord_of c \<le> 126 \<and> printable s"
    "printable (s @ t) \<longleftrightarrow> printable s \<and> printable t"
  by (auto simp: printable_def)

lemma printable_join: "printable sep \<Longrightarrow> \<forall>x\<in>set xs. printable x \<Longrightarrow> printable (join sep xs)"
  by (induction sep xs rule: join.induct) auto

lemma printable_hex: "printable (hex_digits k n)"
  by (induction k arbitrary: n) (auto simp: ord_of_hex_char)

lemma printable_escape: "printable (escape_string s)"
  by (induction s) (auto simp: escape_string_def escape_char_def printable_hex)

lemma printable_nat: "printable (str_of_nat n)"
  using str_of_nat_digits [of n] by (auto simp: printable_def is_digit_def)

lemma printable_dumps: "json_plain j \<Longrightarrow> printable (dumps_compact j)"
proof (induction j rule: json_plain.induct)
  case (2 xs)
  then show ?case by (simp add: printable_join)
next
  case (3 kvs)
  then show ?case by (auto simp: dumps_string_def printable_escape intro!: printable_join)
qed (auto simp: str_of_int_def printable_nat dumps_string_def printable_escape)

lemma printable_no_controls: "printable s \<Longrightarrow> newline \<notin> set s" "printable s \<Longrightarrow> CHR 0x0D \<notin> set s"
  by (auto simp: printable_def)

section \<open>Frames read back\<close>

text \<open>
  The event names the service writes: no controls, nothing to strip. A frame is its event name
  and its payload.
\<close>

type_synonym frame = "string \<times> json"

definition event_name_ok :: "string \<Rightarrow> bool" where
  "event_name_ok e \<longleftrightarrow> e \<noteq> [] \<and> (\<forall>c\<in>set e. 32 < ord_of c \<and> ord_of c \<le> 126)"

definition frame_ok :: "frame \<Rightarrow> bool" where
  "frame_ok f \<longleftrightarrow> event_name_ok (fst f) \<and> json_plain (snd f)"

definition frames_text :: "frame list \<Rightarrow> string" where
  "frames_text fs = concat (map (\<lambda>f. sse_message (fst f) (snd f)) fs)"

lemma rstrip_char_absent: "c \<notin> set s \<Longrightarrow> rstrip_char c s = s"
proof -
  assume "c \<notin> set s"
  then have "dropWhile (\<lambda>x. x = c) (rev s) = rev s"
  proof (cases "rev s")
    case (Cons x xs)
    then have "x \<in> set s" by (metis list.set_intros(1) set_rev)
    with \<open>c \<notin> set s\<close> Cons show ?thesis by auto
  qed simp
  then show ?thesis by (simp add: rstrip_char_def)
qed

lemma event_name_printable: "event_name_ok e \<Longrightarrow> printable e"
  by (auto simp: event_name_ok_def printable_def)

lemma not_space_printable: "32 < ord_of c \<Longrightarrow> ord_of c \<le> 126 \<Longrightarrow> \<not> is_space c"
  by (simp add: is_space_def Let_def)

lemma strip_event_name: "event_name_ok e \<Longrightarrow> strip (CHR '' '' # e) = e"
proof -
  assume e: "event_name_ok e"
  then have "strip e = e" by (intro strip_nonspace) (auto simp: event_name_ok_def not_space_printable)
  moreover have "lstrip (CHR '' '' # e) = lstrip e" by (simp add: lstrip_def is_space_def)
  ultimately show ?thesis by (simp add: strip_def)
qed

lemma lstrip_dumps: "json_plain j \<Longrightarrow> lstrip (CHR '' '' # dumps_compact j) = dumps_compact j"
proof -
  assume j: "json_plain j"
  obtain c t where ct: "dumps_compact j = c # t" and "value_start c" using dumps_start [OF j] by auto
  then have "\<not> is_space c" by (auto simp: value_start_def is_space_def is_digit_def Let_def)
  then show ?thesis by (simp add: ct lstrip_def is_space_def)
qed

lemma lines_of_frame:
  "frame_ok f \<Longrightarrow> lines_of (sse_message (fst f) (snd f) @ r) =
     (''event: '' @ fst f) # (''data: '' @ dumps_compact (snd f)) # [] # lines_of r"
proof -
  assume ok: "frame_ok f"
  then have e: "newline \<notin> set (''event: '' @ fst f)" and d: "newline \<notin> set (''data: '' @ dumps_compact (snd f))"
    using printable_no_controls(1) [OF event_name_printable, of "fst f"] printable_no_controls(1) [OF printable_dumps, of "snd f"]
    by (auto simp: frame_ok_def)
  have "sse_message (fst f) (snd f) @ r =
      (''event: '' @ fst f) @ newline # (''data: '' @ dumps_compact (snd f)) @ newline # [] @ newline # r"
    by (simp add: sse_message_def)
  then show ?thesis
    using lines_of_line [OF e, of "(''data: '' @ dumps_compact (snd f)) @ newline # [] @ newline # r"]
      lines_of_line [OF d, of "[] @ newline # r"] lines_of_line [of "[]" r] by simp
qed

lemma frame_lines_strip:
  assumes "frame_ok f"
  shows "rstrip_char (CHR 0x0D) (''event: '' @ fst f) = ''event: '' @ fst f"
    and "rstrip_char (CHR 0x0D) (''data: '' @ dumps_compact (snd f)) = ''data: '' @ dumps_compact (snd f)"
  using assms printable_no_controls(2) [OF event_name_printable, of "fst f"] printable_no_controls(2) [OF printable_dumps, of "snd f"]
  by (auto simp: frame_ok_def intro!: rstrip_char_absent)

lemma sse_scan_frame:
  assumes ok: "frame_ok f"
  shows "sse_scan ((''event: '' @ fst f) # (''data: '' @ dumps_compact (snd f)) # [] # ls) None [] =
    (case sse_scan ls None [] of (evs, st) \<Rightarrow> ((Some (fst f), dumps_compact (snd f)) # evs, st))"
  using frame_lines_strip [OF ok] ok strip_event_name [of "fst f"] lstrip_dumps [of "snd f"]
  by (simp add: frame_ok_def startswith_def rstrip_char_def Let_def)

lemma parser_run_frame:
  assumes ok: "frame_ok f"
  shows "parser_run ((''event: '' @ fst f) # (''data: '' @ dumps_compact (snd f)) # [] # ls) new_parser =
    (fst f, dumps_compact (snd f)) # parser_run ls new_parser"
  using frame_lines_strip [OF ok]
  by (simp add: parser_feed_def partition_at_def startswith_def parser_finish_def new_parser_def rstrip_char_def Let_def)

lemma frames_scanned:
  assumes ok: "\<forall>f\<in>set fs. frame_ok f"
  shows "sse_scan (lines_of (frames_text fs)) None [] = (map (\<lambda>(e, j). (Some e, dumps_compact j)) fs, (None, []))
    \<and> parser_run (lines_of (frames_text fs)) new_parser = map (\<lambda>(e, j). (e, dumps_compact j)) fs"
  using ok
proof (induction fs)
  case Nil
  then show ?case by (simp add: frames_text_def parser_finish_def new_parser_def)
next
  case (Cons f fs)
  then have "lines_of (frames_text (f # fs)) =
      (''event: '' @ fst f) # (''data: '' @ dumps_compact (snd f)) # [] # lines_of (frames_text fs)"
    using lines_of_frame [of f "frames_text fs"] by (simp add: frames_text_def)
  with Cons sse_scan_frame [of f] parser_run_frame [of f] show ?case
    by (simp add: case_prod_unfold)
qed

lemmas frames_recovered = frames_scanned [THEN conjunct2]

text \<open>Whatever frames the service writes, both readers of the repository recover: the events
  \<open>iter_sse_events\<close> yields, and the pairs \<open>SseParser\<close> returns, are the event names and encoded
  payloads in order, and decoding the data gives the payloads back.
\<close>

theorem frames_read_back:
  assumes ok: "\<forall>f\<in>set fs. frame_ok f"
  shows "iter_sse_events (lines_of (frames_text fs)) = map (\<lambda>(e, j). (Some e, dumps_compact j)) fs
    \<and> parser_run (lines_of (frames_text fs)) new_parser = map (\<lambda>(e, j). (e, dumps_compact j)) fs
    \<and> map (\<lambda>(e, d). loads d) (parser_run (lines_of (frames_text fs)) new_parser) = map (\<lambda>(e, j). Some j) fs"
proof -
  have "map (\<lambda>(e, j). loads (dumps_compact j)) fs = map (\<lambda>(e, j). Some j) fs"
    using ok by (auto simp: frame_ok_def loads_dumps)
  with frames_scanned [OF ok] show ?thesis
    by (simp add: iter_sse_events_def sse_flush_def case_prod_unfold comp_def)
qed

lemma frames_read_back_witness:
  "iter_sse_events (lines_of (frames_text [(''response.delta'', JObj [(''id'', JStr ''a b'')]), (''response.error'', JArr [JInt (- 3), JNull])])) =
     [(Some ''response.delta'', dumps_compact (JObj [(''id'', JStr ''a b'')])), (Some ''response.error'', dumps_compact (JArr [JInt (- 3), JNull]))]"
proof -
  have "\<forall>f\<in>set [(''response.delta'', JObj [(''id'', JStr ''a b'')]), (''response.error'', JArr [JInt (- 3), JNull])]. frame_ok f"
    by (simp add: frame_ok_def event_name_ok_def)
  from frames_read_back [OF this] show ?thesis by simp
qed

end
