(* ===== verification/Executor.thy ===== *)
theory Executor
  imports Routing
begin

text \<open>
  \<open>ProviderExecutor\<close> of \<open>application/resilience/provider_executor.py\<close>: bounded retries of
  transient provider failures and failover along the route chain. A provider and the
  \<open>before_route\<close> hook are actions over an arbitrary state \<open>'s\<close>; \<open>asyncio.sleep\<close> is the
  parameter \<open>px_sleep\<close>. Delays are rationals (the code multiplies a float by the attempt number).

  A streaming call is the list of the events it yields and the exception that ends it, if any.
\<close>

type_synonym 's exn_act = "'s \<Rightarrow> (exn + generation_response) \<times> 's"

record 's model_provider =
  mp_generate :: "generation_request \<Rightarrow> 's \<Rightarrow> (exn + generation_response) \<times> 's"
  mp_stream :: "generation_request \<Rightarrow> 's \<Rightarrow> (stream_event list \<times> exn option) \<times> 's"

record 's provider_executor =
  px_router :: "'s model_provider model_router"
  px_max_retries :: int
  px_retry_base_delay :: rat
  px_failover_enabled :: bool
  px_failover_catalog :: failover_catalog
  px_sleep :: "rat \<Rightarrow> 's \<Rightarrow> 's"

type_synonym 's route_hook = "model_route \<Rightarrow> 's \<Rightarrow> (exn + unit) \<times> 's"

record execution_result =
  er_response :: generation_response
  er_route :: model_route

definition er_provider_name :: "execution_result \<Rightarrow> string" where
  "er_provider_name r = mr_provider (er_route r)"

record provider_stream_event =
  se_payload :: stream_event
  se_route :: model_route

definition se_provider_name :: "provider_stream_event \<Rightarrow> string" where
  "se_provider_name e = mr_provider (se_route e)"

section \<open>Except clauses\<close>

text \<open>\<open>except C as err\<close>: what the clause catches of a raised exception.\<close>

definition except_provider :: "exn \<Rightarrow> provider_error option" where
  "except_provider e = (case e of ProviderErr err \<Rightarrow> Some err | _ \<Rightarrow> None)"

definition except_unavailable :: "exn \<Rightarrow> string option" where
  "except_unavailable e = (case e of ModelNotAvailableError m \<Rightarrow> Some m | _ \<Rightarrow> None)"

definition except_unregistered :: "exn \<Rightarrow> string option" where
  "except_unregistered e = (case e of ProviderNotRegisteredError p \<Rightarrow> Some p | _ \<Rightarrow> None)"

lemma except_provider_Some [simp]: "except_provider e = Some err \<longleftrightarrow> e = ProviderErr err"
  by (cases e) (auto simp: except_provider_def)

lemma except_unavailable_Some [simp]: "except_unavailable e = Some m \<longleftrightarrow> e = ModelNotAvailableError m"
  by (cases e) (auto simp: except_unavailable_def)

lemma except_unregistered_Some [simp]: "except_unregistered e = Some p \<longleftrightarrow> e = ProviderNotRegisteredError p"
  by (cases e) (auto simp: except_unregistered_def)

lemma except_simps [simp]:
  "except_provider (ProviderErr err) = Some err"
  "except_unavailable (ModelNotAvailableError m) = Some m"
  "except_unregistered (ProviderNotRegisteredError p) = Some p"
  by simp_all

section \<open>Retries\<close>

definition back_off :: "'s provider_executor \<Rightarrow> int \<Rightarrow> 's \<Rightarrow> 's" where
  "back_off x attempt s =
     (if 0 < px_retry_base_delay x then px_sleep x (px_retry_base_delay x * of_int attempt) s else s)"

definition gives_up :: "'s provider_executor \<Rightarrow> provider_error \<Rightarrow> int \<Rightarrow> bool" where
  "gives_up x err attempt = (\<not> pe_retryable err \<or> px_max_retries x \<le> attempt)"

function generate_with_retries ::
    "'s provider_executor \<Rightarrow> 's model_provider \<Rightarrow> generation_request \<Rightarrow> int \<Rightarrow> 's \<Rightarrow>
     (exn + generation_response) \<times> 's" where
  "generate_with_retries x p req attempt s =
     (case mp_generate p req s of
        (Inr r, s') \<Rightarrow> (Inr r, s')
      | (Inl e, s') \<Rightarrow>
          (case except_provider e of
             Some err \<Rightarrow>
               if gives_up x err attempt then (Inl e, s')
               else generate_with_retries x p req (attempt + 1) (back_off x (attempt + 1) s')
           | None \<Rightarrow> (Inl e, s')))"
  by pat_completeness auto
termination
  by (relation "measure (\<lambda>(x, p, req, attempt, s). nat (px_max_retries x - attempt))")
    (auto simp: gives_up_def)

declare generate_with_retries.simps [simp del]

function stream_with_retries ::
    "'s provider_executor \<Rightarrow> 's model_provider \<Rightarrow> generation_request \<Rightarrow> int \<Rightarrow> 's \<Rightarrow>
     (stream_event list \<times> exn option) \<times> 's" where
  "stream_with_retries x p req attempt s =
     (case mp_stream p req s of
        ((evs, None), s') \<Rightarrow> ((evs, None), s')
      | ((evs, Some e), s') \<Rightarrow>
          (case except_provider e of
             Some err \<Rightarrow>
               if evs \<noteq> [] \<or> gives_up x err attempt then ((evs, Some e), s')
               else stream_with_retries x p req (attempt + 1) (back_off x (attempt + 1) s')
           | None \<Rightarrow> ((evs, Some e), s')))"
  by pat_completeness auto
termination
  by (relation "measure (\<lambda>(x, p, req, attempt, s). nat (px_max_retries x - attempt))")
    (auto simp: gives_up_def)

declare stream_with_retries.simps [simp del]

section \<open>Failover\<close>

definition routes_for :: "'s provider_executor \<Rightarrow> string \<Rightarrow> exn + model_route list" where
  "routes_for x requested_model =
     (let cat = rt_catalog (px_router x) in
      if \<not> px_failover_enabled x then map_r (\<lambda>r. [r]) (resolve_model_route requested_model cat)
      else resolve_route_chain requested_model cat (Some (px_failover_catalog x)))"

definition run_hook :: "'s route_hook option \<Rightarrow> model_route \<Rightarrow> 's \<Rightarrow> (exn + unit) \<times> 's" where
  "run_hook hook route s = (case hook of None \<Rightarrow> (Inr (), s) | Some h \<Rightarrow> h route s)"

text \<open>\<open>request if route.model == request.model else replace(request, model=route.model)\<close>.\<close>

definition route_request :: "model_route \<Rightarrow> generation_request \<Rightarrow> exn + generation_request" where
  "route_request route req = (if mr_model route = gr_model req then Inr req else replace_model req (mr_model route))"

text \<open>What is raised when no route produced a result.\<close>

definition exhausted_error ::
    "string \<Rightarrow> model_route list \<Rightarrow> provider_error option \<Rightarrow> string list \<Rightarrow> string list \<Rightarrow> exn" where
  "exhausted_error requested routes last_error skipped_unavailable skipped_unregistered =
     (case last_error of Some err \<Rightarrow> ProviderErr err
      | None \<Rightarrow> if skipped_unavailable \<noteq> [] \<and> length skipped_unavailable = length routes
                then ModelNotAvailableError requested
                else case skipped_unregistered of p # _ \<Rightarrow> ProviderNotRegisteredError p
                     | [] \<Rightarrow> (case routes of r # _ \<Rightarrow> ProviderNotRegisteredError (mr_provider r)
                             | [] \<Rightarrow> LookupError ''list index out of range''))"

fun execute_routes ::
    "'s provider_executor \<Rightarrow> 's route_hook option \<Rightarrow> string \<Rightarrow> generation_request \<Rightarrow> model_route list \<Rightarrow>
     model_route list \<Rightarrow> provider_error option \<Rightarrow> string list \<Rightarrow> string list \<Rightarrow> 's \<Rightarrow>
     (exn + execution_result) \<times> 's" where
  "execute_routes x hook requested req all [] lerr una unr s =
     (Inl (exhausted_error requested all lerr una unr), s)"
| "execute_routes x hook requested req all (route # routes) lerr una unr s =
     (case run_hook hook route s of
        (Inl e, s1) \<Rightarrow>
          (case except_unavailable e of Some _ \<Rightarrow>
              execute_routes x hook requested req all routes lerr (una @ [mr_model route]) unr s1
           | None \<Rightarrow> (Inl e, s1))
      | (Inr _, s1) \<Rightarrow>
          (case router_resolve (px_router x) (mr_model route) of
             Inl e \<Rightarrow>
               (case except_unregistered e of Some p \<Rightarrow>
                   execute_routes x hook requested req all routes lerr una (unr @ [p]) s1
                | None \<Rightarrow> (Inl e, s1))
           | Inr (rroute, provider) \<Rightarrow>
               (case route_request route req of
                  Inl e \<Rightarrow> (Inl e, s1)
                | Inr rreq \<Rightarrow>
                    (case generate_with_retries x provider rreq 0 s1 of
                       (Inr response, s2) \<Rightarrow> (Inr \<lparr>er_response = response, er_route = rroute\<rparr>, s2)
                     | (Inl e, s2) \<Rightarrow>
                         (case except_provider e of Some err \<Rightarrow>
                             execute_routes x hook requested req all routes (Some err) una unr s2
                          | None \<Rightarrow> (Inl e, s2))))))"

definition execute ::
    "'s provider_executor \<Rightarrow> string \<Rightarrow> generation_request \<Rightarrow> 's route_hook option \<Rightarrow> 's \<Rightarrow>
     (exn + execution_result) \<times> 's" where
  "execute x requested_model req hook s =
     (case routes_for x requested_model of
        Inl e \<Rightarrow> (Inl e, s)
      | Inr routes \<Rightarrow> execute_routes x hook requested_model req routes routes None [] [] s)"

fun stream_routes ::
    "'s provider_executor \<Rightarrow> 's route_hook option \<Rightarrow> string \<Rightarrow> generation_request \<Rightarrow> model_route list \<Rightarrow>
     model_route list \<Rightarrow> provider_error option \<Rightarrow> string list \<Rightarrow> string list \<Rightarrow> 's \<Rightarrow>
     (provider_stream_event list \<times> exn option) \<times> 's" where
  "stream_routes x hook requested req all [] lerr una unr s =
     (([], Some (exhausted_error requested all lerr una unr)), s)"
| "stream_routes x hook requested req all (route # routes) lerr una unr s =
     (case run_hook hook route s of
        (Inl e, s1) \<Rightarrow>
          (case except_unavailable e of Some _ \<Rightarrow>
              stream_routes x hook requested req all routes lerr (una @ [mr_model route]) unr s1
           | None \<Rightarrow> (([], Some e), s1))
      | (Inr _, s1) \<Rightarrow>
          (case router_resolve (px_router x) (mr_model route) of
             Inl e \<Rightarrow>
               (case except_unregistered e of Some p \<Rightarrow>
                   stream_routes x hook requested req all routes lerr una (unr @ [p]) s1
                | None \<Rightarrow> (([], Some e), s1))
           | Inr (rroute, provider) \<Rightarrow>
               (case route_request route req of
                  Inl e \<Rightarrow> (([], Some e), s1)
                | Inr rreq \<Rightarrow>
                    (case stream_with_retries x provider rreq 0 s1 of
                       ((evs, None), s2) \<Rightarrow>
                         ((map (\<lambda>ev. \<lparr>se_payload = ev, se_route = rroute\<rparr>) evs, None), s2)
                     | ((evs, Some e), s2) \<Rightarrow>
                         (case except_provider e of
                            Some err \<Rightarrow>
                              if evs \<noteq> [] then
                                ((map (\<lambda>ev. \<lparr>se_payload = ev, se_route = rroute\<rparr>) evs, Some e), s2)
                              else stream_routes x hook requested req all routes (Some err) una unr s2
                          | None \<Rightarrow> ((map (\<lambda>ev. \<lparr>se_payload = ev, se_route = rroute\<rparr>) evs, Some e), s2))))))"

definition stream ::
    "'s provider_executor \<Rightarrow> string \<Rightarrow> generation_request \<Rightarrow> 's route_hook option \<Rightarrow> 's \<Rightarrow>
     (provider_stream_event list \<times> exn option) \<times> 's" where
  "stream x requested_model req hook s =
     (case routes_for x requested_model of
        Inl e \<Rightarrow> (([], Some e), s)
      | Inr routes \<Rightarrow> stream_routes x hook requested_model req routes routes None [] [] s)"

section \<open>Lemmas on one provider\<close>

lemma gwr_unfold_Inr:
  "mp_generate p req s = (Inr r, s') \<Longrightarrow> generate_with_retries x p req a s = (Inr r, s')"
  by (simp add: generate_with_retries.simps [of x p req a s])

lemma gwr_unfold_retry:
  "mp_generate p req s = (Inl (ProviderErr err), s') \<Longrightarrow> \<not> gives_up x err a \<Longrightarrow>
   generate_with_retries x p req a s = generate_with_retries x p req (a + 1) (back_off x (a + 1) s')"
  by (simp add: generate_with_retries.simps [of x p req a s])

lemma gwr_unfold_stop:
  "mp_generate p req s = (Inl e, s') \<Longrightarrow> (\<And>err. e = ProviderErr err \<Longrightarrow> gives_up x err a) \<Longrightarrow>
   generate_with_retries x p req a s = (Inl e, s')"
  by (auto simp: generate_with_retries.simps [of x p req a s] split: option.split)

lemmas gwr_unfold = gwr_unfold_Inr gwr_unfold_retry gwr_unfold_stop

text \<open>
  Induction over the attempts: the last attempt succeeds, or it fails and the executor gives up,
  or a transient failure is followed by the remaining attempts.
\<close>

lemma gwr_induct [consumes 1, case_names ok stop retry]:
  assumes "generate_with_retries x p req a s = (res, s')"
    and ok: "\<And>a s r s'. mp_generate p req s = (Inr r, s') \<Longrightarrow> Q a s (Inr r) s'"
    and stop: "\<And>a s e s'. mp_generate p req s = (Inl e, s') \<Longrightarrow>
       (\<And>err. e = ProviderErr err \<Longrightarrow> gives_up x err a) \<Longrightarrow> Q a s (Inl e) s'"
    and retry: "\<And>a s err t res s'. mp_generate p req s = (Inl (ProviderErr err), t) \<Longrightarrow>
       \<not> gives_up x err a \<Longrightarrow> Q (a + 1) (back_off x (a + 1) t) res s' \<Longrightarrow> Q a s res s'"
  shows "Q a s res s'"
  using assms(1)
proof (induction "nat (px_max_retries x - a)" arbitrary: a s rule: less_induct)
  case (less a s)
  obtain r0 t where m: "mp_generate p req s = (r0, t)" by (cases "mp_generate p req s")
  consider (ok) r where "r0 = Inr r"
    | (stop) e where "r0 = Inl e" "\<And>err. e = ProviderErr err \<Longrightarrow> gives_up x err a"
    | (retry) err where "r0 = Inl (ProviderErr err)" "\<not> gives_up x err a"
    by (cases r0) blast+
  then show ?case
  proof cases
    case (ok r)
    with m less.prems show ?thesis by (auto simp: gwr_unfold_Inr intro: assms(2))
  next
    case (stop e)
    with m have "generate_with_retries x p req a s = (Inl e, t)" by (simp add: gwr_unfold_stop)
    with less.prems m stop show ?thesis by (auto intro: assms(3))
  next
    case (retry err)
    with m less.prems have rest: "generate_with_retries x p req (a + 1) (back_off x (a + 1) t) = (res, s')"
      by (simp add: gwr_unfold_retry)
    have "nat (px_max_retries x - (a + 1)) < nat (px_max_retries x - a)"
      using retry by (simp add: gives_up_def)
    from less.hyps [OF this rest] m retry show ?thesis by (auto intro: assms(4))
  qed
qed

lemma gwr_last_call:
  "generate_with_retries x p req a s = (res, s') \<Longrightarrow> \<exists>s0. mp_generate p req s0 = (res, s')"
  by (induction rule: gwr_induct) auto

text \<open>Streaming attempts: only an attempt that yielded nothing is repeated.\<close>

lemma swr_induct [consumes 1, case_names final retry]:
  assumes "stream_with_retries x p req a s = (res, s')"
    and "\<And>a s res s'. mp_stream p req s = (res, s') \<Longrightarrow> Q a s res s'"
    and "\<And>a s err t res s'. mp_stream p req s = (([], Some (ProviderErr err)), t) \<Longrightarrow>
       \<not> gives_up x err a \<Longrightarrow> Q (a + 1) (back_off x (a + 1) t) res s' \<Longrightarrow> Q a s res s'"
  shows "Q a s res s'"
  using assms(1)
proof (induction "nat (px_max_retries x - a)" arbitrary: a s rule: less_induct)
  case (less a s)
  obtain evs eo t where m: "mp_stream p req s = ((evs, eo), t)"
    by (cases "mp_stream p req s") (metis prod.exhaust)
  show ?case
  proof (cases "\<exists>err. eo = Some (ProviderErr err) \<and> evs = [] \<and> \<not> gives_up x err a")
    case True
    then obtain err where e: "eo = Some (ProviderErr err)" "evs = []" "\<not> gives_up x err a" by blast
    with m less.prems have rest: "stream_with_retries x p req (a + 1) (back_off x (a + 1) t) = (res, s')"
      by (simp add: stream_with_retries.simps [of x p req a s])
    have "nat (px_max_retries x - (a + 1)) < nat (px_max_retries x - a)"
      using e by (simp add: gives_up_def)
    from less.hyps [OF this rest] m e show ?thesis by (auto intro: assms(3))
  next
    case False
    with m less.prems have "res = (evs, eo) \<and> s' = t"
      by (auto simp: stream_with_retries.simps [of x p req a s] split: option.splits if_splits)
    with m show ?thesis by (auto intro: assms(2))
  qed
qed

lemma swr_last_call:
  "stream_with_retries x p req a s = (res, s') \<Longrightarrow> \<exists>s0. mp_stream p req s0 = (res, s')"
  by (induction rule: swr_induct) auto

section \<open>The retry budget\<close>

text \<open>
  \<open>n\<close> is the number of transient failures the provider still has in store. The call succeeds
  exactly when they fit in the remaining retries.
\<close>

lemma gwr_within_budget:
  assumes transient: "\<And>s. 0 < n s \<Longrightarrow> \<exists>err t. mp_generate p req s = (Inl (ProviderErr err), t) \<and>
      pe_retryable err \<and> n t = n s - 1"
    and served: "\<And>s. n s = 0 \<Longrightarrow> fst (mp_generate p req s) = Inr r"
    and sleep: "\<And>d s. n (px_sleep x d s) = n s"
  shows "int (n s) \<le> px_max_retries x - a \<Longrightarrow> fst (generate_with_retries x p req a s) = Inr r"
proof (induction k \<equiv> "n s" arbitrary: s a)
  case 0
  then have "fst (mp_generate p req s) = Inr r" using served [of s] by simp
  then show ?case by (cases "mp_generate p req s") (simp add: gwr_unfold_Inr)
next
  case (Suc k)
  obtain err t where m: "mp_generate p req s = (Inl (ProviderErr err), t)" "pe_retryable err" "n t = k"
    using transient [of s] Suc.hyps(2) by force
  let ?t = "back_off x (a + 1) t"
  have nt: "k = n ?t" using m by (simp add: back_off_def sleep)
  have "int (n s) = int k + 1" using Suc.hyps(2) by simp
  then have "\<not> gives_up x err a" and b: "int (n ?t) \<le> px_max_retries x - (a + 1)"
    using m nt Suc.prems by (simp_all add: gives_up_def)
  with m Suc.hyps(1) [OF nt b] show ?case by (simp add: gwr_unfold_retry)
qed

lemma gwr_beyond_budget:
  assumes transient: "\<And>s. 0 < n s \<Longrightarrow> \<exists>err t. mp_generate p req s = (Inl (ProviderErr err), t) \<and>
      pe_retryable err \<and> n t = n s - 1"
    and sleep: "\<And>d s. n (px_sleep x d s) = n s"
  shows "px_max_retries x - a < int (n s) \<Longrightarrow> 0 < n s \<Longrightarrow>
      \<exists>err. fst (generate_with_retries x p req a s) = Inl (ProviderErr err)"
proof (induction k \<equiv> "n s" arbitrary: s a)
  case 0
  then show ?case by simp
next
  case (Suc k)
  obtain err t where m: "mp_generate p req s = (Inl (ProviderErr err), t)" "pe_retryable err" "n t = k"
    using transient [of s] Suc.hyps(2) by force
  let ?t = "back_off x (a + 1) t"
  have nt: "k = n ?t" using m by (simp add: back_off_def sleep)
  have ns: "int (n s) = int k + 1" using Suc.hyps(2) by simp
  show ?case
  proof (cases "gives_up x err a")
    case True
    then show ?thesis using gwr_unfold_stop [OF m(1), of x a] by auto
  next
    case False
    then have "0 < n ?t" and b: "px_max_retries x - (a + 1) < int (n ?t)"
      using ns nt Suc.prems m by (auto simp: gives_up_def)
    with Suc.hyps(1) [OF nt b] m False show ?thesis by (simp add: gwr_unfold_retry)
  qed
qed

section \<open>Bounds on the work done\<close>

text \<open>\<open>c\<close> counts the provider calls made so far.\<close>

lemma gwr_calls:
  assumes "generate_with_retries x p req a s = (res, s')"
    and one: "\<And>s. c (snd (mp_generate p req s)) = Suc (c s)"
    and sleep: "\<And>d s. c (px_sleep x d s) = c s"
  shows "c s < c s' \<and> c s' \<le> c s + Suc (nat (px_max_retries x - a))"
  using assms(1)
proof (induction rule: gwr_induct)
  case (ok a s r s')
  then show ?case using one [of s] by simp
next
  case (stop a s e s')
  then show ?case using one [of s] by simp
next
  case (retry a s err t res s')
  then have "c (back_off x (a + 1) t) = Suc (c s)"
    using one [of s] by (simp add: back_off_def sleep)
  moreover have "nat (px_max_retries x - a) = Suc (nat (px_max_retries x - (a + 1)))"
    using retry.hyps(2) by (simp add: gives_up_def Suc_nat_eq_nat_zadd1)
  ultimately show ?case using retry by simp
qed

lemma gwr_delay:
  fixes w :: "'s \<Rightarrow> rat"
  assumes "generate_with_retries x p req a s = (res, s')"
    and gen: "\<And>s. w (snd (mp_generate p req s)) = w s"
    and sleep: "\<And>d s. w (px_sleep x d s) = w s + d"
    and base: "0 \<le> px_retry_base_delay x"
  shows "0 \<le> a \<Longrightarrow> a \<le> px_max_retries x \<Longrightarrow>
    w s \<le> w s' \<and> w s' \<le> w s + px_retry_base_delay x * of_int ((\<Sum>k\<in>{a+1..px_max_retries x}. k))"
  using assms(1)
proof (induction rule: gwr_induct)
  case (ok a s r s')
  have "(0::int) \<le> (\<Sum>k\<in>{a+1..px_max_retries x}. k)" by (rule sum_nonneg) (use ok in auto)
  then have "0 \<le> px_retry_base_delay x * of_int (\<Sum>k\<in>{a+1..px_max_retries x}. k)"
    by (intro mult_nonneg_nonneg base of_int_nonneg)
  then show ?case using ok gen [of s] by (simp del: of_int_sum)
next
  case (stop a s e s')
  have "(0::int) \<le> (\<Sum>k\<in>{a+1..px_max_retries x}. k)" by (rule sum_nonneg) (use stop in auto)
  then have "0 \<le> px_retry_base_delay x * of_int (\<Sum>k\<in>{a+1..px_max_retries x}. k)"
    by (intro mult_nonneg_nonneg base of_int_nonneg)
  then show ?case using stop gen [of s] by (simp del: of_int_sum)
next
  case (retry a s err t res s')
  let ?b = "px_retry_base_delay x" and ?m = "px_max_retries x"
  have lt: "a < ?m" using retry by (simp add: gives_up_def)
  have t: "w t = w s" using gen [of s] retry by simp
  have off: "w (back_off x (a + 1) t) = w s + ?b * of_int (a + 1)"
    using base t by (cases "0 < ?b") (auto simp: back_off_def sleep)
  have "{a+1..?m} = insert (a + 1) {a+1+1..?m}" using lt by auto
  then have "(\<Sum>k\<in>{a+1..?m}. k) = (a + 1) + (\<Sum>k\<in>{a+1+1..?m}. k)" by simp
  then have split: "?b * of_int (\<Sum>k\<in>{a+1..?m}. k) = ?b * of_int (a + 1) + ?b * of_int (\<Sum>k\<in>{a+1+1..?m}. k)"
    by (simp add: algebra_simps)
  have "0 \<le> ?b * of_int (a + 1)" using base retry.prems by simp
  then show ?case using retry.IH retry.prems lt off split by (simp del: of_int_sum)
qed


section \<open>Failover as a search for the first route that answers\<close>

text \<open>
  The abstract specification of the executor: the routes are tried in order; an attempt either ends
  the call with its outcome or is a miss, and the misses alone decide what is raised when no route
  is left.
\<close>

datatype miss = Denied string | NoAdapter string | Failed provider_error
datatype 'a attempt = Ends 'a | Misses miss

fun last_failure :: "miss list \<Rightarrow> provider_error option" where
  "last_failure [] = None"
| "last_failure (m # ms) =
     (case last_failure ms of Some err \<Rightarrow> Some err
      | None \<Rightarrow> (case m of Failed err \<Rightarrow> Some err | _ \<Rightarrow> None))"

definition denied_models :: "miss list \<Rightarrow> string list" where
  "denied_models ms = List.map_filter (\<lambda>m. case m of Denied d \<Rightarrow> Some d | _ \<Rightarrow> None) ms"

definition missing_adapters :: "miss list \<Rightarrow> string list" where
  "missing_adapters ms = List.map_filter (\<lambda>m. case m of NoAdapter p \<Rightarrow> Some p | _ \<Rightarrow> None) ms"

definition exhausted :: "string \<Rightarrow> model_route list \<Rightarrow> miss list \<Rightarrow> exn" where
  "exhausted requested routes ms =
     exhausted_error requested routes (last_failure ms) (denied_models ms) (missing_adapters ms)"

fun failover ::
    "(model_route \<Rightarrow> 's \<Rightarrow> 'a attempt \<times> 's) \<Rightarrow> (miss list \<Rightarrow> 'a) \<Rightarrow> model_route list \<Rightarrow> miss list \<Rightarrow> 's \<Rightarrow> 'a \<times> 's" where
  "failover att fin [] ms s = (fin ms, s)"
| "failover att fin (r # rs) ms s =
     (case att r s of (Ends a, s') \<Rightarrow> (a, s') | (Misses m, s') \<Rightarrow> failover att fin rs (ms @ [m]) s')"

inductive missed :: "(model_route \<Rightarrow> 's \<Rightarrow> 'a attempt \<times> 's) \<Rightarrow> model_route list \<Rightarrow> 's \<Rightarrow> miss list \<Rightarrow> 's \<Rightarrow> bool"
  for att where
  missed_Nil: "missed att [] s [] s"
| missed_Cons: "att r s = (Misses m, s1) \<Longrightarrow> missed att rs s1 ms s2 \<Longrightarrow> missed att (r # rs) s (m # ms) s2"

inductive_simps missed_simps: "missed att [] s ms s'" "missed att (r # rs) s ms s'"

lemma missed_length: "missed att rs s ms s' \<Longrightarrow> length ms = length rs"
  by (induction rule: missed.induct) auto

lemma failover_iff:
  "failover att fin rs ms0 s = (a, s') \<longleftrightarrow>
     (\<exists>pre r post ms s1. rs = pre @ r # post \<and> missed att pre s ms s1 \<and> att r s1 = (Ends a, s')) \<or>
     (\<exists>ms. missed att rs s ms s' \<and> a = fin (ms0 @ ms))"
proof (induction rs arbitrary: ms0 s)
  case Nil
  then show ?case by (auto simp: missed_simps)
next
  case (Cons r rs)
  obtain o1 s1 where att: "att r s = (o1, s1)" by (cases "att r s")
  show ?case
  proof (cases o1)
    case (Ends b)
    have "(\<exists>pre q post ms t. r # rs = pre @ q # post \<and> missed att pre s ms t \<and> att q t = (Ends a, s')) \<longleftrightarrow>
        b = a \<and> s1 = s'" (is "?l \<longleftrightarrow> ?r")
    proof
      assume ?l
      with att Ends show ?r by (auto simp: missed_simps Cons_eq_append_conv)
    next
      assume ?r
      with att Ends show ?l by (intro exI [of _ "[]"] exI [of _ r] exI [of _ rs]) (auto simp: missed_simps)
    qed
    with att Ends show ?thesis by (auto simp: missed_simps)
  next
    case (Misses m)
    have split: "(\<exists>pre q post ms t. r # rs = pre @ q # post \<and> missed att pre s ms t \<and> att q t = (Ends a, s')) \<longleftrightarrow>
       (\<exists>pre q post ms t. rs = pre @ q # post \<and> missed att pre s1 ms t \<and> att q t = (Ends a, s'))"
      (is "?l \<longleftrightarrow> ?r")
    proof
      assume ?l
      then obtain pre q post ms t where l: "r # rs = pre @ q # post" "missed att pre s ms t" "att q t = (Ends a, s')"
        by blast
      with att Misses obtain pre' where "pre = r # pre'" by (cases pre) (auto simp: missed_simps)
      with l att Misses show ?r by (auto simp: missed_simps)
    next
      assume ?r
      with att Misses show ?l by (metis append_Cons missed_Cons)
    qed
    from att Misses Cons.IH [of "ms0 @ [m]" s1] show ?thesis
      unfolding split by (auto simp: missed_simps)
  qed
qed

lemma failover_keeps:
  assumes "\<And>r s. r \<in> set rs \<Longrightarrow> P s \<Longrightarrow> P (snd (att r s))"
  shows "P s \<Longrightarrow> P (snd (failover att fin rs ms s))"
  using assms
proof (induction rs arbitrary: s ms)
  case Nil
  then show ?case by simp
next
  case (Cons r rs)
  obtain o1 s1 where att: "att r s = (o1, s1)" by (cases "att r s")
  with Cons.prems(1) Cons.prems(2) [of r s] have "P s1" by simp
  with att Cons.IH [of s1] Cons.prems(2) show ?case by (cases o1) auto
qed

text \<open>One attempt of \<open>execute\<close> and of \<open>stream\<close>.\<close>

definition with_route ::
    "'s provider_executor \<Rightarrow> 's route_hook option \<Rightarrow> generation_request \<Rightarrow> (exn \<Rightarrow> 'a) \<Rightarrow>
     (model_route \<Rightarrow> 's model_provider \<Rightarrow> generation_request \<Rightarrow> 's \<Rightarrow> 'a attempt \<times> 's) \<Rightarrow>
     model_route \<Rightarrow> 's \<Rightarrow> 'a attempt \<times> 's" where
  "with_route x hook req fail run route s =
     (case run_hook hook route s of
        (Inl e, s1) \<Rightarrow> (case except_unavailable e of Some _ \<Rightarrow> (Misses (Denied (mr_model route)), s1)
                       | None \<Rightarrow> (Ends (fail e), s1))
      | (Inr _, s1) \<Rightarrow>
          (case router_resolve (px_router x) (mr_model route) of
             Inl e \<Rightarrow> (case except_unregistered e of Some p \<Rightarrow> (Misses (NoAdapter p), s1)
                      | None \<Rightarrow> (Ends (fail e), s1))
           | Inr (rroute, provider) \<Rightarrow>
               (case route_request route req of
                  Inl e \<Rightarrow> (Ends (fail e), s1) | Inr rreq \<Rightarrow> run rroute provider rreq s1)))"

definition try_generate ::
    "'s provider_executor \<Rightarrow> model_route \<Rightarrow> 's model_provider \<Rightarrow> generation_request \<Rightarrow> 's \<Rightarrow>
     (exn + execution_result) attempt \<times> 's" where
  "try_generate x rroute provider rreq s =
     (case generate_with_retries x provider rreq 0 s of
        (Inr response, s2) \<Rightarrow> (Ends (Inr \<lparr>er_response = response, er_route = rroute\<rparr>), s2)
      | (Inl e, s2) \<Rightarrow> (case except_provider e of Some err \<Rightarrow> (Misses (Failed err), s2)
                       | None \<Rightarrow> (Ends (Inl e), s2)))"

definition try_stream ::
    "'s provider_executor \<Rightarrow> model_route \<Rightarrow> 's model_provider \<Rightarrow> generation_request \<Rightarrow> 's \<Rightarrow>
     (provider_stream_event list \<times> exn option) attempt \<times> 's" where
  "try_stream x rroute provider rreq s =
     (case stream_with_retries x provider rreq 0 s of
        ((evs, eo), s2) \<Rightarrow>
          (let out = (map (\<lambda>ev. \<lparr>se_payload = ev, se_route = rroute\<rparr>) evs, eo) in
           case eo of None \<Rightarrow> (Ends out, s2)
           | Some e \<Rightarrow> (case except_provider e of None \<Rightarrow> (Ends out, s2)
                       | Some err \<Rightarrow> (if evs = [] then Misses (Failed err) else Ends out, s2))))"

definition attempt_generate where
  "attempt_generate x hook req = with_route x hook req Inl (try_generate x)"

definition attempt_stream where
  "attempt_stream x hook req = with_route x hook req (\<lambda>e. ([], Some e)) (try_stream x)"

lemma last_failure_snoc [simp]:
  "last_failure (ms @ [m]) = (case m of Failed err \<Rightarrow> Some err | _ \<Rightarrow> last_failure ms)"
  by (induction ms) (auto split: miss.splits option.splits)

lemma denied_models_simps [simp]:
  "denied_models [] = []"
  "denied_models (ms @ [m]) = denied_models ms @ (case m of Denied d \<Rightarrow> [d] | _ \<Rightarrow> [])"
  by (auto simp: denied_models_def List.map_filter_def split: miss.splits)

lemma missing_adapters_simps [simp]:
  "missing_adapters [] = []"
  "missing_adapters (ms @ [m]) = missing_adapters ms @ (case m of NoAdapter p \<Rightarrow> [p] | _ \<Rightarrow> [])"
  by (auto simp: missing_adapters_def List.map_filter_def split: miss.splits)

lemma execute_routes_failover:
  "execute_routes x hook requested req all rs (last_failure ms) (denied_models ms) (missing_adapters ms) s =
     failover (attempt_generate x hook req) (\<lambda>ms. Inl (exhausted requested all ms)) rs ms s"
proof (induction rs arbitrary: ms s)
  case Nil
  then show ?case by (simp add: exhausted_def)
next
  case (Cons r rs)
  have app: "attempt_generate x hook req r s = with_route x hook req Inl (try_generate x) r s"
    by (simp add: attempt_generate_def)
  note IH = Cons.IH [of "ms @ [Denied _]", simplified] Cons.IH [of "ms @ [NoAdapter _]", simplified]
    Cons.IH [of "ms @ [Failed _]", simplified]
  show ?case
    by (simp add: app with_route_def try_generate_def IH
          split: prod.split sum.split option.split)
qed

lemma stream_routes_failover:
  "stream_routes x hook requested req all rs (last_failure ms) (denied_models ms) (missing_adapters ms) s =
     failover (attempt_stream x hook req) (\<lambda>ms. ([], Some (exhausted requested all ms))) rs ms s"
proof (induction rs arbitrary: ms s)
  case Nil
  then show ?case by (simp add: exhausted_def)
next
  case (Cons r rs)
  have app: "attempt_stream x hook req r s = with_route x hook req (\<lambda>e. ([], Some e)) (try_stream x) r s"
    by (simp add: attempt_stream_def)
  note IH = Cons.IH [of "ms @ [Denied _]", simplified] Cons.IH [of "ms @ [NoAdapter _]", simplified]
    Cons.IH [of "ms @ [Failed _]", simplified]
  show ?case
    by (simp add: app with_route_def try_stream_def Let_def IH
          split: prod.split sum.split option.split)
qed

lemmas execute_routes_start = execute_routes_failover [where ms = "[]", simplified]
lemmas stream_routes_start = stream_routes_failover [where ms = "[]", simplified]


lemma execute_failover:
  "execute x m req hook s =
     (case routes_for x m of Inl e \<Rightarrow> (Inl e, s)
      | Inr rs \<Rightarrow> failover (attempt_generate x hook req) (\<lambda>ms. Inl (exhausted m rs ms)) rs [] s)"
  by (simp add: execute_def execute_routes_start split: sum.split)

lemma stream_failover:
  "stream x m req hook s =
     (case routes_for x m of Inl e \<Rightarrow> (([], Some e), s)
      | Inr rs \<Rightarrow> failover (attempt_stream x hook req) (\<lambda>ms. ([], Some (exhausted m rs ms))) rs [] s)"
  by (simp add: stream_def stream_routes_start split: sum.split)

lemma routes_for_route_in:
  "routes_for x m = Inr rs \<Longrightarrow> r \<in> set rs \<Longrightarrow> route_in (rt_catalog (px_router x)) r"
  using resolve_route_chain_spec [of m "rt_catalog (px_router x)" "Some (px_failover_catalog x)" rs]
  by (auto simp: routes_for_def Let_def map_r_eq_Inr resolve_model_route_Inr split: if_splits)

lemma routes_for_nonempty: "routes_for x m = Inr rs \<Longrightarrow> rs \<noteq> []"
  using resolve_route_chain_spec [of m "rt_catalog (px_router x)" "Some (px_failover_catalog x)" rs]
  by (auto simp: routes_for_def Let_def map_r_eq_Inr split: if_splits)

lemma router_resolve_registered:
  "route_in (rt_catalog rt) r \<Longrightarrow> router_resolve rt (mr_model r) = Inr (r', p) \<longleftrightarrow>
     r' = r \<and> dict_get (rt_providers rt) (mr_provider r) = Some p"
  by (auto simp: router_resolve_route_in split: option.splits)

text \<open>An attempt on a route of the catalog that ends the call.\<close>

lemma with_route_Ends:
  assumes "route_in (rt_catalog (px_router x)) r"
  shows "with_route x hook req fail run r s = (Ends a, s') \<longleftrightarrow>
    (\<exists>e. run_hook hook r s = (Inl e, s') \<and> except_unavailable e = None \<and> a = fail e) \<or>
    (\<exists>s1 p. run_hook hook r s = (Inr (), s1) \<and> dict_get (rt_providers (px_router x)) (mr_provider r) = Some p \<and>
       ((\<exists>e. route_request r req = Inl e \<and> a = fail e \<and> s' = s1) \<or>
        (\<exists>rreq. route_request r req = Inr rreq \<and> run r p rreq s1 = (Ends a, s'))))"
  using assms unfolding with_route_def
  by (auto simp: router_resolve_route_in split: prod.split sum.splits option.splits)

lemma try_generate_Ends_Inr:
  "try_generate x r p rreq s = (Ends (Inr res), s') \<longleftrightarrow>
     generate_with_retries x p rreq 0 s = (Inr (er_response res), s') \<and> er_route res = r"
  by (cases res) (auto simp: try_generate_def split: prod.split sum.split option.split)

text \<open>
  Once an event has been delivered the call is the remainder of one run of one provider's stream:
  nothing is retried and no other route is consulted.
\<close>

lemma try_stream_Ends:
  assumes "try_stream x r p rreq s = (Ends (evs, eo), s')"
  shows "\<exists>raw s0. mp_stream p rreq s0 = ((raw, eo), s') \<and> evs = map (\<lambda>ev. \<lparr>se_payload = ev, se_route = r\<rparr>) raw"
proof -
  obtain raw eo' t where st: "stream_with_retries x p rreq 0 s = ((raw, eo'), t)"
    by (cases "stream_with_retries x p rreq 0 s") (metis prod.exhaust)
  with assms have "eo' = eo" "t = s'" "evs = map (\<lambda>ev. \<lparr>se_payload = ev, se_route = r\<rparr>) raw"
    by (auto simp: try_stream_def Let_def split: option.splits if_splits)
  with swr_last_call [OF st] show ?thesis by blast
qed

text \<open>The misses of an exhausted chain.\<close>

lemma last_failure_None: "last_failure ms = None \<Longrightarrow> m \<in> set ms \<Longrightarrow> m \<noteq> Failed err"
  by (induction ms) (auto split: option.splits)

lemma denied_or_missing:
  "last_failure ms = None \<Longrightarrow> length (denied_models ms) + length (missing_adapters ms) = length ms"
proof (induction ms)
  case Nil
  then show ?case by simp
next
  case (Cons m ms)
  have "last_failure ms = None" using Cons.prems by (auto split: option.splits)
  with Cons.IH Cons.prems show ?case
    by (cases m) (simp_all add: denied_models_def missing_adapters_def List.map_filter_def)
qed

lemma exhausted_spec:
  assumes "length ms = length routes" "routes \<noteq> []"
  shows "exhausted requested routes ms =
    (case last_failure ms of Some err \<Rightarrow> ProviderErr err
     | None \<Rightarrow> (case missing_adapters ms of [] \<Rightarrow> ModelNotAvailableError requested
               | p # _ \<Rightarrow> ProviderNotRegisteredError p))"
proof (cases "last_failure ms")
  case None
  then have "length (denied_models ms) + length (missing_adapters ms) = length routes"
    using denied_or_missing [OF None] assms by simp
  with None assms show ?thesis
    by (cases "missing_adapters ms") (auto simp: exhausted_def exhausted_error_def)
next
  case (Some err)
  then show ?thesis by (simp add: exhausted_def exhausted_error_def)
qed

section \<open>What the executor preserves\<close>

text \<open>
  A predicate of the state that every provider call, the hook and sleeping keep is kept by the
  executor: it has no effect of its own.
\<close>

lemma gwr_keeps:
  assumes "generate_with_retries x p req a s = (res, s')"
    and "\<And>req s. P s \<Longrightarrow> P (snd (mp_generate p req s))" and "\<And>d s. P s \<Longrightarrow> P (px_sleep x d s)"
  shows "P s \<Longrightarrow> P s'"
  using assms(1)
proof (induction rule: gwr_induct)
  case (ok a s r s')
  then show ?case using assms(2) [of s req] by simp
next
  case (stop a s e s')
  then show ?case using assms(2) [of s req] by simp
next
  case (retry a s err t res s')
  then have "P t" using assms(2) [of s req] by simp
  then have "P (back_off x (a + 1) t)" using assms(3) by (simp add: back_off_def)
  with retry show ?case by simp
qed

lemma swr_keeps:
  assumes "stream_with_retries x p req a s = (res, s')"
    and "\<And>req s. P s \<Longrightarrow> P (snd (mp_stream p req s))" and "\<And>d s. P s \<Longrightarrow> P (px_sleep x d s)"
  shows "P s \<Longrightarrow> P s'"
  using assms(1)
proof (induction rule: swr_induct)
  case (final a s res s')
  then show ?case using assms(2) [of s req] by simp
next
  case (retry a s err t res s')
  then have "P t" using assms(2) [of s req] by simp
  then have "P (back_off x (a + 1) t)" using assms(3) by (simp add: back_off_def)
  with retry show ?case by simp
qed

lemma with_route_keeps:
  assumes "\<And>route s. P s \<Longrightarrow> P (snd (run_hook hook route s))"
    and "\<And>m r p rreq s. router_resolve (px_router x) m = Inr (r, p) \<Longrightarrow> P s \<Longrightarrow> P (snd (run r p rreq s))"
    and "P s"
  shows "P (snd (with_route x hook req fail run route s))"
proof -
  obtain h s1 where h: "run_hook hook route s = (h, s1)" by (cases "run_hook hook route s")
  with assms(1) [OF assms(3), of route] have "P s1" by simp
  with h assms(2) [of "mr_model route"] show ?thesis
    by (auto simp: with_route_def split: sum.split option.split)
qed

locale executor_frame =
  fixes x :: "'s provider_executor"
    and hook :: "'s route_hook option"
    and P :: "'s \<Rightarrow> bool"
  assumes generate_keeps:
      "router_resolve (px_router x) m = Inr (r, p) \<Longrightarrow> P s \<Longrightarrow> P (snd (mp_generate p req s))"
    and stream_keeps:
      "router_resolve (px_router x) m = Inr (r, p) \<Longrightarrow> P s \<Longrightarrow> P (snd (mp_stream p req s))"
    and sleep_keeps: "P s \<Longrightarrow> P (px_sleep x d s)"
    and hook_keeps: "P s \<Longrightarrow> P (snd (run_hook hook route s))"
begin

lemma try_generate_keeps:
  "router_resolve (px_router x) m = Inr (r, p) \<Longrightarrow> P s \<Longrightarrow> P (snd (try_generate x r p req s))"
  by (cases "generate_with_retries x p req 0 s")
    (auto simp: try_generate_def split: sum.split option.split
       dest!: gwr_keeps [where P = P] intro: generate_keeps sleep_keeps)

lemma try_stream_keeps:
  "router_resolve (px_router x) m = Inr (r, p) \<Longrightarrow> P s \<Longrightarrow> P (snd (try_stream x r p req s))"
  by (cases "stream_with_retries x p req 0 s")
    (auto simp: try_stream_def Let_def split: option.split
       dest!: swr_keeps [where P = P] intro: stream_keeps sleep_keeps)

lemma attempt_generate_keeps: "P s \<Longrightarrow> P (snd (attempt_generate x hook req r s))"
  unfolding attempt_generate_def
  by (rule with_route_keeps [where P = P]) (erule hook_keeps, erule (1) try_generate_keeps)

lemma attempt_stream_keeps: "P s \<Longrightarrow> P (snd (attempt_stream x hook req r s))"
  unfolding attempt_stream_def
  by (rule with_route_keeps [where P = P]) (erule hook_keeps, erule (1) try_stream_keeps)

lemma execute_keeps: "P s \<Longrightarrow> P (snd (execute x m req hook s))"
  using failover_keeps [of _ P "attempt_generate x hook req"] attempt_generate_keeps
  by (simp add: execute_failover split: sum.split)

lemma stream_keeps_P: "P s \<Longrightarrow> P (snd (stream x m req hook s))"
  using failover_keeps [of _ P "attempt_stream x hook req"] attempt_stream_keeps
  by (simp add: stream_failover split: sum.split)

end

section \<open>A sample executor\<close>

text \<open>A provider that fails transiently as often as the state says, and counts calls and sleep.\<close>

record demo_state =
  ds_failures :: nat
  ds_calls :: nat
  ds_slept :: rat

definition demo_error :: provider_error where
  "demo_error = mk_provider_error BaseProviderError ''boom'' True (Some 503)"

definition demo_provider :: "string \<Rightarrow> demo_state model_provider" where
  "demo_provider m = \<lparr>
     mp_generate = (\<lambda>req s. if 0 < ds_failures s
        then (Inl (ProviderErr demo_error), s\<lparr>ds_failures := ds_failures s - 1, ds_calls := Suc (ds_calls s)\<rparr>)
        else (Inr (sample_response m), s\<lparr>ds_calls := Suc (ds_calls s)\<rparr>)),
     mp_stream = (\<lambda>req s. if 0 < ds_failures s
        then (([], Some (ProviderErr demo_error)), s\<lparr>ds_failures := ds_failures s - 1, ds_calls := Suc (ds_calls s)\<rparr>)
        else (([Delta \<lparr>gd_id = ''r1'', gd_model = m, gd_content = ''he''\<rparr>, Completed (sample_response m)], None),
              s\<lparr>ds_calls := Suc (ds_calls s)\<rparr>))\<rparr>"

definition demo_executor :: "int \<Rightarrow> demo_state provider_executor" where
  "demo_executor retries = \<lparr>
     px_router = \<lparr>rt_providers = [(''p'', demo_provider ''m''), (''q'', demo_provider ''n'')],
                  rt_catalog = [(''m'', ''p''), (''n'', ''q'')]\<rparr>,
     px_max_retries = retries, px_retry_base_delay = 1 / 2, px_failover_enabled = True,
     px_failover_catalog = [(''m'', [''n''])], px_sleep = (\<lambda>d s. s\<lparr>ds_slept := ds_slept s + d\<rparr>)\<rparr>"

definition demo_state0 :: "nat \<Rightarrow> demo_state" where
  "demo_state0 n = \<lparr>ds_failures = n, ds_calls = 0, ds_slept = 0\<rparr>"

lemmas demo_defs = demo_provider_def demo_executor_def demo_state0_def demo_error_def mk_provider_error_def

lemma demo_routes: "routes_for (demo_executor k) ''m'' =
    Inr [\<lparr>mr_model = ''m'', mr_provider = ''p''\<rparr>, \<lparr>mr_model = ''n'', mr_provider = ''q''\<rparr>]"
  by code_simp

lemma attempt_generate_Ends_Inr:
  assumes "route_in (rt_catalog (px_router x)) r"
  shows "attempt_generate x hook req r s1 = (Ends (Inr res), s') \<longleftrightarrow>
      (\<exists>s2 p rreq. run_hook hook r s1 = (Inr (), s2) \<and>
        dict_get (rt_providers (px_router x)) (mr_provider r) = Some p \<and>
        route_request r req = Inr rreq \<and> generate_with_retries x p rreq 0 s2 = (Inr (er_response res), s') \<and>
        er_route res = r)"
  unfolding attempt_generate_def with_route_Ends [OF assms] try_generate_Ends_Inr by auto

section \<open>Properties\<close>

text \<open>C19: the retry budget is exact. A provider that fails transiently \<open>n\<close> times before it answers
  is answered for if and only if \<open>n\<close> does not exceed \<open>max_retries\<close>; otherwise one of its provider
  errors is raised.\<close>

theorem retry_budget_exact:
  assumes "\<And>s. 0 < n s \<Longrightarrow> \<exists>err t. mp_generate p req s = (Inl (ProviderErr err), t) \<and>
      pe_retryable err \<and> n t = n s - 1"
    and "\<And>s. n s = 0 \<Longrightarrow> fst (mp_generate p req s) = Inr r"
    and "\<And>d s. n (px_sleep x d s) = n s"
    and "0 \<le> px_max_retries x"
  shows "if int (n s) \<le> px_max_retries x
    then fst (generate_with_retries x p req 0 s) = Inr r
    else \<exists>err. fst (generate_with_retries x p req 0 s) = Inl (ProviderErr err)"
  using gwr_beyond_budget [where n = n and p = p and req = req and x = x and a = 0 and s = s]
    gwr_within_budget [where n = n and p = p and req = req and x = x and a = 0 and s = s] assms
  by simp

lemma retry_budget_exact_witness:
  "fst (generate_with_retries (demo_executor 2) (demo_provider ''m'') (sample_request ''m'') 0 (demo_state0 2)) =
     Inr (sample_response ''m'')"
  using retry_budget_exact [of ds_failures "demo_provider ''m''" "sample_request ''m''" "sample_response ''m''"
      "demo_executor 2" "demo_state0 2"]
  by (simp add: demo_defs)

text \<open>Retries are bounded in calls and in delay. With \<open>c\<close> counting provider calls and \<open>w\<close> the time
  slept, a call makes between 1 and \<open>max_retries + 1\<close> provider calls and sleeps at most
  \<open>base_delay * (1 + ... + max_retries)\<close>.\<close>

theorem retry_bounds:
  fixes w :: "'s \<Rightarrow> rat"
  assumes "generate_with_retries x p req 0 s = (res, s')"
    and "\<And>s. c (snd (mp_generate p req s)) = Suc (c s)" and "\<And>d s. c (px_sleep x d s) = c s"
    and "\<And>s. w (snd (mp_generate p req s)) = w s" and "\<And>d s. w (px_sleep x d s) = w s + d"
    and "0 \<le> px_retry_base_delay x" and "0 \<le> px_max_retries x"
  shows "c s < c s' \<and> c s' \<le> c s + Suc (nat (px_max_retries x)) \<and>
    w s \<le> w s' \<and> w s' \<le> w s + px_retry_base_delay x * of_int (\<Sum>k\<in>{1..px_max_retries x}. k)"
  using gwr_calls [where c = c, OF assms(1-3)] gwr_delay [where w = w, OF assms(1,4-6)] assms(7)
  by (simp del: of_int_sum)

lemma retry_bounds_witness:
  "ds_calls (snd (generate_with_retries (demo_executor 2) (demo_provider ''m'') (sample_request ''m'') 0 (demo_state0 9))) \<le> 3"
  using retry_bounds [OF surjective_pairing, where c = ds_calls and w = ds_slept and x = "demo_executor 2" and
      p = "demo_provider ''m''" and req = "sample_request ''m''" and s = "demo_state0 9"]
  by (simp add: demo_defs del: of_int_sum)

text \<open>C1: what \<open>execute\<close> returns. A call succeeds with a response exactly when its route is on the
  resolved chain, every route before it was denied by the hook, lacked an adapter or failed with a
  provider error, the hook accepted it, its provider is registered, and that provider produced the
  response for the request under the route's model. The state left is the one the provider left.\<close>

theorem execute_succeeds_iff:
  "execute x m req hook s = (Inr res, s') \<longleftrightarrow>
     (\<exists>pre post misses s1 s2 p rreq.
        routes_for x m = Inr (pre @ er_route res # post) \<and>
        missed (attempt_generate x hook req) pre s misses s1 \<and>
        run_hook hook (er_route res) s1 = (Inr (), s2) \<and>
        dict_get (rt_providers (px_router x)) (mr_provider (er_route res)) = Some p \<and>
        route_request (er_route res) req = Inr rreq \<and>
        generate_with_retries x p rreq 0 s2 = (Inr (er_response res), s'))"
    (is "?l \<longleftrightarrow> ?r")
proof
  assume ?l
  then obtain rs where rs: "routes_for x m = Inr rs" by (auto simp: execute_failover split: sum.splits)
  with \<open>?l\<close> obtain pre r post ms s1 where split: "rs = pre @ r # post"
    "missed (attempt_generate x hook req) pre s ms s1"
    "attempt_generate x hook req r s1 = (Ends (Inr res), s')"
    by (auto simp: execute_failover failover_iff)
  then have "route_in (rt_catalog (px_router x)) r" using routes_for_route_in [OF rs] by simp
  from split(3) [unfolded attempt_generate_Ends_Inr [OF this]] have "r = er_route res" and
    ends: "\<exists>s2 p rreq. run_hook hook (er_route res) s1 = (Inr (), s2) \<and>
        dict_get (rt_providers (px_router x)) (mr_provider (er_route res)) = Some p \<and>
        route_request (er_route res) req = Inr rreq \<and>
        generate_with_retries x p rreq 0 s2 = (Inr (er_response res), s')"
    by auto
  with split(1,2) rs show ?r by blast
next
  assume ?r
  then obtain pre post misses s1 where split: "routes_for x m = Inr (pre @ er_route res # post)"
    "missed (attempt_generate x hook req) pre s misses s1"
    and ends: "\<exists>s2 p rreq. run_hook hook (er_route res) s1 = (Inr (), s2) \<and>
        dict_get (rt_providers (px_router x)) (mr_provider (er_route res)) = Some p \<and>
        route_request (er_route res) req = Inr rreq \<and>
        generate_with_retries x p rreq 0 s2 = (Inr (er_response res), s')"
    by blast
  have "route_in (rt_catalog (px_router x)) (er_route res)" using routes_for_route_in [OF split(1)] by simp
  with ends have "attempt_generate x hook req (er_route res) s1 = (Ends (Inr res), s')"
    by (simp add: attempt_generate_Ends_Inr)
  with split(2) have "failover (attempt_generate x hook req) fin (pre @ er_route res # post) [] s = (Inr res, s')"
    for fin unfolding failover_iff by blast
  with split(1) show ?l by (simp add: execute_failover)
qed

text \<open>What an exhausted chain raises. When no route answered, the last provider error is raised;
  with no provider error, the first unregistered provider is named; the model is reported as not
  available only when every route was denied.\<close>

theorem execute_exhausted:
  assumes "routes_for x m = Inr rs" and "missed (attempt_generate x hook req) rs s ms s'"
  shows "execute x m req hook s =
    (Inl (case last_failure ms of Some err \<Rightarrow> ProviderErr err
          | None \<Rightarrow> (case missing_adapters ms of [] \<Rightarrow> ModelNotAvailableError m
                    | p # _ \<Rightarrow> ProviderNotRegisteredError p)), s')"
proof -
  have "length ms = length rs" "rs \<noteq> []"
    using missed_length [OF assms(2)] routes_for_nonempty [OF assms(1)] .
  then have "exhausted m rs ms = (case last_failure ms of Some err \<Rightarrow> ProviderErr err
          | None \<Rightarrow> (case missing_adapters ms of [] \<Rightarrow> ModelNotAvailableError m
                    | p # _ \<Rightarrow> ProviderNotRegisteredError p))" by (rule exhausted_spec)
  moreover have "failover (attempt_generate x hook req) (\<lambda>ms. Inl (exhausted m rs ms)) rs [] s =
      (Inl (exhausted m rs ms), s')"
    unfolding failover_iff using assms(2) by (intro disjI2 exI [of _ ms]) simp
  ultimately show ?thesis using assms(1) by (simp add: execute_failover)
qed

lemma execute_exhausted_witness:
  "fst (execute (demo_executor 0) ''m'' (sample_request ''m'') None (demo_state0 5)) = Inl (ProviderErr demo_error)"
proof -
  let ?att = "attempt_generate (demo_executor 0) None (sample_request ''m'')"
  have 1: "?att \<lparr>mr_model = ''m'', mr_provider = ''p''\<rparr> (demo_state0 5) =
      (Misses (Failed demo_error), (demo_state0 4)\<lparr>ds_calls := 1\<rparr>)" by code_simp
  have 2: "?att \<lparr>mr_model = ''n'', mr_provider = ''q''\<rparr> ((demo_state0 4)\<lparr>ds_calls := 1\<rparr>) =
      (Misses (Failed demo_error), (demo_state0 3)\<lparr>ds_calls := 2\<rparr>)" by code_simp
  have "missed ?att [\<lparr>mr_model = ''m'', mr_provider = ''p''\<rparr>, \<lparr>mr_model = ''n'', mr_provider = ''q''\<rparr>]
      (demo_state0 5) [Failed demo_error, Failed demo_error] ((demo_state0 3)\<lparr>ds_calls := 2\<rparr>)"
    by (rule missed_Cons, rule 1, rule missed_Cons, rule 2, rule missed_Nil)
  from execute_exhausted [OF demo_routes this] show ?thesis by simp
qed

text \<open>C2: a stream never switches routes after its first event. Whatever \<open>stream\<close> yields is the
  complete event list of one run of one registered provider, tagged with its route, and the way the
  call ends is the way that run ended; no provider runs after it.\<close>

theorem stream_from_single_run:
  assumes "stream x m req hook s = ((evs, eo), s')" and "evs \<noteq> []"
  shows "\<exists>r p rreq raw s0. r \<in> set (case routes_for x m of Inr rs \<Rightarrow> rs | Inl _ \<Rightarrow> []) \<and>
    dict_get (rt_providers (px_router x)) (mr_provider r) = Some p \<and> route_request r req = Inr rreq \<and>
    mp_stream p rreq s0 = ((raw, eo), s') \<and> evs = map (\<lambda>ev. \<lparr>se_payload = ev, se_route = r\<rparr>) raw"
proof -
  from assms obtain rs where rs: "routes_for x m = Inr rs"
    by (auto simp: stream_failover split: sum.splits)
  from assms have "\<exists>r s1. r \<in> set rs \<and> attempt_stream x hook req r s1 = (Ends (evs, eo), s')"
    unfolding stream_failover rs sum.case failover_iff by auto
  then obtain r s1 where r: "r \<in> set rs" "attempt_stream x hook req r s1 = (Ends (evs, eo), s')" by blast
  have "route_in (rt_catalog (px_router x)) r" using routes_for_route_in rs r by blast
  from r(2) [unfolded attempt_stream_def with_route_Ends [OF this]] assms(2)
  obtain s2 p rreq where p: "dict_get (rt_providers (px_router x)) (mr_provider r) = Some p"
    "route_request r req = Inr rreq" "try_stream x r p rreq s2 = (Ends (evs, eo), s')"
    by auto
  from try_stream_Ends [OF p(3)] obtain raw s0 where "mp_stream p rreq s0 = ((raw, eo), s')"
    "evs = map (\<lambda>ev. \<lparr>se_payload = ev, se_route = r\<rparr>) raw" by blast
  moreover have "r \<in> set (case routes_for x m of Inr rs \<Rightarrow> rs | Inl _ \<Rightarrow> [])" using r(1) rs by simp
  ultimately show ?thesis using p(1,2) by blast
qed

lemma stream_from_single_run_witness:
  "\<exists>r (p :: demo_state model_provider) rreq raw s0. r \<in> set [\<lparr>mr_model = ''m'', mr_provider = ''p''\<rparr>, \<lparr>mr_model = ''n'', mr_provider = ''q''\<rparr>] \<and>
     mp_stream p rreq s0 = ((raw, None), (demo_state0 0)\<lparr>ds_calls := 4, ds_slept := 1\<rparr>)"
proof -
  let ?r = "\<lparr>mr_model = ''n'', mr_provider = ''q''\<rparr>"
  have "stream (demo_executor 1) ''m'' (sample_request ''m'') None (demo_state0 3) =
      (([\<lparr>se_payload = Delta \<lparr>gd_id = ''r1'', gd_model = ''n'', gd_content = ''he''\<rparr>, se_route = ?r\<rparr>,
         \<lparr>se_payload = Completed (sample_response ''n''), se_route = ?r\<rparr>], None),
       (demo_state0 0)\<lparr>ds_calls := 4, ds_slept := 1\<rparr>)"
    by code_simp
  from stream_from_single_run [OF this list.distinct(2)] show ?thesis
    unfolding demo_routes sum.case by (elim exE conjE) (intro exI conjI)
qed

section \<open>The work of a whole call\<close>

lemma failover_measured:
  fixes v :: "'s \<Rightarrow> 'n :: linordered_semidom"
  assumes "0 \<le> b" and "\<And>r s. r \<in> set rs \<Longrightarrow> v (snd (att r s)) \<le> v s + b"
  shows "v (snd (failover att fin rs ms s)) \<le> v s + of_nat (length rs) * b"
  using assms(2)
proof (induction rs arbitrary: s ms)
  case Nil
  then show ?case by simp
next
  case (Cons r rs)
  obtain o1 s1 where att: "att r s = (o1, s1)" by (cases "att r s")
  with Cons.prems [of r s] have one: "v s1 \<le> v s + b" by simp
  show ?case
  proof (cases o1)
    case (Ends a)
    have "v s + b \<le> v s + of_nat (length (r # rs)) * b"
      using assms(1) by (simp add: algebra_simps)
    with one have "v s1 \<le> v s + of_nat (length (r # rs)) * b" by (rule order.trans)
    with att Ends show ?thesis by simp
  next
    case (Misses m)
    have "v (snd (failover att fin rs (ms @ [m]) s1)) \<le> v s1 + of_nat (length rs) * b"
      using Cons.prems by (intro Cons.IH) simp
    also have "\<dots> \<le> v s + of_nat (length (r # rs)) * b"
      using add_right_mono [OF one, of "of_nat (length rs) * b"] by (simp add: algebra_simps)
    finally show ?thesis using att Misses by simp
  qed
qed

lemma try_generate_measured:
  fixes v :: "'s \<Rightarrow> 'n :: linordered_semidom"
  assumes b: "0 \<le> b"
    and hook: "\<And>r s. v (snd (run_hook hook r s)) = v s"
    and gen: "\<And>p rq s. p \<in> snd ` set (rt_providers (px_router x)) \<Longrightarrow> v (snd (generate_with_retries x p rq 0 s)) \<le> v s + b"
    and r: "route_in (rt_catalog (px_router x)) r"
  shows "v (snd (attempt_generate x hook req r s)) \<le> v s + b"
proof -
  obtain h s1 where h: "run_hook hook r s = (h, s1)" by (cases "run_hook hook r s")
  with hook [of r s] have s1: "v s1 = v s" by simp
  have free: "v s \<le> v s + b" using b by simp
  have run: "v (snd (try_generate x rr p rq s1)) \<le> v s + b" if "p \<in> snd ` set (rt_providers (px_router x))" for rr p rq
    using gen [OF that, of rq s1] s1
    by (cases "generate_with_retries x p rq 0 s1") (auto simp: try_generate_def split: sum.split option.split)
  show ?thesis
  proof (cases h)
    case (Inl e)
    with h s1 free show ?thesis by (simp add: attempt_generate_def with_route_def split: option.split)
  next
    case (Inr u)
    show ?thesis
    proof (cases "dict_get (rt_providers (px_router x)) (mr_provider r)")
      case None
      with h Inr s1 free r show ?thesis
        by (simp add: attempt_generate_def with_route_def router_resolve_route_in)
    next
      case (Some p)
      then have "p \<in> snd ` set (rt_providers (px_router x))" by (auto simp: dict_get_def dest!: map_of_SomeD intro!: image_eqI [where x = "(mr_provider r, p)"])
      with h Inr s1 free r Some run show ?thesis
        by (simp add: attempt_generate_def with_route_def router_resolve_route_in split: sum.split)
    qed
  qed
qed

text \<open>C20: a call ends after a bounded amount of work. With \<open>c\<close> counting the provider calls and \<open>w\<close> the time slept,
  and a hook that does neither, \<open>execute\<close> makes at most \<open>max_retries + 1\<close> provider calls for each route of the chain and sleeps
  at most \<open>base_delay * (1 + ... + max_retries)\<close> for each, whatever the providers answer.\<close>

theorem execute_work_bounded:
  fixes w :: "'s \<Rightarrow> rat" and c :: "'s \<Rightarrow> nat"
  assumes "routes_for x m = Inr rs" and "0 \<le> px_retry_base_delay x" and "0 \<le> px_max_retries x"
    and "\<forall>p\<in>snd ` set (rt_providers (px_router x)). \<forall>rq s. c (snd (mp_generate p rq s)) = Suc (c s) \<and> w (snd (mp_generate p rq s)) = w s"
    and "\<forall>d s. c (px_sleep x d s) = c s \<and> w (px_sleep x d s) = w s + d"
    and "\<forall>r s. c (snd (run_hook hook r s)) = c s \<and> w (snd (run_hook hook r s)) = w s"
  shows "c (snd (execute x m req hook s)) \<le> c s + length rs * Suc (nat (px_max_retries x)) \<and>
    w (snd (execute x m req hook s)) \<le> w s + of_nat (length rs) * (px_retry_base_delay x * of_int (\<Sum>k\<in>{1..px_max_retries x}. k))"
proof -
  let ?time = "px_retry_base_delay x * of_int (\<Sum>k\<in>{1..px_max_retries x}. k)"
  have time: "0 \<le> ?time"
    using assms(2) by (intro mult_nonneg_nonneg) (auto intro!: sum_nonneg simp del: of_int_sum)
  have one: "c (snd (generate_with_retries x p rq 0 s)) \<le> c s + Suc (nat (px_max_retries x)) \<and>
      w (snd (generate_with_retries x p rq 0 s)) \<le> w s + ?time" if "p \<in> snd ` set (rt_providers (px_router x))" for p rq s
    using retry_bounds [OF surjective_pairing, of c p rq x w] assms(2-5) that by (simp del: of_int_sum)
  have att: "c (snd (attempt_generate x hook req r s)) \<le> c s + Suc (nat (px_max_retries x))"
    "w (snd (attempt_generate x hook req r s)) \<le> w s + ?time" if "r \<in> set rs" for r s
    using try_generate_measured [where v = c, OF _ _ _ routes_for_route_in [OF assms(1) that]]
      try_generate_measured [where v = w, OF time _ _ routes_for_route_in [OF assms(1) that]] one assms(6) by blast+
  show ?thesis
    using failover_measured [where v = c and rs = rs, OF _ att(1)] failover_measured [where v = w and rs = rs, OF time att(2)] assms(1)
    by (simp add: execute_failover)
qed

lemma execute_work_bounded_witness:
  "ds_calls (snd (execute (demo_executor 2) ''m'' (sample_request ''m'') None (demo_state0 9))) \<le> 6"
proof -
  have x: "px_max_retries (demo_executor 2) = 2" "px_retry_base_delay (demo_executor 2) = 1 / 2"
    "rt_providers (px_router (demo_executor 2)) = [(''p'', demo_provider ''m''), (''q'', demo_provider ''n'')]"
    "px_sleep (demo_executor 2) = (\<lambda>d s. s\<lparr>ds_slept := ds_slept s + d\<rparr>)" "ds_calls (demo_state0 9) = 0"
    by (simp_all add: demo_executor_def demo_state0_def)
  have p: "ds_calls (snd (mp_generate (demo_provider m) rq s)) = Suc (ds_calls s) \<and>
      ds_slept (snd (mp_generate (demo_provider m) rq s)) = ds_slept s" for m rq s
    by (simp add: demo_provider_def)
  show ?thesis
    using execute_work_bounded [where c = ds_calls and w = ds_slept and hook = None and req = "sample_request ''m''" and s = "demo_state0 9",
        OF demo_routes [of 2]]
    by (simp add: x p run_hook_def del: of_int_sum)
qed

end
