(* ===== verification/PyJson.thy ===== *)
theory PyJson
  imports Json Errors
begin

text \<open>
  How the code reads decoded JSON: subscription, \<open>dict.get\<close>, and the type tests, on values of
  any JSON type, with the exception Python raises.
\<close>

text \<open>\<open>data[key]\<close> with a string key.\<close>

definition py_item :: "json \<Rightarrow> string \<Rightarrow> exn + json" where
  "py_item j key = (case j of JObj kvs \<Rightarrow> (case dict_get kvs key of None \<Rightarrow> Inl (PyKeyError key) | Some v \<Rightarrow> Inr v)
     | _ \<Rightarrow> Inl PyTypeError)"

text \<open>\<open>data.get(key)\<close>, with None for an absent key.\<close>

definition py_get :: "json \<Rightarrow> string \<Rightarrow> exn + json option" where
  "py_get j key = (case j of JObj kvs \<Rightarrow> Inr (dict_get kvs key) | _ \<Rightarrow> Inl PyAttributeError)"

text \<open>\<open>data.get(key, default)\<close>.\<close>

definition py_get_or :: "json \<Rightarrow> string \<Rightarrow> json \<Rightarrow> exn + json" where
  "py_get_or j key dflt = map_r (\<lambda>x. case x of None \<Rightarrow> dflt | Some v \<Rightarrow> v) (py_get j key)"

text \<open>The value of a field that is used as a string, an integer, an iterable of values.\<close>

definition as_str :: "json \<Rightarrow> exn + string" where
  "as_str j = (case j of JStr s \<Rightarrow> Inr s | _ \<Rightarrow> Inl PyAttributeError)"

definition as_int :: "json \<Rightarrow> exn + int" where
  "as_int j = (case j of JInt i \<Rightarrow> Inr i | JBool b \<Rightarrow> Inr (if b then 1 else 0) | _ \<Rightarrow> Inl PyTypeError)"

definition py_iter :: "json \<Rightarrow> exn + json list" where
  "py_iter j = (case j of JArr xs \<Rightarrow> Inr xs | JObj kvs \<Rightarrow> Inr (map (\<lambda>kv. JStr (fst kv)) kvs)
     | JStr s \<Rightarrow> Inr (map (\<lambda>c. JStr [c]) s) | _ \<Rightarrow> Inl PyTypeError)"

lemmas py_json_simps = py_item_def py_get_def py_get_or_def as_str_def as_int_def py_iter_def

lemma py_item_Inr: "py_item j k = Inr v \<longleftrightarrow> (\<exists>kvs. j = JObj kvs \<and> dict_get kvs k = Some v)"
  by (auto simp: py_item_def split: json.split option.split)

lemma as_str_Inr [simp]: "as_str j = Inr s \<longleftrightarrow> j = JStr s"
  by (cases j) (auto simp: as_str_def)

lemma as_str_JStr [simp]: "as_str (JStr s) = Inr s"
  by simp

end
