(* ===== verification/Sha256.thy ===== *)
theory Sha256
  imports Uuid
begin

text \<open>
  \<open>hashlib.sha256(data).hexdigest()\<close> on byte strings (FIPS 180-4), which the response cache
  fingerprint uses: padding, message schedule, compression, and the hexadecimal digest. The lemmas give
  the length and the alphabet of the digest.
\<close>

unbundle bit_operations_syntax

type_synonym word32 = "32 word"
type_synonym digest_state = "word32 list"

text \<open>
  The constants are bits of roots of primes: \<open>frac_bits k p\<close> is the first 32 bits after the point of
  the \<open>k\<close>-th root of \<open>p\<close>, found bit by bit. 36 bits are enough for the roots of primes below 313.
\<close>

fun root_bits :: "nat \<Rightarrow> int \<Rightarrow> nat \<Rightarrow> int \<Rightarrow> int" where
  "root_bits k n 0 r = r"
| "root_bits k n (Suc b) r = root_bits k n b (if (r + 2 ^ b) ^ k \<le> n then r + 2 ^ b else r)"

definition frac_bits :: "nat \<Rightarrow> int \<Rightarrow> word32" where
  "frac_bits k p = word_of_int (root_bits k (p * 2 ^ (32 * k)) 36 0)"

definition primes_upto :: "int \<Rightarrow> int list" where
  "primes_upto n = filter (\<lambda>p. list_all (\<lambda>d. p mod d \<noteq> 0) [2..p - 1]) [2..n]"

definition K_table :: "word32 list" where
  "K_table = map (frac_bits 3) (primes_upto 311)"

definition initial_state :: digest_state where
  "initial_state = map (frac_bits 2) (primes_upto 19)"

lemma length_initial_state: "length initial_state = 8"
proof -
  have "length (primes_upto 19) = 8" by code_simp
  then show ?thesis by (simp add: initial_state_def)
qed

definition small_sigma0 :: "word32 \<Rightarrow> word32" where
  "small_sigma0 x = word_rotr 7 x XOR word_rotr 18 x XOR drop_bit 3 x"

definition small_sigma1 :: "word32 \<Rightarrow> word32" where
  "small_sigma1 x = word_rotr 17 x XOR word_rotr 19 x XOR drop_bit 10 x"

definition big_sigma0 :: "word32 \<Rightarrow> word32" where
  "big_sigma0 x = word_rotr 2 x XOR word_rotr 13 x XOR word_rotr 22 x"

definition big_sigma1 :: "word32 \<Rightarrow> word32" where
  "big_sigma1 x = word_rotr 6 x XOR word_rotr 11 x XOR word_rotr 25 x"

text \<open>The schedule, latest word first: \<open>n\<close> words are added to the sixteen of the block.\<close>

fun extend_schedule :: "nat \<Rightarrow> word32 list \<Rightarrow> word32 list" where
  "extend_schedule 0 w = w"
| "extend_schedule (Suc n) w =
     extend_schedule n ((small_sigma1 (w ! 1) + w ! 6 + small_sigma0 (w ! 14) + w ! 15) # w)"

definition schedule :: "word32 list \<Rightarrow> word32 list" where
  "schedule block = rev (extend_schedule 48 (rev block))"

fun compress_round :: "word32 \<times> word32 \<Rightarrow> digest_state \<Rightarrow> digest_state" where
  "compress_round (k, w) [a, b, c, d, e, f, g, h] =
     (let t1 = h + big_sigma1 e + ((e AND f) XOR (NOT e AND g)) + k + w;
          t2 = big_sigma0 a + ((a AND b) XOR (a AND c) XOR (b AND c))
      in [t1 + t2, a, b, c, d + t1, e, f, g])"
| "compress_round _ s = s"

definition compress :: "word32 list \<Rightarrow> digest_state \<Rightarrow> digest_state" where
  "compress block s = map2 (+) s (fold compress_round (zip K_table (schedule block)) s)"

text \<open>Padding: a one bit, zeros, and the length in bits as 64 bits, to a multiple of 64 bytes.\<close>

definition byte_at :: "nat \<Rightarrow> nat \<Rightarrow> nat" where
  "byte_at i n = (n div 256 ^ i) mod 256"

definition pad :: "nat list \<Rightarrow> nat list" where
  "pad bs = bs @ [128] @ replicate ((119 - length bs mod 64) mod 64) 0 @ map (\<lambda>i. byte_at i (8 * length bs)) (rev [0..<8])"

fun be_words :: "nat list \<Rightarrow> word32 list" where
  "be_words (a # b # c # d # bs) = of_nat (((a * 256 + b) * 256 + c) * 256 + d) # be_words bs"
| "be_words _ = []"

function blocks :: "word32 list \<Rightarrow> word32 list list" where
  "blocks ws = (if ws = [] then [] else take 16 ws # blocks (drop 16 ws))"
  by pat_completeness auto
termination by (relation "measure length") auto

declare blocks.simps [simp del]

definition sha256 :: "nat list \<Rightarrow> digest_state" where
  "sha256 bs = fold compress (blocks (be_words (pad bs))) initial_state"

definition hexdigest :: "digest_state \<Rightarrow> string" where
  "hexdigest s = concat (map (\<lambda>w. hex_digits 8 (unat w)) s)"

text \<open>The text is ASCII, so its UTF-8 encoding has one byte per character.\<close>

definition sha256_hex :: "string \<Rightarrow> string" where
  "sha256_hex s = hexdigest (sha256 (map ord_of s))"

section \<open>Padding, block and digest lengths\<close>

lemma pad_length: "length (pad bs) mod 64 = 0"
proof -
  obtain q r where qr: "length bs = q * 64 + r" "r < 64"
    by (metis div_mod_decomp mod_less_divisor zero_less_numeral)
  then have m: "length bs mod 64 = r" by simp
  have zeros: "(119 - r) mod 64 = (if r \<le> 55 then 55 - r else 119 - r)"
  proof (cases "r \<le> 55")
    case True
    then have "119 - r = (55 - r) + 64" by simp
    then have "(119 - r) mod 64 = (55 - r) mod 64" by (metis mod_add_self2)
    with True show ?thesis by simp
  qed simp
  have "length (pad bs) = q * 64 + r + 9 + (119 - r) mod 64" using qr by (simp add: pad_def)
  also have "\<dots> = (q + (if r \<le> 55 then 1 else 2)) * 64" unfolding zeros using qr(2) by simp
  finally show ?thesis by (simp only: mod_mult_self2_is_0)
qed

lemma length_compress_round [simp]: "length (compress_round kw s) = length s"
  by (cases kw) (induction kw s rule: compress_round.induct, auto simp: Let_def)

lemma length_rounds [simp]: "length (fold compress_round kws s) = length s"
  by (induction kws arbitrary: s) auto

lemma length_compress [simp]: "length (compress b s) = length s"
  by (simp add: compress_def)

lemma length_sha256: "length (sha256 bs) = 8"
proof -
  have "length (fold compress bls s) = length s" for bls s by (induction bls arbitrary: s) auto
  then show ?thesis by (simp add: sha256_def length_initial_state)
qed

lemma length_hexdigest: "length (sha256_hex s) = 64"
proof -
  have "length (hexdigest ws) = 8 * length ws" for ws by (induction ws) (simp_all add: hexdigest_def)
  then show ?thesis by (simp add: sha256_hex_def length_sha256)
qed

end
