(* ===== verification/ResponseStore.thy ===== *)
theory ResponseStore
  imports Generation PyJson Sha256
begin

text \<open>
  What the service stores of a response and of a request: the payload of idempotent replays and of the
  response cache (\<open>_serialize_response\<close>, \<open>_deserialize_response\<close> of
  \<open>application/responses/create_response.py\<close>), and the cache fingerprint of
  \<open>application/responses/cache_fingerprint.py\<close>.
\<close>

section \<open>Stored responses\<close>

definition opt_json :: "('a \<Rightarrow> json) \<Rightarrow> 'a option \<Rightarrow> json" where
  "opt_json f x = (case x of None \<Rightarrow> JNull | Some v \<Rightarrow> f v)"

definition call_json :: "tool_call \<Rightarrow> json" where
  "call_json c = JObj [(''id'', JStr (tc_id c)), (''name'', JStr (tc_name c)), (''arguments'', JStr (tc_arguments c))]"

definition usage_json :: "token_usage \<Rightarrow> json" where
  "usage_json u = JObj [(''input_tokens'', JInt (tu_input_tokens u)), (''output_tokens'', JInt (tu_output_tokens u))]"

definition response_json :: "generation_response \<Rightarrow> json" where
  "response_json r = JObj [(''id'', JStr (rs_id r)), (''model'', JStr (rs_model r)),
     (''output'', JObj [(''role'', JStr (role_value (msg_role (rs_output r)))),
        (''content'', JStr (msg_content (rs_output r))),
        (''tool_calls'', JArr (map call_json (msg_tool_calls (rs_output r))))]),
     (''usage'', opt_json usage_json (rs_usage r))]"

definition serialize_response :: "generation_response \<Rightarrow> string" where
  "serialize_response r = dumps_compact (response_json r)"

definition call_of_json :: "json \<Rightarrow> exn + tool_call" where
  "call_of_json item =
     bind_r (py_item item ''id'') (\<lambda>i. bind_r (py_item item ''name'') (\<lambda>n. bind_r (py_item item ''arguments'') (\<lambda>a.
     bind_r (as_str i) (\<lambda>i. bind_r (as_str n) (\<lambda>n. bind_r (as_str a) (\<lambda>a. mk_tool_call i n a))))))"

definition usage_of_json :: "json \<Rightarrow> exn + token_usage" where
  "usage_of_json j =
     bind_r (py_item j ''input_tokens'') (\<lambda>i. bind_r (py_item j ''output_tokens'') (\<lambda>n.
     bind_r (as_int i) (\<lambda>i. bind_r (as_int n) (\<lambda>n. mk_token_usage i n))))"

definition role_of_json :: "json \<Rightarrow> exn + message_role" where
  "role_of_json j = (case j of JStr s \<Rightarrow> message_role_of s | _ \<Rightarrow> Inl (ValueError ''not a valid MessageRole''))"

definition response_of_json :: "json \<Rightarrow> exn + generation_response" where
  "response_of_json data =
     bind_r (py_get data ''usage'') (\<lambda>usage_data.
     bind_r (case usage_data of None \<Rightarrow> Inr None | Some JNull \<Rightarrow> Inr None
             | Some u \<Rightarrow> map_r Some (usage_of_json u)) (\<lambda>usage.
     bind_r (py_item data ''id'') (\<lambda>rid. bind_r (py_item data ''model'') (\<lambda>model.
     bind_r (py_item data ''output'') (\<lambda>out.
     bind_r (py_item out ''role'') (\<lambda>role. bind_r (role_of_json role) (\<lambda>role.
     bind_r (py_item out ''content'') (\<lambda>content.
     bind_r (py_get_or out ''tool_calls'' (JArr [])) (\<lambda>calls. bind_r (py_iter calls) (\<lambda>calls.
     bind_r (traverse call_of_json calls) (\<lambda>calls.
     bind_r (as_str content) (\<lambda>content. bind_r (mk_message role content None None calls) (\<lambda>msg.
     bind_r (as_str rid) (\<lambda>rid. bind_r (as_str model) (\<lambda>model.
     mk_generation_response rid model msg usage False)))))))))))))))"

definition deserialize_response :: "string \<Rightarrow> exn + generation_response" where
  "deserialize_response payload = (case loads payload of None \<Rightarrow> Inl JSONDecodeError | Some data \<Rightarrow> response_of_json data)"

section \<open>Round trip\<close>

text \<open>A response built by the constructors of its parts.\<close>

definition response_built :: "generation_response \<Rightarrow> bool" where
  "response_built r \<longleftrightarrow> generation_response_ok r \<and> message_ok (rs_output r) \<and>
     (\<forall>c\<in>set (msg_tool_calls (rs_output r)). tool_call_ok c) \<and> (\<forall>u. rs_usage r = Some u \<longrightarrow> token_usage_ok u)"

text \<open>What a stored response keeps: the cached flag and a message name are not part of the payload.\<close>

definition stored_copy :: "generation_response \<Rightarrow> generation_response" where
  "stored_copy r = r\<lparr>rs_cached := False, rs_output := (rs_output r)\<lparr>msg_name := None\<rparr>\<rparr>"

lemma response_json_plain: "json_plain (response_json r)"
  by (auto simp: response_json_def call_json_def usage_json_def opt_json_def split: option.split)

lemma call_of_call_json: "tool_call_ok c \<Longrightarrow> call_of_json (call_json c) = Inr c"
  by (cases c) (simp add: call_of_json_def call_json_def py_item_def dict_get_def mk_tool_call_Inr)

lemma usage_of_usage_json: "token_usage_ok u \<Longrightarrow> usage_of_json (usage_json u) = Inr u"
  by (cases u) (simp add: usage_of_json_def usage_json_def py_item_def dict_get_def as_int_def mk_token_usage_Inr)

lemma usage_json_not_null: "usage_json u \<noteq> JNull"
  by (simp add: usage_json_def)

lemma traverse_calls: "\<forall>c\<in>set cs. tool_call_ok c \<Longrightarrow> traverse call_of_json (map call_json cs) = Inr cs"
  by (induction cs) (auto simp: call_of_call_json)

lemma response_of_response_json:
  assumes "response_built r"
  shows "response_of_json (response_json r) = Inr (stored_copy r)"
proof -
  obtain i m out u c where r: "r = \<lparr>rs_id = i, rs_model = m, rs_output = out, rs_usage = u, rs_cached = c\<rparr>" by (cases r)
  obtain role content tcid name calls where out: "out = \<lparr>msg_role = role, msg_content = content,
      msg_tool_call_id = tcid, msg_name = name, msg_tool_calls = calls\<rparr>" by (cases out)
  have ok: "\<not> blank i" "\<not> blank m" "role = ASSISTANT" "tcid = None" "\<forall>c\<in>set calls. tool_call_ok c"
      "\<And>v. u = Some v \<Longrightarrow> token_usage_ok v" "calls = [] \<Longrightarrow> \<not> blank content"
    using assms by (auto simp: response_built_def generation_response_ok_def message_ok_def r out)
  have usage: "(case opt_json usage_json u of JNull \<Rightarrow> Inr None | x \<Rightarrow> map_r Some (usage_of_json x)) = (Inr u :: exn + _)"
    using ok(6) by (cases u) (auto simp: opt_json_def usage_of_usage_json usage_json_not_null usage_json_def
        usage_of_usage_json [unfolded usage_json_def])
  have msg: "mk_message ASSISTANT content None None calls = Inr \<lparr>msg_role = ASSISTANT, msg_content = content,
      msg_tool_call_id = None, msg_name = None, msg_tool_calls = calls\<rparr>"
    using ok(7) by (auto simp: mk_message_Inr message_ok_def)
  have resp: "mk_generation_response i m \<lparr>msg_role = ASSISTANT, msg_content = content,
      msg_tool_call_id = None, msg_name = None, msg_tool_calls = calls\<rparr> u False = Inr (stored_copy r)"
    using ok by (simp add: mk_generation_response_Inr generation_response_ok_def stored_copy_def r out)
  show ?thesis
    using msg resp usage
    by (simp add: response_of_json_def response_json_def r out ok(3) py_get_def py_get_or_def py_item_def py_iter_def
        dict_get_def role_of_json_def message_role_of_def traverse_calls [OF ok(5)] as_str_def)
qed

lemma deserialize_serialize: "response_built r \<Longrightarrow> deserialize_response (serialize_response r) = Inr (stored_copy r)"
  by (simp add: deserialize_response_def serialize_response_def loads_dumps response_json_plain response_of_response_json)

lemma stored_copy_idem [simp]: "stored_copy (stored_copy r) = stored_copy r"
  by (simp add: stored_copy_def)

lemma stored_copy_built: "response_built r \<Longrightarrow> response_built (stored_copy r)"
  by (auto simp: response_built_def stored_copy_def generation_response_ok_def message_ok_def)

text \<open>Whatever payload is read back, the response has gone through every constructor.\<close>

lemma call_of_json_ok: "call_of_json j = Inr c \<Longrightarrow> tool_call_ok c"
  by (auto simp: call_of_json_def bind_r_eq_Inr mk_tool_call_Inr)

lemma usage_of_json_ok: "usage_of_json j = Inr u \<Longrightarrow> token_usage_ok u"
  by (auto simp: usage_of_json_def bind_r_eq_Inr mk_token_usage_Inr)

lemma usage_field_ok:
  "(case x of None \<Rightarrow> Inr None | Some JNull \<Rightarrow> Inr None | Some u \<Rightarrow> map_r Some (usage_of_json u)) = Inr (Some v) \<Longrightarrow>
   token_usage_ok v"
  by (auto simp: map_r_eq_Inr usage_of_json_ok split: option.splits json.splits)

lemma deserialize_built: "deserialize_response p = Inr r \<Longrightarrow> response_built r \<and> \<not> rs_cached r"
proof -
  assume "deserialize_response p = Inr r"
  then obtain data where "response_of_json data = Inr r" by (auto simp: deserialize_response_def split: option.splits)
  then obtain ud usage xs calls role content msg rid model
    where u: "(case ud of None \<Rightarrow> Inr None | Some JNull \<Rightarrow> Inr None | Some u \<Rightarrow> map_r Some (usage_of_json u)) = Inr usage"
      and calls: "traverse call_of_json xs = Inr calls" and msg: "mk_message role content None None calls = Inr msg"
      and resp: "mk_generation_response rid model msg usage False = Inr r"
    unfolding response_of_json_def bind_r_eq_Inr by blast
  have "\<forall>c\<in>set calls. tool_call_ok c" using traverse_mem [OF calls] call_of_json_ok by blast
  moreover have "usage = Some v \<Longrightarrow> token_usage_ok v" for v using usage_field_ok u by blast
  ultimately show ?thesis using msg resp
    by (auto simp: mk_message_Inr mk_generation_response_Inr response_built_def)
qed

section \<open>Fingerprints\<close>

definition message_json :: "message \<Rightarrow> json" where
  "message_json m = JObj [(''content'', JStr (msg_content m)), (''name'', opt_json JStr (msg_name m)),
     (''role'', JStr (role_value (msg_role m))), (''tool_call_id'', opt_json JStr (msg_tool_call_id m)),
     (''tool_calls'', JArr (map (\<lambda>c. JObj [(''arguments'', JStr (tc_arguments c)), (''id'', JStr (tc_id c)),
        (''name'', JStr (tc_name c))]) (msg_tool_calls m)))]"

definition tool_json :: "tool_definition \<Rightarrow> json" where
  "tool_json t = JObj [(''description'', JStr (td_description t)), (''name'', JStr (td_name t)),
     (''parameters'', td_parameters t)]"

definition request_json :: "generation_request \<Rightarrow> json" where
  "request_json r = JObj [(''max_output_tokens'', opt_json JInt (gr_max_output_tokens r)),
     (''messages'', JArr (map message_json (gr_messages r))), (''model'', JStr (gr_model r)),
     (''temperature'', opt_json JFloat (gr_temperature r)), (''tools'', JArr (map tool_json (gr_tools r)))]"

definition canonical_request :: "generation_request \<Rightarrow> string" where
  "canonical_request r = dumps_compact (sort_keys (request_json r))"

definition fingerprint_generation_request :: "generation_request \<Rightarrow> string" where
  "fingerprint_generation_request r = sha256_hex (canonical_request r)"

text \<open>The canonical text determines the request, up to the order of members inside tool parameters.\<close>

lemma sort_keys_atom [simp]: "sort_keys (opt_json JStr x) = opt_json JStr x" "sort_keys (opt_json JInt y) = opt_json JInt y"
    "sort_keys (opt_json JFloat z) = opt_json JFloat z"
  by (simp_all add: opt_json_def split: option.split)

lemma opt_json_inj: "opt_json JStr x = opt_json JStr x' \<longleftrightarrow> x = x'" "opt_json JInt y = opt_json JInt y' \<longleftrightarrow> y = y'"
  by (auto simp: opt_json_def split: option.splits)

lemma sort_keys_message [simp]: "sort_keys (message_json m) = message_json m"
  by (simp add: message_json_def sort_key_def comp_def)

lemma sort_keys_tool [simp]: "sort_keys (tool_json t) = tool_json (t\<lparr>td_parameters := sort_keys (td_parameters t)\<rparr>)"
  by (simp add: tool_json_def)

definition sort_tools :: "generation_request \<Rightarrow> generation_request" where
  "sort_tools r = r\<lparr>gr_tools := map (\<lambda>t. t\<lparr>td_parameters := sort_keys (td_parameters t)\<rparr>) (gr_tools r)\<rparr>"

lemma sort_tools_sel: "gr_model (sort_tools r) = gr_model r" "gr_messages (sort_tools r) = gr_messages r"
    "gr_max_output_tokens (sort_tools r) = gr_max_output_tokens r" "gr_temperature (sort_tools r) = gr_temperature r"
  by (simp_all add: sort_tools_def)

lemma sort_keys_request [simp]: "sort_keys (request_json r) = request_json (sort_tools r)"
  by (simp add: request_json_def sort_tools_def comp_def)

lemma json_plain_sort_keys: "json_plain j \<Longrightarrow> json_plain (sort_keys j)"
proof (induction j rule: sort_keys.induct)
  case (2 kvs)
  have "distinct (map fst (sort_key fst (map (\<lambda>kv. (fst kv, sort_keys (snd kv))) kvs)))"
    using 2(2) by (simp add: distinct_map inj_on_def comp_def distinct_sort)
      (metis (no_types, lifting) prod.collapse)
  then show ?case using 2 by auto
qed auto

definition float_free :: "generation_request \<Rightarrow> bool" where
  "float_free r \<longleftrightarrow> gr_temperature r = None \<and> (\<forall>t\<in>set (gr_tools r). json_plain (td_parameters t))"

lemma request_json_plain: "float_free r \<Longrightarrow> json_plain (request_json (sort_tools r))"
  by (auto simp: request_json_def float_free_def sort_tools_def message_json_def tool_json_def opt_json_def
      json_plain_sort_keys split: option.split)

lemma message_json_inj: "message_json m = message_json m' \<Longrightarrow> m = m'"
proof -
  assume eq: "message_json m = message_json m'"
  have role: "role_value r = role_value r' \<Longrightarrow> r = r'" for r r' by (cases r; cases r') simp_all
  have calls: "map (\<lambda>c. JObj [(''arguments'', JStr (tc_arguments c)), (''id'', JStr (tc_id c)), (''name'', JStr (tc_name c))]) cs =
      map (\<lambda>c. JObj [(''arguments'', JStr (tc_arguments c)), (''id'', JStr (tc_id c)), (''name'', JStr (tc_name c))]) cs' \<Longrightarrow>
      cs = cs'" for cs cs' :: "tool_call list"
    by (erule map_injective) (auto intro!: injI)
  with eq role show ?thesis
    by (cases m; cases m') (auto simp: message_json_def opt_json_inj dest!: calls role)
qed

lemma tool_json_inj: "tool_json t = tool_json t' \<longleftrightarrow> t = t'"
  by (cases t; cases t') (auto simp: tool_json_def)

section \<open>Properties\<close>

text \<open>What is stored is replayed. A response assembled by the validating constructors is read back from its
  stored payload with the same identifier, model, output, tool calls and usage; only the cached flag and the
  message name, which are not stored, are reset.\<close>

theorem stored_response_roundtrip:
  assumes "response_built r"
  shows "deserialize_response (serialize_response r) = Inr (stored_copy r) \<and> rs_id (stored_copy r) = rs_id r \<and>
    rs_model (stored_copy r) = rs_model r \<and> rs_usage (stored_copy r) = rs_usage r \<and>
    msg_content (rs_output (stored_copy r)) = msg_content (rs_output r) \<and>
    msg_tool_calls (rs_output (stored_copy r)) = msg_tool_calls (rs_output r) \<and> \<not> rs_cached (stored_copy r)"
  using deserialize_serialize [OF assms] by (simp add: stored_copy_def)

lemma stored_response_roundtrip_witness:
  "deserialize_response (serialize_response (sample_response ''m'')) = Inr (sample_response ''m'')"
proof -
  have "response_built (sample_response ''m'')"
    by (simp add: response_built_def sample_response_def assistant_message_def generation_response_ok_def message_ok_def
        token_usage_ok_def is_space_def)
  from stored_response_roundtrip [OF this] show ?thesis
    by (simp add: stored_copy_def sample_response_def assistant_message_def)
qed

text \<open>C29: the cache never mixes requests. Two requests without a temperature and with float-free tool schemas have
  the same canonical text, the only input of the fingerprint, exactly when model, messages, output limit and
  tools agree, tool schemas being compared up to the order of their members; the streaming and cache flags do
  not count.\<close>

theorem fingerprint_text_determines:
  assumes "float_free r" and "float_free r'"
  shows "canonical_request r = canonical_request r' \<longleftrightarrow>
    gr_model r = gr_model r' \<and> gr_messages r = gr_messages r' \<and>
    gr_max_output_tokens r = gr_max_output_tokens r' \<and> gr_tools (sort_tools r) = gr_tools (sort_tools r')"
proof
  assume "canonical_request r = canonical_request r'"
  then have "loads (dumps_compact (request_json (sort_tools r))) = loads (dumps_compact (request_json (sort_tools r')))"
    by (simp add: canonical_request_def)
  then have "request_json (sort_tools r) = request_json (sort_tools r')"
    by (simp add: loads_dumps request_json_plain assms)
  then show "gr_model r = gr_model r' \<and> gr_messages r = gr_messages r' \<and>
      gr_max_output_tokens r = gr_max_output_tokens r' \<and> gr_tools (sort_tools r) = gr_tools (sort_tools r')"
    using map_injective [of message_json "gr_messages r" "gr_messages r'"] message_json_inj
      map_injective [of tool_json "gr_tools (sort_tools r)" "gr_tools (sort_tools r')"] tool_json_inj
    by (auto simp: request_json_def opt_json_inj sort_tools_def inj_def)
next
  assume "gr_model r = gr_model r' \<and> gr_messages r = gr_messages r' \<and>
      gr_max_output_tokens r = gr_max_output_tokens r' \<and> gr_tools (sort_tools r) = gr_tools (sort_tools r')"
  then have "request_json (sort_tools r) = request_json (sort_tools r')"
    using assms unfolding request_json_def sort_tools_sel float_free_def by simp
  then show "canonical_request r = canonical_request r'" by (simp add: canonical_request_def)
qed

lemma fingerprint_text_determines_witness:
  "canonical_request (sample_request ''m'') \<noteq> canonical_request (sample_request ''n'')"
  using fingerprint_text_determines [of "sample_request ''m''" "sample_request ''n''"]
  by (simp add: float_free_def sample_request_def)

end
