(* ===== verification/Upstream.thy ===== *)
theory Upstream
  imports Sse Executor ResponseStore
begin

text \<open>
  What the three provider adapters share: the HTTP client they are given (httpx, a parameter), the
  type tests on decoded payloads, the request and reply handling around a JSON call, and the loop
  over the events of a streamed reply. The contract \<open>sound_provider\<close> states what the rest of the
  program relies on in an adapter; its clients are proved against the contract.
\<close>

section \<open>The HTTP client\<close>

text \<open>
  A call of the client changes a state \<open>'u\<close> of the world outside and either raises
  \<open>httpx.HTTPError\<close> (\<open>Inl ()\<close>) or gives a reply. A streamed reply is its status, its lines, and
  whether reading fails after them.
\<close>

record http_request =
  hq_url :: string
  hq_params :: "(string \<times> string) list"
  hq_headers :: "(string \<times> string) list"
  hq_json :: json

record http_reply =
  hp_status :: int
  hp_text :: string

record stream_reply =
  hr_status :: int
  hr_lines :: "string list"
  hr_broken :: bool

record 'u http_client =
  hc_post :: "http_request \<Rightarrow> 'u \<Rightarrow> (unit + http_reply) \<times> 'u"
  hc_stream :: "http_request \<Rightarrow> 'u \<Rightarrow> (unit + stream_reply) \<times> 'u"

record 'u adapter =
  ad_api_key :: string
  ad_http_client :: "'u http_client"
  ad_base_url :: string

section \<open>Type tests\<close>

text \<open>\<open>d.get(key)\<close> followed by \<open>isinstance\<close>: the value when it is there and of that type.\<close>

definition get_str :: "(string, json) dict \<Rightarrow> string \<Rightarrow> string option" where
  "get_str d key = (case dict_get d key of Some (JStr s) \<Rightarrow> Some s | _ \<Rightarrow> None)"

definition get_obj :: "(string, json) dict \<Rightarrow> string \<Rightarrow> (string, json) dict option" where
  "get_obj d key = (case dict_get d key of Some (JObj kvs) \<Rightarrow> Some kvs | _ \<Rightarrow> None)"

definition get_list :: "(string, json) dict \<Rightarrow> string \<Rightarrow> json list option" where
  "get_list d key = (case dict_get d key of Some (JArr xs) \<Rightarrow> Some xs | _ \<Rightarrow> None)"

text \<open>\<open>bool\<close> is a subclass of \<open>int\<close>.\<close>

definition get_int :: "(string, json) dict \<Rightarrow> string \<Rightarrow> int option" where
  "get_int d key = (case dict_get d key of Some (JInt i) \<Rightarrow> Some i
     | Some (JBool b) \<Rightarrow> Some (if b then 1 else 0) | _ \<Rightarrow> None)"

text \<open>\<open>d.get(key) is None\<close>.\<close>

definition get_none :: "(string, json) dict \<Rightarrow> string \<Rightarrow> bool" where
  "get_none d key = (case dict_get d key of None \<Rightarrow> True | Some j \<Rightarrow> j = JNull)"

text \<open>A string that is there and not blank, else the fallback.\<close>

definition str_or :: "(string, json) dict \<Rightarrow> string \<Rightarrow> string \<Rightarrow> string" where
  "str_or d key dflt = (case get_str d key of Some s \<Rightarrow> (if blank s then dflt else s) | None \<Rightarrow> dflt)"

lemmas get_simps = get_str_def get_obj_def get_list_def get_int_def get_none_def str_or_def dict_get_def

lemma str_or_not_blank: "\<not> blank dflt \<Longrightarrow> \<not> blank (str_or d key dflt)"
  by (simp add: str_or_def split: option.split)

section \<open>Calls and replies\<close>

definition provider_err :: "provider_class \<Rightarrow> string \<Rightarrow> exn" where
  "provider_err cls msg = ProviderErr (mk_provider_error cls msg False None)"

definition err_unless :: "provider_class \<Rightarrow> bool \<Rightarrow> string \<Rightarrow> exn + unit" where
  "err_unless cls b msg = (if b then Inr () else Inl (provider_err cls msg))"

text \<open>
  The constructor of an adapter: both settings must not be blank; slashes at the end of the base
  URL are cut.
\<close>

definition mk_adapter :: "provider_class \<Rightarrow> string \<Rightarrow> 'u http_client \<Rightarrow> string \<Rightarrow> exn + 'u adapter" where
  "mk_adapter cls api_key client base_url =
     bind_r (err_unless cls (\<not> blank api_key) ''api_key must not be empty or blank'') (\<lambda>_.
     bind_r (err_unless cls (\<not> blank base_url) ''base_url must not be empty or blank'') (\<lambda>_.
     Inr \<lparr>ad_api_key = api_key, ad_http_client = client, ad_base_url = rstrip_char (CHR ''/'') base_url\<rparr>))"

text \<open>The failure of a call whose status is 400 or above.\<close>

definition status_error :: "provider_class \<Rightarrow> string \<Rightarrow> int \<Rightarrow> exn" where
  "status_error cls vendor status =
     ProviderErr (from_http_status cls (vendor @ '' HTTP request failed with status '' @ str_of_int status) status)"

definition transport_error :: "provider_class \<Rightarrow> string \<Rightarrow> exn" where
  "transport_error cls vendor = ProviderErr (transient_error cls (vendor @ '' HTTP request failed''))"

text \<open>\<open>response.json()\<close> and the check that it is an object.\<close>

definition reply_payload :: "provider_class \<Rightarrow> string \<Rightarrow> http_reply \<Rightarrow> exn + (string, json) dict" where
  "reply_payload cls vendor reply =
     (if 400 \<le> hp_status reply then Inl (status_error cls vendor (hp_status reply))
      else case loads (hp_text reply) of
        None \<Rightarrow> Inl (provider_err cls (vendor @ '' response body is not valid JSON''))
      | Some (JObj payload) \<Rightarrow> Inr payload
      | Some _ \<Rightarrow> Inl (provider_err cls (vendor @ '' response body must be a JSON object'')))"

definition post_json ::
    "provider_class \<Rightarrow> string \<Rightarrow> 'u http_client \<Rightarrow> http_request \<Rightarrow> 'u \<Rightarrow> (exn + (string, json) dict) \<times> 'u" where
  "post_json cls vendor client req u = (case hc_post client req u of
     (Inl _, u') \<Rightarrow> (Inl (transport_error cls vendor), u')
   | (Inr reply, u') \<Rightarrow> (reply_payload cls vendor reply, u'))"

text \<open>The last two \<open>except\<close> clauses of the payload readers.\<close>

definition except_malformed :: "provider_class \<Rightarrow> string \<Rightarrow> exn + 'a \<Rightarrow> exn + 'a" where
  "except_malformed cls vendor r = (case r of
     Inl e \<Rightarrow> Inl (if is_malformed_payload e then provider_err cls (vendor @ '' response payload is malformed'') else e)
   | Inr x \<Rightarrow> Inr x)"

section \<open>Streamed replies\<close>

text \<open>
  One round of the loop over the events: it may yield a delta, and then raises, leaves the loop or
  goes on with a new state.
\<close>

datatype 'st flow = Fail exn | Stop 'st | Go 'st

type_synonym 'st event_step = "sse_event \<Rightarrow> 'st \<Rightarrow> generation_delta list \<times> 'st flow"

fun run_events :: "'st event_step \<Rightarrow> sse_event list \<Rightarrow> 'st \<Rightarrow> generation_delta list \<times> 'st flow" where
  "run_events step [] st = ([], Go st)"
| "run_events step (ev # evs) st = (case step ev st of
     (ds, Go st') \<Rightarrow> (case run_events step evs st' of (ds', r) \<Rightarrow> (ds @ ds', r))
   | (ds, r) \<Rightarrow> (ds, r))"

text \<open>A reading that fails part-way has completed only the events before the failure.\<close>

definition stream_events :: "stream_reply \<Rightarrow> sse_event list" where
  "stream_events reply = (if hr_broken reply then fst (sse_scan (hr_lines reply) None []) else iter_sse_events (hr_lines reply))"

definition run_stream :: "'st event_step \<Rightarrow> stream_reply \<Rightarrow> 'st \<Rightarrow> generation_delta list \<times> 'st flow" where
  "run_stream step reply st = (case run_events step (stream_events reply) st of
     (ds, Go st') \<Rightarrow> (ds, if hr_broken reply then Fail HTTPError else Go st')
   | (ds, r) \<Rightarrow> (ds, r))"

text \<open>
  The streaming method around the loop: the call, the status, the loop, the two \<open>except\<close> clauses,
  and what follows the loop, which builds the completed response from the final state.
\<close>

definition yield_completed :: "generation_delta list \<Rightarrow> exn + generation_response \<Rightarrow> stream_event list \<times> exn option" where
  "yield_completed ds res = (case res of
     Inl e \<Rightarrow> (map Delta ds, Some e) | Inr r \<Rightarrow> (map Delta ds @ [Completed r], None))"

definition end_stream ::
    "exn \<Rightarrow> ('st \<Rightarrow> exn + generation_response) \<Rightarrow> generation_delta list \<times> 'st flow \<Rightarrow> stream_event list \<times> exn option" where
  "end_stream transport finish res = (case res of
     (ds, Fail e) \<Rightarrow> (map Delta ds, Some (if e = HTTPError then transport else e))
   | (ds, Stop st) \<Rightarrow> yield_completed ds (finish st)
   | (ds, Go st) \<Rightarrow> yield_completed ds (finish st))"

definition stream_json ::
    "provider_class \<Rightarrow> string \<Rightarrow> 'u http_client \<Rightarrow> http_request \<Rightarrow> 'st event_step \<Rightarrow> 'st \<Rightarrow>
     ('st \<Rightarrow> exn + generation_response) \<Rightarrow> 'u \<Rightarrow> (stream_event list \<times> exn option) \<times> 'u" where
  "stream_json cls vendor client req step st0 finish u = (case hc_stream client req u of
     (Inl _, u') \<Rightarrow> (([], Some (transport_error cls vendor)), u')
   | (Inr reply, u') \<Rightarrow>
       (if 400 \<le> hr_status reply then (([], Some (status_error cls vendor (hr_status reply))), u')
        else (end_stream (transport_error cls vendor) finish (run_stream step reply st0), u')))"

text \<open>What the loops of the adapters assemble.\<close>

record stream_state =
  ss_id :: string
  ss_model :: string
  ss_assembled :: "string list"
  ss_usage :: "token_usage option"

definition stream_start :: "generation_request \<Rightarrow> stream_state" where
  "stream_start req = \<lparr>ss_id = [], ss_model = gr_model req, ss_assembled = [], ss_usage = None\<rparr>"

text \<open>Appending a piece of text and yielding its delta; the identifier must be known by then.\<close>

definition yield_delta :: "provider_class \<Rightarrow> string \<Rightarrow> string \<Rightarrow> stream_state \<Rightarrow> generation_delta list \<times> stream_state flow" where
  "yield_delta cls vendor content st =
     (if blank (ss_id st) then ([], Fail (provider_err cls (vendor @ '' stream is missing a valid id'')))
      else case mk_generation_delta (ss_id st) (ss_model st) content of
        Inl e \<Rightarrow> ([], Fail e)
      | Inr d \<Rightarrow> ([d], Go (st\<lparr>ss_assembled := ss_assembled st @ [content]\<rparr>)))"

text \<open>\<open>if isinstance(text, str) and text:\<close> before the yield; then the rest of the round.\<close>

definition emit_text :: "provider_class \<Rightarrow> string \<Rightarrow> string option \<Rightarrow> stream_state \<Rightarrow> generation_delta list \<times> stream_state flow" where
  "emit_text cls vendor content st = (case content of None \<Rightarrow> ([], Go st)
     | Some t \<Rightarrow> if t = [] then ([], Go st) else yield_delta cls vendor t st)"

definition then_flow :: "generation_delta list \<times> 'st flow \<Rightarrow> ('st \<Rightarrow> 'st flow) \<Rightarrow> generation_delta list \<times> 'st flow" where
  "then_flow m f = (case m of (ds, Go st) \<Rightarrow> (ds, f st) | (ds, r) \<Rightarrow> (ds, r))"

definition complete_stream :: "stream_state \<Rightarrow> exn + generation_response" where
  "complete_stream st =
     bind_r (mk_message ASSISTANT (concat (ss_assembled st)) None None []) (\<lambda>output.
     mk_generation_response (ss_id st) (ss_model st) output (ss_usage st) False)"

text \<open>\<open>try: payload = json.loads(data)\<close> and the object check of a stream chunk.\<close>

definition chunk_payload :: "provider_class \<Rightarrow> string \<Rightarrow> string \<Rightarrow> exn + (string, json) dict" where
  "chunk_payload cls vendor data = (case loads data of
     None \<Rightarrow> Inl (provider_err cls (vendor @ '' stream chunk is not valid JSON''))
   | Some (JObj payload) \<Rightarrow> Inr payload
   | Some _ \<Rightarrow> Inl (provider_err cls (vendor @ '' stream chunk must be a JSON object'')))"

text \<open>A field of a request body that is there when the option is.\<close>

definition opt_field :: "string \<Rightarrow> ('a \<Rightarrow> json) \<Rightarrow> 'a option \<Rightarrow> (string \<times> json) list" where
  "opt_field k f x = (case x of None \<Rightarrow> [] | Some v \<Rightarrow> [(k, f v)])"

text \<open>\<open>_split_system_messages\<close>, alike in the Anthropic and the Gemini adapter.\<close>

definition split_system_messages :: "generation_request \<Rightarrow> string option \<times> message list" where
  "split_system_messages req =
     (let system_parts = map msg_content (filter (\<lambda>m. msg_role m = SYSTEM) (gr_messages req)) in
      (if system_parts \<noteq> [] then Some (join [newline, newline] system_parts) else None,
       filter (\<lambda>m. msg_role m \<noteq> SYSTEM) (gr_messages req)))"

section \<open>The contract of a provider\<close>

definition messages_ok :: "generation_request \<Rightarrow> bool" where
  "messages_ok req \<longleftrightarrow> (\<forall>m\<in>set (gr_messages req). message_ok m)"

text \<open>
  What the executor and the use cases may rely on: a call that fails raises a provider error of the
  adapter's class, so retries and failover apply; a response it returns is built by the domain's
  constructors and is not marked as cached. A stream that ends well is deltas and then one completed
  response whose text is theirs; a stream that fails has only deltas before the failure, which is a
  provider error or the validation error of a response that cannot be built.
\<close>

definition own_error :: "provider_class \<Rightarrow> exn \<Rightarrow> bool" where
  "own_error cls e = (case e of ProviderErr err \<Rightarrow> pe_class err = cls | _ \<Rightarrow> False)"

definition own_or_validation :: "provider_class \<Rightarrow> exn \<Rightarrow> bool" where
  "own_or_validation cls e \<longleftrightarrow> own_error cls e \<or> is_validation_error e"

definition built_here :: "generation_response \<Rightarrow> bool" where
  "built_here r \<longleftrightarrow> response_built r \<and> \<not> rs_cached r"

definition generate_outcome_ok :: "provider_class \<Rightarrow> exn + generation_response \<Rightarrow> bool" where
  "generate_outcome_ok cls res = (case res of Inl e \<Rightarrow> own_error cls e | Inr r \<Rightarrow> built_here r)"

definition stream_outcome_ok :: "provider_class \<Rightarrow> stream_event list \<Rightarrow> exn option \<Rightarrow> bool" where
  "stream_outcome_ok cls evs failure = (\<exists>ds. (case failure of
       Some e \<Rightarrow> evs = map Delta ds \<and> own_or_validation cls e
     | None \<Rightarrow> (\<exists>r. evs = map Delta ds @ [Completed r] \<and> built_here r \<and>
         msg_content (rs_output r) = concat (map gd_content ds) \<and> msg_tool_calls (rs_output r) = [])))"

lemma own_error_simps [simp]:
  "own_error cls (provider_err cls m)" "own_error cls (status_error cls v st)" "own_error cls (transport_error cls v)"
  by (simp_all add: own_error_def provider_err_def status_error_def transport_error_def mk_provider_error_def
      from_http_status_def transient_error_def)

lemma not_malformed [simp]: "\<not> is_malformed_payload (provider_err cls m)"
  by (simp add: is_malformed_payload_def is_value_error_def provider_err_def)

lemma validation_malformed: "is_validation_error e \<Longrightarrow> is_malformed_payload e"
  by (simp add: is_malformed_payload_def validation_error_value_error)

lemma provider_err_not_http [simp]: "provider_err cls m \<noteq> HTTPError" "HTTPError \<noteq> provider_err cls m"
  by (simp_all add: provider_err_def)

text \<open>The exceptions an expression may raise, and how they add up.\<close>

definition raises_only :: "(exn \<Rightarrow> bool) \<Rightarrow> exn + 'a \<Rightarrow> bool" where
  "raises_only P r \<longleftrightarrow> (\<forall>e. r = Inl e \<longrightarrow> P e)"

lemma raises_only_Inr [simp]: "raises_only P (Inr x)"
  by (simp add: raises_only_def)

lemma raises_only_Inl [simp]: "raises_only P (Inl e) \<longleftrightarrow> P e"
  by (simp add: raises_only_def)

lemma raises_only_bind: "raises_only P r \<Longrightarrow> (\<And>x. r = Inr x \<Longrightarrow> raises_only P (f x)) \<Longrightarrow> raises_only P (bind_r r f)"
  by (cases r) (auto simp: raises_only_def)

lemma raises_only_map: "raises_only P r \<Longrightarrow> raises_only P (map_r f r)"
  by (cases r) auto

lemma raises_only_traverse: "(\<And>x. x \<in> set xs \<Longrightarrow> raises_only P (f x)) \<Longrightarrow> raises_only P (traverse f xs)"
  by (auto simp: raises_only_def dest: traverse_Inl_witness)

lemma raises_only_weaken: "raises_only P r \<Longrightarrow> (\<And>e. P e \<Longrightarrow> Q e) \<Longrightarrow> raises_only Q r"
  by (auto simp: raises_only_def)

lemma err_unless_Inr [simp]: "err_unless cls b m = Inr u \<longleftrightarrow> b"
  by (simp add: err_unless_def)

definition own_or_malformed :: "provider_class \<Rightarrow> exn \<Rightarrow> bool" where
  "own_or_malformed cls e \<longleftrightarrow> own_error cls e \<or> is_malformed_payload e"

named_theorems raising \<open>what the pieces of an adapter raise\<close>

lemma raises_err [simp]: "own_or_malformed cls (provider_err cls m)" "own_or_validation cls (provider_err cls m)"
  by (simp_all add: own_or_malformed_def own_or_validation_def)

lemma raises_err_unless [raising]:
  "raises_only (own_or_malformed cls) (err_unless cls b m)" "raises_only (own_or_validation cls) (err_unless cls b m)"
    "raises_only (own_error cls) (err_unless cls b m)"
  by (simp_all add: err_unless_def)

lemma validation_raises: "raises_only is_validation_error r \<Longrightarrow> raises_only (own_or_validation cls) r"
    "raises_only is_validation_error r \<Longrightarrow> raises_only (own_or_malformed cls) r"
  by (auto simp: raises_only_def own_or_validation_def own_or_malformed_def validation_malformed)

lemma validating_raise:
  "raises_only is_validation_error (mk_message role c t n cs)" "raises_only is_validation_error (mk_tool_call i m a)"
  "raises_only is_validation_error (mk_token_usage j k)" "raises_only is_validation_error (mk_generation_response i m msg us ca)"
  "raises_only is_validation_error (mk_generation_delta i m c)"
  by (auto simp: raises_only_def dest: constructed_Inl)
    (auto simp: mk_generation_delta_def bind_r_eq_Inl reject_iffs is_validation_error_def)

lemmas constructors_raise [raising] = validating_raise [THEN validation_raises(1)] validating_raise [THEN validation_raises(2)]

lemma except_malformed_raises: "raises_only (own_or_malformed cls) r \<Longrightarrow> raises_only (own_error cls) (except_malformed cls v r)"
  by (cases r) (auto simp: except_malformed_def own_or_malformed_def)

lemma except_malformed_Inr [simp]: "except_malformed cls v r = Inr x \<longleftrightarrow> r = Inr x"
  by (simp add: except_malformed_def split: sum.split)

lemma reply_payload_raises: "raises_only (own_error cls) (reply_payload cls vendor reply)"
  by (simp add: reply_payload_def split: option.split json.split)

lemma post_json_raises: "raises_only (own_error cls) (fst (post_json cls vendor client req u))"
  using reply_payload_raises by (auto simp: post_json_def split: prod.split sum.split)

lemma chunk_payload_raises [raising]: "raises_only (own_or_validation cls) (chunk_payload cls vendor data)"
  by (simp add: chunk_payload_def split: option.split json.split)

lemma complete_stream_raises [raising]: "raises_only (own_or_validation cls) (complete_stream st)"
  unfolding complete_stream_def by (intro raises_only_bind raising)

lemma generate_outcome_of:
  "raises_only (own_error cls) res \<Longrightarrow> (\<And>r. res = Inr r \<Longrightarrow> built_here r) \<Longrightarrow> generate_outcome_ok cls res"
  by (cases res) (auto simp: generate_outcome_ok_def)

lemma built_hereI:
  assumes "mk_message ASSISTANT content None None calls = Inr output" and "mk_generation_response i m output usage False = Inr r"
    and "\<forall>c\<in>set calls. tool_call_ok c" and "\<forall>u. usage = Some u \<longrightarrow> token_usage_ok u"
  shows "built_here r"
  using assms by (auto simp: mk_message_Inr mk_generation_response_Inr built_here_def response_built_def)

text \<open>The state of the OpenAI and Gemini loops: the usage seen last is a valid one.\<close>

definition state_ok :: "stream_state \<Rightarrow> bool" where
  "state_ok st \<longleftrightarrow> (\<forall>u. ss_usage st = Some u \<longrightarrow> token_usage_ok u)"

lemma complete_stream_ok:
  "complete_stream st = Inr r \<Longrightarrow> state_ok st \<Longrightarrow>
    built_here r \<and> msg_content (rs_output r) = concat (ss_assembled st) \<and> msg_tool_calls (rs_output r) = []"
  by (auto simp: complete_stream_def bind_r_eq_Inr state_ok_def mk_message_Inr mk_generation_response_Inr built_here_def response_built_def)

text \<open>One round yields a text and keeps the state in step with it.\<close>

definition round_ok :: "provider_class \<Rightarrow> stream_state \<Rightarrow> generation_delta list \<times> stream_state flow \<Rightarrow> bool" where
  "round_ok cls st m = (case m of
     (ds, Fail e) \<Rightarrow> own_or_validation cls e
   | (ds, Stop st') \<Rightarrow> state_ok st \<longrightarrow> state_ok st' \<and> concat (ss_assembled st') = concat (ss_assembled st) @ concat (map gd_content ds)
   | (ds, Go st') \<Rightarrow> state_ok st \<longrightarrow> state_ok st' \<and> concat (ss_assembled st') = concat (ss_assembled st) @ concat (map gd_content ds))"

definition late_ok :: "provider_class \<Rightarrow> stream_state \<Rightarrow> stream_state flow \<Rightarrow> bool" where
  "late_ok cls st r = (case r of Fail e \<Rightarrow> own_or_validation cls e
     | Stop st' \<Rightarrow> (state_ok st \<longrightarrow> state_ok st') \<and> ss_assembled st' = ss_assembled st
     | Go st' \<Rightarrow> (state_ok st \<longrightarrow> state_ok st') \<and> ss_assembled st' = ss_assembled st)"

lemma emit_text_round:
  assumes "ss_usage st1 = ss_usage st" and "ss_assembled st1 = ss_assembled st"
  shows "round_ok cls st (emit_text cls v content st1)"
  using assms validating_raise(5) [of "ss_id st1" "ss_model st1"]
  by (auto simp: round_ok_def emit_text_def yield_delta_def state_ok_def mk_generation_delta_Inr raises_only_def
      own_or_validation_def split: option.split sum.split)

lemma round_ok_fail [simp]: "round_ok cls st (ds, Fail e) \<longleftrightarrow> own_or_validation cls e"
  by (simp add: round_ok_def)

lemma round_ok_stop [simp]: "round_ok cls st ([], Stop st)"
  by (simp add: round_ok_def)

lemma then_flow_round: "round_ok cls st m \<Longrightarrow> (\<And>st2. late_ok cls st2 (f st2)) \<Longrightarrow> round_ok cls st (then_flow m f)"
  unfolding then_flow_def
proof (cases m)
  case (Pair ds r)
  assume m: "round_ok cls st m" and f: "\<And>st2. late_ok cls st2 (f st2)"
  show "round_ok cls st (case m of (ds, Go st') \<Rightarrow> (ds, f st') | (ds, r) \<Rightarrow> (ds, r))"
  proof (cases r)
    case (Go st2)
    with m Pair f [of st2] show ?thesis by (cases "f st2") (auto simp: round_ok_def late_ok_def)
  qed (use m Pair in auto)
qed

text \<open>
  A loop over the events of a reply keeps the contract when its state stands for the text yielded so
  far and everything it raises is the adapter's own error or a validation error.
\<close>

locale event_loop =
  fixes cls :: provider_class
    and step :: "'st event_step"
    and start :: 'st
    and finish :: "'st \<Rightarrow> exn + generation_response"
    and text_so_far :: "'st \<Rightarrow> string"
    and inv :: "'st \<Rightarrow> bool"
  assumes start_text: "text_so_far start = []"
    and start_inv: "inv start"
    and step_text: "step ev st = (ds, fl) \<Longrightarrow> fl = Go st' \<or> fl = Stop st' \<Longrightarrow> inv st \<Longrightarrow>
      inv st' \<and> text_so_far st' = text_so_far st @ concat (map gd_content ds)"
    and step_fail: "step ev st = (ds, Fail e) \<Longrightarrow> own_or_validation cls e"
    and finish_ok: "finish st = Inr r \<Longrightarrow> inv st \<Longrightarrow>
      built_here r \<and> msg_content (rs_output r) = text_so_far st \<and> msg_tool_calls (rs_output r) = []"
    and finish_fail: "finish st = Inl e \<Longrightarrow> own_or_validation cls e"
begin

lemma run_events_text:
  "run_events step evs st = (ds, r) \<Longrightarrow> inv st \<Longrightarrow>
    (\<forall>st'. r = Go st' \<or> r = Stop st' \<longrightarrow> inv st' \<and> text_so_far st' = text_so_far st @ concat (map gd_content ds)) \<and>
    (\<forall>e. r = Fail e \<longrightarrow> own_or_validation cls e)"
proof (induction evs arbitrary: st ds r)
  case Nil
  then show ?case by auto
next
  case (Cons ev evs)
  obtain ds1 r1 where s1: "step ev st = (ds1, r1)" by (cases "step ev st")
  show ?case
  proof (cases r1)
    case (Fail e)
    with Cons.prems s1 step_fail [of ev st ds1 e] show ?thesis by auto
  next
    case (Stop st1)
    with Cons.prems s1 step_text [OF s1, of st1] show ?thesis by auto
  next
    case (Go st1)
    obtain ds2 r2 where s2: "run_events step evs st1 = (ds2, r2)" by (cases "run_events step evs st1")
    from step_text [OF s1, of st1] Go Cons.prems(2) have "inv st1"
      and "text_so_far st1 = text_so_far st @ concat (map gd_content ds1)" by auto
    with Cons.IH [OF s2] Cons.prems(1) s1 s2 Go show ?thesis by auto
  qed
qed

lemma run_stream_text:
  assumes "run_stream step reply start = (ds, r)"
  shows "(\<forall>st. r = Go st \<or> r = Stop st \<longrightarrow> inv st \<and> text_so_far st = concat (map gd_content ds)) \<and>
    (\<forall>e. r = Fail e \<longrightarrow> e = HTTPError \<or> own_or_validation cls e)"
proof -
  obtain ds1 r1 where run: "run_events step (stream_events reply) start = (ds1, r1)"
    by (cases "run_events step (stream_events reply) start")
  show ?thesis
    using assms run run_events_text [OF run start_inv] start_text
    by (cases r1) (auto simp: run_stream_def split: if_splits)
qed

lemma yield_completed_ok:
  assumes "inv st" and "text_so_far st = concat (map gd_content ds)" and "yield_completed ds (finish st) = (evs, failure)"
  shows "stream_outcome_ok cls evs failure"
proof (cases "finish st")
  case (Inl e)
  with finish_fail [OF Inl] assms(3) show ?thesis by (auto simp: yield_completed_def stream_outcome_ok_def)
next
  case (Inr r)
  with finish_ok [OF Inr assms(1)] assms show ?thesis by (auto simp: yield_completed_def stream_outcome_ok_def)
qed

lemma fails_ok: "own_or_validation cls e \<Longrightarrow> stream_outcome_ok cls (map Delta ds) (Some e)"
  by (auto simp: stream_outcome_ok_def)

lemma end_stream_ok:
  assumes end': "end_stream (transport_error cls vendor) finish (run_stream step reply start) = (evs, failure)"
  shows "stream_outcome_ok cls evs failure"
proof -
  obtain ds r where run: "run_stream step reply start = (ds, r)" by (cases "run_stream step reply start")
  note known = run_stream_text [OF run]
  show ?thesis
  proof (cases r)
    case (Fail e)
    with known end' run fails_ok [of _ ds] show ?thesis
      by (auto simp: end_stream_def own_or_validation_def split: if_splits)
  next
    case (Stop st)
    with known end' run show ?thesis by (intro yield_completed_ok [of st ds]) (auto simp: end_stream_def)
  next
    case (Go st)
    with known end' run show ?thesis by (intro yield_completed_ok [of st ds]) (auto simp: end_stream_def)
  qed
qed

lemma stream_json_ok:
  assumes "stream_json cls vendor client req step start finish u = ((evs, failure), u')"
  shows "stream_outcome_ok cls evs failure"
proof -
  have fails0: "stream_outcome_ok cls [] (Some e)" if "own_error cls e" for e
    using fails_ok [of e "[]"] that by (simp add: own_or_validation_def)
  show ?thesis
  proof (cases "fst (hc_stream client req u)")
    case (Inl x)
    with assms show ?thesis by (auto simp: stream_json_def split: prod.splits intro: fails0)
  next
    case (Inr reply)
    with assms show ?thesis
      by (auto simp: stream_json_def split: prod.splits if_splits intro: fails0 end_stream_ok)
  qed
qed

end

lemma state_loop:
  assumes "\<And>ev st. round_ok cls st (step ev st)"
    and "\<And>st. raises_only (own_or_validation cls) (finish st)"
    and "\<And>st r. finish st = Inr r \<Longrightarrow> complete_stream st = Inr r"
  shows "event_loop cls step (stream_start req) finish (\<lambda>st. concat (ss_assembled st)) state_ok"
proof
  fix ev st ds fl st'
  assume "step ev st = (ds, fl)" "fl = Go st' \<or> fl = Stop st'" "state_ok st"
  with assms(1) [of st ev] show "state_ok st' \<and> concat (ss_assembled st') = concat (ss_assembled st) @ concat (map gd_content ds)"
    by (auto simp: round_ok_def)
next
  fix ev st ds e
  assume "step ev st = (ds, Fail e)"
  with assms(1) [of st ev] show "own_or_validation cls e" by simp
next
  fix st e
  assume "finish st = Inl e"
  with assms(2) [of st] show "own_or_validation cls e" by (simp add: raises_only_def)
next
  fix st r
  assume "finish st = Inr r" "state_ok st"
  with assms(3) [of st r] show "built_here r \<and> msg_content (rs_output r) = concat (ss_assembled st) \<and> msg_tool_calls (rs_output r) = []"
    by (intro complete_stream_ok)
qed (simp_all add: stream_start_def state_ok_def)

locale sound_provider =
  fixes cls :: provider_class
    and p :: "'u model_provider"
    and wf :: "generation_request \<Rightarrow> bool"
  assumes generate_ok: "wf req \<Longrightarrow> generate_outcome_ok cls (fst (mp_generate p req u))"
    and stream_ok: "wf req \<Longrightarrow> case fst (mp_stream p req u) of (evs, failure) \<Rightarrow> stream_outcome_ok cls evs failure"
begin

lemma generate_with_retries_ok:
  "wf req \<Longrightarrow> generate_outcome_ok cls (fst (generate_with_retries x p req n u))"
  using gwr_last_call [of x p req n u] generate_ok [of req]
  by (cases "generate_with_retries x p req n u") (metis fst_conv)

lemma stream_with_retries_ok:
  "wf req \<Longrightarrow> case fst (stream_with_retries x p req n u) of (evs, failure) \<Rightarrow> stream_outcome_ok cls evs failure"
  using swr_last_call [of x p req n u] stream_ok [of req]
  by (cases "stream_with_retries x p req n u") (metis fst_conv)

end

end
