(* ===== verification/Entities.thy ===== *)
theory Entities
  imports Prompt
begin

text \<open>
  The tenancy entities with the validation of their constructors: organizations and API keys
  (\<open>domain/organization.py\<close>, \<open>domain/api_key.py\<close>), policy (\<open>domain/organization_policy.py\<close>), usage
  and pricing (\<open>domain/usage.py\<close>, \<open>infrastructure/pricing\<close>), audit events (\<open>domain/audit.py\<close>).
\<close>

section \<open>Organizations\<close>

datatype organization_status = OrgActive | OrgSuspended

fun organization_status_value :: "organization_status \<Rightarrow> string" where
  "organization_status_value OrgActive = ''active''"
| "organization_status_value OrgSuspended = ''suspended''"

definition organization_status_of :: "string \<Rightarrow> exn + organization_status" where
  "organization_status_of v = (if v = ''active'' then Inr OrgActive else if v = ''suspended'' then Inr OrgSuspended
     else Inl (ValueError (v @ '' is not a valid OrganizationStatus'')))"

lemma organization_status_of_value [simp]: "organization_status_of (organization_status_value s) = Inr s"
  by (cases s) (simp_all add: organization_status_of_def)

definition slug_char :: "char \<Rightarrow> bool" where
  "slug_char c = ((97 \<le> ord_of c \<and> ord_of c \<le> 122) \<or> is_digit c \<or> c = CHR ''-'')"

definition require_valid_slug :: "string \<Rightarrow> exn + unit" where
  "require_valid_slug slug =
     bind_r (require_non_blank slug ''slug'') (\<lambda>_.
     reject_if (\<not> (slug \<noteq> [] \<and> list_all slug_char slug)) ''slug must contain only lowercase letters, digits, and hyphens'')"

record organization =
  org_id :: uuid
  org_name :: string
  org_slug :: string
  org_status :: organization_status
  org_created_at :: datetime
  org_updated_at :: datetime

definition validate_organization :: "organization \<Rightarrow> exn + organization" where
  "validate_organization oz =
     bind_r (require_non_blank (org_name oz) ''name'') (\<lambda>_.
     bind_r (require_valid_slug (org_slug oz)) (\<lambda>_.
     bind_r (reject_if (\<not> aware (org_created_at oz) \<or> \<not> aware (org_updated_at oz))
        ''created_at and updated_at must be timezone-aware'') (\<lambda>_.
     Inr oz)))"

definition organization_ok :: "organization \<Rightarrow> bool" where
  "organization_ok oz \<longleftrightarrow> \<not> blank (org_name oz) \<and> org_slug oz \<noteq> [] \<and> list_all slug_char (org_slug oz) \<and>
     aware (org_created_at oz) \<and> aware (org_updated_at oz)"

lemma slug_char_not_space: "slug_char c \<Longrightarrow> \<not> is_space c"
  by (auto simp: slug_char_def is_space_def is_digit_def Let_def)

lemma validate_organization_Inr: "validate_organization oz = Inr oz' \<longleftrightarrow> oz' = oz \<and> organization_ok oz"
proof -
  have "org_slug oz \<noteq> [] \<Longrightarrow> list_all slug_char (org_slug oz) \<Longrightarrow> \<not> blank (org_slug oz)"
    by (cases "org_slug oz") (auto dest: slug_char_not_space)
  then show ?thesis
    by (auto simp: validate_organization_def require_valid_slug_def bind_r_eq_Inr organization_ok_def)
qed

section \<open>API keys\<close>

datatype api_key_status = KeyActive | KeyRevoked

fun api_key_status_value :: "api_key_status \<Rightarrow> string" where
  "api_key_status_value KeyActive = ''active''"
| "api_key_status_value KeyRevoked = ''revoked''"

definition api_key_status_of :: "string \<Rightarrow> exn + api_key_status" where
  "api_key_status_of v = (if v = ''active'' then Inr KeyActive else if v = ''revoked'' then Inr KeyRevoked
     else Inl (ValueError (v @ '' is not a valid ApiKeyStatus'')))"

lemma api_key_status_of_value [simp]: "api_key_status_of (api_key_status_value s) = Inr s"
  by (cases s) (simp_all add: api_key_status_of_def)

record api_key_metadata =
  km_id :: uuid
  km_organization_id :: uuid
  km_name :: "string option"
  km_prefix :: string
  km_status :: api_key_status
  km_created_at :: datetime
  km_revoked_at :: "datetime option"
  km_updated_at :: datetime

record api_key =
  ak_id :: uuid
  ak_organization_id :: uuid
  ak_name :: "string option"
  ak_prefix :: string
  ak_secret_hash :: string
  ak_status :: api_key_status
  ak_created_at :: datetime
  ak_revoked_at :: "datetime option"
  ak_updated_at :: datetime

definition validate_api_key :: "api_key \<Rightarrow> exn + api_key" where
  "validate_api_key k =
     bind_r (case ak_name k of None \<Rightarrow> Inr () | Some n \<Rightarrow> require_non_blank n ''name'') (\<lambda>_.
     bind_r (require_non_blank (ak_prefix k) ''prefix'') (\<lambda>_.
     bind_r (require_non_blank (ak_secret_hash k) ''secret_hash'') (\<lambda>_.
     bind_r (reject_if (\<not> aware (ak_created_at k) \<or> \<not> aware (ak_updated_at k))
        ''created_at and updated_at must be timezone-aware'') (\<lambda>_.
     bind_r (reject_if (case ak_revoked_at k of None \<Rightarrow> False | Some t \<Rightarrow> \<not> aware t)
        ''revoked_at must be timezone-aware when set'') (\<lambda>_.
     bind_r (reject_if (ak_status k = KeyRevoked \<and> ak_revoked_at k = None)
        ''revoked keys must have revoked_at set'') (\<lambda>_.
     bind_r (reject_if (ak_status k = KeyActive \<and> ak_revoked_at k \<noteq> None)
        ''active keys must not have revoked_at set'') (\<lambda>_.
     Inr k)))))))"

definition api_key_ok :: "api_key \<Rightarrow> bool" where
  "api_key_ok k \<longleftrightarrow> (\<forall>n. ak_name k = Some n \<longrightarrow> \<not> blank n) \<and> \<not> blank (ak_prefix k) \<and> \<not> blank (ak_secret_hash k) \<and>
     aware (ak_created_at k) \<and> aware (ak_updated_at k) \<and> (\<forall>t. ak_revoked_at k = Some t \<longrightarrow> aware t) \<and>
     (ak_status k = KeyRevoked \<longleftrightarrow> ak_revoked_at k \<noteq> None)"

lemma validate_api_key_Inr: "validate_api_key k = Inr k' \<longleftrightarrow> k' = k \<and> api_key_ok k"
  by (cases "ak_status k")
    (auto simp: validate_api_key_def bind_r_eq_Inr api_key_ok_def split: option.splits)

definition to_metadata :: "api_key \<Rightarrow> api_key_metadata" where
  "to_metadata k = \<lparr>km_id = ak_id k, km_organization_id = ak_organization_id k, km_name = ak_name k,
     km_prefix = ak_prefix k, km_status = ak_status k, km_created_at = ak_created_at k,
     km_revoked_at = ak_revoked_at k, km_updated_at = ak_updated_at k\<rparr>"

definition revoke_key :: "api_key \<Rightarrow> datetime \<Rightarrow> exn + api_key" where
  "revoke_key k ts =
     (if ak_status k = KeyRevoked then Inl (ApiKeyAlreadyRevokedError (ak_id k))
      else bind_r (reject_if (\<not> aware ts) ''revoke timestamp must be timezone-aware'') (\<lambda>_.
        validate_api_key (k\<lparr>ak_status := KeyRevoked, ak_revoked_at := Some ts, ak_updated_at := ts\<rparr>)))"

lemma revoke_key_Inr:
  assumes "api_key_ok k"
  shows "revoke_key k ts = Inr k' \<longleftrightarrow> ak_status k = KeyActive \<and> aware ts \<and>
     k' = k\<lparr>ak_status := KeyRevoked, ak_revoked_at := Some ts, ak_updated_at := ts\<rparr>"
  using assms
  by (cases "ak_status k") (auto simp: revoke_key_def bind_r_eq_Inr validate_api_key_Inr api_key_ok_def)

lemma api_key_ok_revoked:
  "api_key_ok k \<Longrightarrow> aware ts \<Longrightarrow>
   api_key_ok (k\<lparr>ak_status := KeyRevoked, ak_revoked_at := Some ts, ak_updated_at := ts\<rparr>)"
  by (simp add: api_key_ok_def)

section \<open>Policy\<close>

record organization_policy =
  op_organization_id :: uuid
  op_monthly_token_limit :: "int option"

definition mk_organization_policy :: "uuid \<Rightarrow> int option \<Rightarrow> exn + organization_policy" where
  "mk_organization_policy org limit =
     bind_r (reject_if (case limit of None \<Rightarrow> False | Some n \<Rightarrow> n \<le> 0)
        ''monthly_token_limit must be greater than zero when set'') (\<lambda>_.
     Inr \<lparr>op_organization_id = org, op_monthly_token_limit = limit\<rparr>)"

record model_entitlement =
  me_organization_id :: uuid
  me_model :: string

definition mk_model_entitlement :: "uuid \<Rightarrow> string \<Rightarrow> exn + model_entitlement" where
  "mk_model_entitlement org model =
     bind_r (require_non_blank model ''model'') (\<lambda>_. Inr \<lparr>me_organization_id = org, me_model = model\<rparr>)"

definition is_model_allowed :: "string \<Rightarrow> string set \<Rightarrow> bool" where
  "is_model_allowed requested_model entitlements =
     (if entitlements = {} then True else requested_model \<in> entitlements)"

definition would_exceed_monthly_quota :: "int \<Rightarrow> int \<Rightarrow> int \<Rightarrow> exn + bool" where
  "would_exceed_monthly_quota current_tokens limit estimated_additional =
     bind_r (reject_if (limit \<le> 0) ''limit must be greater than zero'') (\<lambda>_.
     bind_r (reject_if (current_tokens < 0 \<or> estimated_additional < 0) ''token counts must not be negative'') (\<lambda>_.
     Inr (limit \<le> current_tokens + estimated_additional)))"

section \<open>Usage and cost\<close>

text \<open>\<open>Decimal\<close> amounts are the rationals they denote.\<close>

record model_pricing =
  mp_input_usd :: rat
  mp_output_usd :: rat

definition mk_model_pricing :: "rat \<Rightarrow> rat \<Rightarrow> exn + model_pricing" where
  "mk_model_pricing i ot =
     bind_r (reject_if (i < 0) ''input_usd_per_1m_tokens must not be negative'') (\<lambda>_.
     bind_r (reject_if (ot < 0) ''output_usd_per_1m_tokens must not be negative'') (\<lambda>_.
     Inr \<lparr>mp_input_usd = i, mp_output_usd = ot\<rparr>))"

text \<open>
  \<open>quantize(Decimal("0.00000001"))\<close> rounds half to even to eight places. The divisions by a million
  are exact in the 28 digits of the decimal context for token counts below \<open>10 ^ 20\<close>.
\<close>

definition quantize8 :: "rat \<Rightarrow> rat" where
  "quantize8 x = of_int (round_half_even (x * 100000000)) / 100000000"

definition estimate_cost_usd :: "token_usage \<Rightarrow> model_pricing \<Rightarrow> rat" where
  "estimate_cost_usd usage pricing =
     (let million = 1000000;
          input_cost = (of_int (tu_input_tokens usage) / million) * mp_input_usd pricing;
          output_cost = (of_int (tu_output_tokens usage) / million) * mp_output_usd pricing
      in quantize8 (input_cost + output_cost))"

definition OPENAI_PRICING :: "(string, model_pricing) dict" where
  "OPENAI_PRICING = [(''gpt-4o-mini'', \<lparr>mp_input_usd = 15/100, mp_output_usd = 60/100\<rparr>),
     (''gpt-4o'', \<lparr>mp_input_usd = 250/100, mp_output_usd = 1000/100\<rparr>)]"

definition ANTHROPIC_PRICING :: "(string, model_pricing) dict" where
  "ANTHROPIC_PRICING = [(''claude-3-5-sonnet-20241022'', \<lparr>mp_input_usd = 300/100, mp_output_usd = 1500/100\<rparr>)]"

definition GEMINI_PRICING :: "(string, model_pricing) dict" where
  "GEMINI_PRICING = [(''gemini-2.5-flash'', \<lparr>mp_input_usd = 30/100, mp_output_usd = 250/100\<rparr>)]"

definition PROVIDER_PRICING :: "(string, (string, model_pricing) dict) dict" where
  "PROVIDER_PRICING = [(''openai'', OPENAI_PRICING), (''anthropic'', ANTHROPIC_PRICING), (''gemini'', GEMINI_PRICING)]"

definition static_estimate :: "string \<Rightarrow> string \<Rightarrow> token_usage option \<Rightarrow> rat option" where
  "static_estimate provider model usage =
     (case usage of None \<Rightarrow> None
      | Some u \<Rightarrow> (case dict_get PROVIDER_PRICING (lower (strip provider)) of None \<Rightarrow> None
          | Some prices \<Rightarrow> (case dict_get prices (strip model) of None \<Rightarrow> None
              | Some pricing \<Rightarrow> Some (estimate_cost_usd u pricing))))"

record usage_record =
  ur_id :: uuid
  ur_request_id :: string
  ur_organization_id :: uuid
  ur_api_key_id :: uuid
  ur_provider :: string
  ur_model :: string
  ur_input_tokens :: "int option"
  ur_output_tokens :: "int option"
  ur_estimated_cost_usd :: "rat option"
  ur_created_at :: datetime

definition negative_opt :: "('a :: {zero, ord}) option \<Rightarrow> bool" where
  "negative_opt x = (case x of None \<Rightarrow> False | Some n \<Rightarrow> n < 0)"

definition validate_usage_record :: "usage_record \<Rightarrow> exn + usage_record" where
  "validate_usage_record u =
     bind_r (require_non_blank (ur_request_id u) ''request_id'') (\<lambda>_.
     bind_r (require_non_blank (ur_provider u) ''provider'') (\<lambda>_.
     bind_r (require_non_blank (ur_model u) ''model'') (\<lambda>_.
     bind_r (reject_if (\<not> aware (ur_created_at u)) ''created_at must be timezone-aware'') (\<lambda>_.
     bind_r (reject_if (negative_opt (ur_input_tokens u)) ''input_tokens must not be negative'') (\<lambda>_.
     bind_r (reject_if (negative_opt (ur_output_tokens u)) ''output_tokens must not be negative'') (\<lambda>_.
     bind_r (reject_if (negative_opt (ur_estimated_cost_usd u)) ''estimated_cost_usd must not be negative'') (\<lambda>_.
     bind_r (reject_if ((ur_input_tokens u = None) \<noteq> (ur_output_tokens u = None))
        ''input_tokens and output_tokens must both be set or both be None'') (\<lambda>_.
     Inr u))))))))"

definition usage_record_ok :: "usage_record \<Rightarrow> bool" where
  "usage_record_ok u \<longleftrightarrow> \<not> blank (ur_request_id u) \<and> \<not> blank (ur_provider u) \<and> \<not> blank (ur_model u) \<and>
     aware (ur_created_at u) \<and> \<not> negative_opt (ur_input_tokens u) \<and> \<not> negative_opt (ur_output_tokens u) \<and>
     \<not> negative_opt (ur_estimated_cost_usd u) \<and> (ur_input_tokens u = None \<longleftrightarrow> ur_output_tokens u = None)"

lemma validate_usage_record_Inr: "validate_usage_record u = Inr u' \<longleftrightarrow> u' = u \<and> usage_record_ok u"
  by (auto simp: validate_usage_record_def bind_r_eq_Inr usage_record_ok_def)

section \<open>Audit events\<close>

definition FORBIDDEN_METADATA_KEYS :: "string list" where
  "FORBIDDEN_METADATA_KEYS = [''authorization'', ''content'', ''messages'', ''password'', ''prompt'', ''secret'', ''token'']"

record audit_event =
  ae_id :: uuid
  ae_action :: string
  ae_occurred_at :: datetime
  ae_organization_id :: "uuid option"
  ae_actor_api_key_id :: "uuid option"
  ae_request_id :: "string option"
  ae_resource_type :: string
  ae_resource_id :: "string option"
  ae_metadata :: "(string, string) dict"

fun check_metadata :: "(string, string) dict \<Rightarrow> exn + unit" where
  "check_metadata [] = Inr ()"
| "check_metadata ((k, v) # kvs) =
     bind_r (require_non_blank k ''metadata key'') (\<lambda>_.
     bind_r (reject_if (lower k \<in> set FORBIDDEN_METADATA_KEYS) (''metadata key '' @ CHR 0x27 # k @ CHR 0x27 # '' is not allowed'')) (\<lambda>_.
     bind_r (reject_if (blank v) ''metadata values must not be blank'') (\<lambda>_.
     check_metadata kvs)))"

definition validate_audit_event :: "audit_event \<Rightarrow> exn + audit_event" where
  "validate_audit_event e =
     bind_r (require_non_blank (ae_action e) ''action'') (\<lambda>_.
     bind_r (require_non_blank (ae_resource_type e) ''resource_type'') (\<lambda>_.
     bind_r (reject_if (\<not> aware (ae_occurred_at e)) ''occurred_at must be timezone-aware'') (\<lambda>_.
     bind_r (check_metadata (ae_metadata e)) (\<lambda>_. Inr e))))"

definition metadata_clean :: "(string, string) dict \<Rightarrow> bool" where
  "metadata_clean kvs \<longleftrightarrow> (\<forall>(k, v)\<in>set kvs. \<not> blank k \<and> lower k \<notin> set FORBIDDEN_METADATA_KEYS \<and> \<not> blank v)"

definition audit_event_ok :: "audit_event \<Rightarrow> bool" where
  "audit_event_ok e \<longleftrightarrow> \<not> blank (ae_action e) \<and> \<not> blank (ae_resource_type e) \<and> aware (ae_occurred_at e) \<and>
     metadata_clean (ae_metadata e)"

lemma check_metadata_Inr [simp]: "check_metadata kvs = Inr u \<longleftrightarrow> metadata_clean kvs"
  by (induction kvs rule: check_metadata.induct) (auto simp: metadata_clean_def bind_r_eq_Inr)

lemma validate_audit_event_Inr: "validate_audit_event e = Inr e' \<longleftrightarrow> e' = e \<and> audit_event_ok e"
  by (auto simp: validate_audit_event_def bind_r_eq_Inr audit_event_ok_def)

section \<open>Cost estimates are exact\<close>

text \<open>The listed prices are whole cents.\<close>

definition price_in_cents :: "model_pricing \<Rightarrow> bool" where
  "price_in_cents p \<longleftrightarrow> (\<exists>a b :: int. 0 \<le> a \<and> 0 \<le> b \<and> mp_input_usd p = of_int a / 100 \<and> mp_output_usd p = of_int b / 100)"

definition price_of :: "string \<Rightarrow> string \<Rightarrow> model_pricing option" where
  "price_of provider model =
     Option.bind (dict_get PROVIDER_PRICING (lower (strip provider))) (\<lambda>prices. dict_get prices (strip model))"

lemma static_estimate_price_of:
  "static_estimate provider model usage =
     (case (usage, price_of provider model) of (Some u, Some p) \<Rightarrow> Some (estimate_cost_usd u p) | _ \<Rightarrow> None)"
  by (auto simp: static_estimate_def price_of_def split: option.split)

lemma cents: "0 \<le> a \<Longrightarrow> 0 \<le> b \<Longrightarrow>
    price_in_cents \<lparr>mp_input_usd = of_int a / 100, mp_output_usd = of_int b / 100\<rparr>"
  unfolding price_in_cents_def by (intro exI [of _ a] exI [of _ b]) simp

lemmas pricing_tables = PROVIDER_PRICING_def OPENAI_PRICING_def ANTHROPIC_PRICING_def GEMINI_PRICING_def

lemma price_of_cents: "price_of provider model = Some p \<Longrightarrow> price_in_cents p"
  using cents [of 15 60] cents [of 250 1000] cents [of 300 1500] cents [of 30 250]
  by (auto simp: price_of_def pricing_tables dict_get_def bind_eq_Some_conv split: if_splits)

lemma quantize8_exact: "quantize8 (of_int n / 100000000) = of_int n / 100000000"
  by (simp add: quantize8_def)

lemma estimate_cost_exact:
  assumes "price_in_cents p"
  shows "estimate_cost_usd u p =
    (of_int (tu_input_tokens u) * mp_input_usd p + of_int (tu_output_tokens u) * mp_output_usd p) / 1000000"
proof -
  from assms obtain a b :: int where p: "mp_input_usd p = of_int a / 100" "mp_output_usd p = of_int b / 100"
    by (auto simp: price_in_cents_def)
  have "(of_int (tu_input_tokens u) / 1000000) * mp_input_usd p + (of_int (tu_output_tokens u) / 1000000) * mp_output_usd p =
      of_int (tu_input_tokens u * a + tu_output_tokens u * b) / 100000000"
    by (simp add: p field_simps)
  then have "estimate_cost_usd u p = of_int (tu_input_tokens u * a + tu_output_tokens u * b) / 100000000"
    unfolding estimate_cost_usd_def Let_def by (simp only: quantize8_exact)
  then show ?thesis by (simp add: p field_simps)
qed

section \<open>Properties\<close>

text \<open>Cost estimates never round. For every model of the static price table the estimate of a
  non-negative usage is exactly tokens times price over a million, and not negative; a model that is
  not listed, or a missing usage, has no estimate.\<close>

theorem static_cost_exact:
  "static_estimate provider model usage =
    (case (usage, price_of provider model) of
       (Some u, Some p) \<Rightarrow>
         Some ((of_int (tu_input_tokens u) * mp_input_usd p + of_int (tu_output_tokens u) * mp_output_usd p) / 1000000)
     | _ \<Rightarrow> None)"
  by (auto simp: static_estimate_price_of estimate_cost_exact price_of_cents split: option.split)

lemma static_cost_nonneg:
  assumes "static_estimate provider model (Some u) = Some c" "token_usage_ok u"
  shows "0 \<le> c"
proof -
  from assms(1) obtain p where p: "price_of provider model = Some p" "c = estimate_cost_usd u p"
    by (auto simp: static_estimate_price_of split: option.splits)
  from price_of_cents [OF p(1)] have "0 \<le> mp_input_usd p" "0 \<le> mp_output_usd p"
    by (auto simp: price_in_cents_def)
  moreover have "0 \<le> rat_of_int (tu_input_tokens u)" "0 \<le> rat_of_int (tu_output_tokens u)"
    using assms(2) by (simp_all add: token_usage_ok_def)
  ultimately have "0 \<le> (of_int (tu_input_tokens u) * mp_input_usd p + of_int (tu_output_tokens u) * mp_output_usd p) / 1000000"
    by simp
  then show ?thesis unfolding p(2) estimate_cost_exact [OF price_of_cents [OF p(1)]] .
qed

text \<open>The life cycle of a key. Revoking a valid key succeeds exactly when the key is active and the
  time is aware; the result is a valid revoked key that differs in nothing else and cannot be revoked
  again, and the public projection shows the new status.\<close>

theorem revoke_once:
  assumes "api_key_ok k"
  shows "revoke_key k ts =
    (if ak_status k = KeyRevoked then Inl (ApiKeyAlreadyRevokedError (ak_id k))
     else if \<not> aware ts then Inl (DomainValidationError ''revoke timestamp must be timezone-aware'')
     else Inr (k\<lparr>ak_status := KeyRevoked, ak_revoked_at := Some ts, ak_updated_at := ts\<rparr>)) \<and>
    (\<forall>k' ts'. revoke_key k ts = Inr k' \<longrightarrow> api_key_ok k' \<and>
       revoke_key k' ts' = Inl (ApiKeyAlreadyRevokedError (ak_id k)))"
proof -
  let ?k = "k\<lparr>ak_status := KeyRevoked, ak_revoked_at := Some ts, ak_updated_at := ts\<rparr>"
  have "aware ts \<Longrightarrow> validate_api_key ?k = Inr ?k"
    using assms by (simp add: validate_api_key_Inr api_key_ok_revoked)
  then show ?thesis using assms api_key_ok_revoked [OF assms, of ts]
    by (auto simp: revoke_key_def reject_if_def)
qed

definition sample_key :: api_key where
  "sample_key = \<lparr>ak_id = 7, ak_organization_id = 1, ak_name = None, ak_prefix = ''air_abc'', ak_secret_hash = ''h'',
     ak_status = KeyActive, ak_created_at = sample_instant, ak_revoked_at = None, ak_updated_at = sample_instant\<rparr>"

lemma sample_key_ok: "api_key_ok sample_key"
  by (simp add: api_key_ok_def sample_key_def aware_def sample_instant_def is_space_def)

lemma revoke_once_witness:
  "revoke_key (sample_key\<lparr>ak_status := KeyRevoked, ak_revoked_at := Some sample_instant\<rparr>) sample_instant =
     Inl (ApiKeyAlreadyRevokedError 7)"
  using revoke_once [OF api_key_ok_revoked [OF sample_key_ok], of sample_instant sample_instant]
  by (simp add: sample_key_def aware_def sample_instant_def)

end
