(* ===== verification/Database.thy ===== *)
theory Database
  imports Entities
begin

text \<open>
  The relational store: the tables of \<open>infrastructure/db/models\<close> as lists of rows with their
  primary-key, unique, foreign-key and column-width constraints, and the repositories of
  \<open>infrastructure/db/repositories\<close> over them. A repository write is one transaction: the rows are
  inserted and committed, or an error is raised and the tables are unchanged. The order in which
  rows come back without an \<open>ORDER BY\<close> is the parameter \<open>scan\<close> where the code depends on it.
  PostgreSQL and SQLAlchemy are not part of the source; a statement means its SQL meaning.
\<close>

section \<open>Tables\<close>

record organization_row =
  orow_id :: uuid
  orow_name :: string
  orow_slug :: string
  orow_status :: string
  orow_created_at :: datetime
  orow_updated_at :: datetime

record api_key_row =
  krow_id :: uuid
  krow_organization_id :: uuid
  krow_name :: "string option"
  krow_prefix :: string
  krow_secret_hash :: string
  krow_status :: string
  krow_created_at :: datetime
  krow_revoked_at :: "datetime option"
  krow_updated_at :: datetime

record entitlement_row =
  erow_id :: uuid
  erow_organization_id :: uuid
  erow_model :: string

record policy_row =
  porow_organization_id :: uuid
  porow_monthly_token_limit :: "int option"

record prompt_row =
  prow_id :: uuid
  prow_organization_id :: uuid
  prow_name :: string
  prow_version :: int
  prow_messages :: "(string \<times> string) list"
  prow_created_at :: datetime

record mcp_server_row =
  mrow_id :: uuid
  mrow_organization_id :: uuid
  mrow_name :: string
  mrow_url :: string
  mrow_headers :: "(string, string) dict"
  mrow_created_at :: datetime

record chunk_row =
  crow_id :: uuid
  crow_organization_id :: uuid
  crow_content :: string
  crow_embedding :: "pyfloat list"
  crow_created_at :: datetime

record db =
  db_organizations :: "organization_row list"
  db_api_keys :: "api_key_row list"
  db_policies :: "policy_row list"
  db_entitlements :: "entitlement_row list"
  db_prompts :: "prompt_row list"
  db_audit :: "audit_event list"
  db_usage :: "usage_record list"
  db_mcp_servers :: "mcp_server_row list"
  db_chunks :: "chunk_row list"

definition empty_db :: db where
  "empty_db = \<lparr>db_organizations = [], db_api_keys = [], db_policies = [], db_entitlements = [], db_prompts = [],
     db_audit = [], db_usage = [], db_mcp_servers = [], db_chunks = []\<rparr>"

text \<open>A row is inserted when it violates no constraint of its table.\<close>

definition fk_organization :: "db \<Rightarrow> uuid \<Rightarrow> bool" where
  "fk_organization d org = (org \<in> orow_id ` set (db_organizations d))"

definition fk_api_key :: "db \<Rightarrow> uuid \<Rightarrow> bool" where
  "fk_api_key d k = (k \<in> krow_id ` set (db_api_keys d))"

text \<open>A PostgreSQL \<open>integer\<close> column.\<close>

definition int4 :: "int \<Rightarrow> bool" where
  "int4 n = (- 2147483648 \<le> n \<and> n \<le> 2147483647)"

definition int4_opt :: "int option \<Rightarrow> bool" where
  "int4_opt x = (case x of None \<Rightarrow> True | Some n \<Rightarrow> int4 n)"

section \<open>Organizations\<close>

definition org_to_row :: "organization \<Rightarrow> organization_row" where
  "org_to_row oz = \<lparr>orow_id = org_id oz, orow_name = org_name oz, orow_slug = org_slug oz,
     orow_status = organization_status_value (org_status oz), orow_created_at = org_created_at oz,
     orow_updated_at = org_updated_at oz\<rparr>"

definition org_to_domain :: "organization_row \<Rightarrow> exn + organization" where
  "org_to_domain r = bind_r (organization_status_of (orow_status r)) (\<lambda>status.
     validate_organization \<lparr>org_id = orow_id r, org_name = orow_name r, org_slug = orow_slug r, org_status = status,
       org_created_at = orow_created_at r, org_updated_at = orow_updated_at r\<rparr>)"

lemma org_to_domain_row: "organization_ok oz \<Longrightarrow> org_to_domain (org_to_row oz) = Inr oz"
  by (cases oz) (simp add: org_to_domain_def org_to_row_def validate_organization_Inr)

definition org_add :: "organization \<Rightarrow> db \<Rightarrow> (exn + organization) \<times> db" where
  "org_add oz d =
     (let row = org_to_row oz in
      if (\<exists>r\<in>set (db_organizations d). orow_id r = orow_id row \<or> orow_slug r = orow_slug row)
      then (Inl (OrganizationSlugConflictError (org_slug oz)), d)
      else (org_to_domain row, d\<lparr>db_organizations := db_organizations d @ [row]\<rparr>))"

definition get_row :: "('r \<Rightarrow> uuid) \<Rightarrow> ('r \<Rightarrow> exn + 'e) \<Rightarrow> 'r list \<Rightarrow> uuid \<Rightarrow> exn + 'e option" where
  "get_row pk to_dom rows i = (case find (\<lambda>r. pk r = i) rows of None \<Rightarrow> Inr None | Some r \<Rightarrow> map_r Some (to_dom r))"

definition org_get :: "uuid \<Rightarrow> db \<Rightarrow> exn + organization option" where
  "org_get i d = get_row orow_id org_to_domain (db_organizations d) i"

definition org_get_by_slug :: "string \<Rightarrow> db \<Rightarrow> exn + organization option" where
  "org_get_by_slug slug d = (case find (\<lambda>r. orow_slug r = slug) (db_organizations d) of
     None \<Rightarrow> Inr None | Some r \<Rightarrow> map_r Some (org_to_domain r))"

section \<open>API keys\<close>

definition key_to_row :: "api_key \<Rightarrow> api_key_row" where
  "key_to_row k = \<lparr>krow_id = ak_id k, krow_organization_id = ak_organization_id k, krow_name = ak_name k,
     krow_prefix = ak_prefix k, krow_secret_hash = ak_secret_hash k, krow_status = api_key_status_value (ak_status k),
     krow_created_at = ak_created_at k, krow_revoked_at = ak_revoked_at k, krow_updated_at = ak_updated_at k\<rparr>"

definition key_to_domain :: "api_key_row \<Rightarrow> exn + api_key" where
  "key_to_domain r = bind_r (api_key_status_of (krow_status r)) (\<lambda>status.
     validate_api_key \<lparr>ak_id = krow_id r, ak_organization_id = krow_organization_id r, ak_name = krow_name r,
       ak_prefix = krow_prefix r, ak_secret_hash = krow_secret_hash r, ak_status = status,
       ak_created_at = krow_created_at r, ak_revoked_at = krow_revoked_at r, ak_updated_at = krow_updated_at r\<rparr>)"

lemma key_to_domain_row: "api_key_ok k \<Longrightarrow> key_to_domain (key_to_row k) = Inr k"
  by (cases k) (simp add: key_to_domain_def key_to_row_def validate_api_key_Inr)

lemma key_to_domain_Inr: "key_to_domain r = Inr k \<longleftrightarrow> r = key_to_row k \<and> api_key_ok k"
proof
  assume "key_to_domain r = Inr k"
  then show "r = key_to_row k \<and> api_key_ok k"
    by (cases r) (auto simp: key_to_domain_def key_to_row_def bind_r_eq_Inr validate_api_key_Inr api_key_status_of_def
        split: if_splits)
qed (simp add: key_to_domain_row)

definition key_insertable :: "api_key_row \<Rightarrow> db \<Rightarrow> bool" where
  "key_insertable row d \<longleftrightarrow> \<not> fk_api_key d (krow_id row) \<and> fk_organization d (krow_organization_id row)"

definition key_add :: "api_key \<Rightarrow> db \<Rightarrow> (exn + api_key) \<times> db" where
  "key_add k d = (let row = key_to_row k in
     if \<not> key_insertable row d then (Inl IntegrityError, d)
     else (key_to_domain row, d\<lparr>db_api_keys := db_api_keys d @ [row]\<rparr>))"

definition key_get :: "uuid \<Rightarrow> db \<Rightarrow> exn + api_key option" where
  "key_get i d = get_row krow_id key_to_domain (db_api_keys d) i"

text \<open>\<open>scan\<close> is the order in which the database returns rows it was not asked to sort.\<close>

definition key_list_by_organization ::
    "(api_key_row list \<Rightarrow> api_key_row list) \<Rightarrow> uuid \<Rightarrow> db \<Rightarrow> exn + api_key list" where
  "key_list_by_organization scan org d = traverse key_to_domain
     (sort_key (\<lambda>r. - instant (krow_created_at r)) (scan (filter (\<lambda>r. krow_organization_id r = org) (db_api_keys d))))"

definition key_find_by_prefix ::
    "(api_key_row list \<Rightarrow> api_key_row list) \<Rightarrow> string \<Rightarrow> db \<Rightarrow> exn + api_key list" where
  "key_find_by_prefix scan pre d = traverse key_to_domain (scan (filter (\<lambda>r. krow_prefix r = pre) (db_api_keys d)))"

definition key_replace :: "api_key_row \<Rightarrow> api_key_row list \<Rightarrow> api_key_row list" where
  "key_replace row rows = map (\<lambda>r. if krow_id r = krow_id row then row else r) rows"

definition key_save :: "api_key \<Rightarrow> db \<Rightarrow> (exn + api_key) \<times> db" where
  "key_save k d =
     (if \<not> fk_api_key d (ak_id k) then (Inl (LookupError ''api key not found for save''), d)
      else if \<not> fk_organization d (ak_organization_id k) then (Inl IntegrityError, d)
      else (key_to_domain (key_to_row k), d\<lparr>db_api_keys := key_replace (key_to_row k) (db_api_keys d)\<rparr>))"

definition key_revoke_and_add :: "api_key \<Rightarrow> api_key \<Rightarrow> db \<Rightarrow> (exn + api_key) \<times> db" where
  "key_revoke_and_add revoked replacement d =
     (if \<not> fk_api_key d (ak_id revoked) then (Inl (LookupError ''api key not found for revoke_and_add''), d)
      else if \<not> fk_organization d (ak_organization_id revoked) \<or> \<not> key_insertable (key_to_row replacement) d
      then (Inl IntegrityError, d)
      else (key_to_domain (key_to_row replacement),
            d\<lparr>db_api_keys := key_replace (key_to_row revoked) (db_api_keys d) @ [key_to_row replacement]\<rparr>))"

section \<open>Policy and entitlements\<close>

definition policy_get :: "uuid \<Rightarrow> db \<Rightarrow> exn + organization_policy" where
  "policy_get org d = (case find (\<lambda>r. porow_organization_id r = org) (db_policies d) of
     None \<Rightarrow> mk_organization_policy org None
   | Some r \<Rightarrow> mk_organization_policy (porow_organization_id r) (porow_monthly_token_limit r))"

definition policy_list_entitlements :: "uuid \<Rightarrow> db \<Rightarrow> exn + model_entitlement list" where
  "policy_list_entitlements org d = traverse (\<lambda>r. mk_model_entitlement (erow_organization_id r) (erow_model r))
     (sort_key erow_model (filter (\<lambda>r. erow_organization_id r = org) (db_entitlements d)))"

section \<open>Usage\<close>

text \<open>\<open>Integer\<close> token columns and a \<open>Numeric(20, 8)\<close> cost column.\<close>

definition usage_fits :: "usage_record \<Rightarrow> bool" where
  "usage_fits u \<longleftrightarrow> int4_opt (ur_input_tokens u) \<and> int4_opt (ur_output_tokens u) \<and>
     (case ur_estimated_cost_usd u of None \<Rightarrow> True | Some c \<Rightarrow> \<bar>c\<bar> < 10 ^ 12)"

definition usage_add :: "usage_record \<Rightarrow> db \<Rightarrow> (exn + usage_record) \<times> db" where
  "usage_add u d =
     (if \<not> usage_fits u then (Inl DataError, d)
      else if (\<exists>r\<in>set (db_usage d). ur_id r = ur_id u \<or> ur_request_id r = ur_request_id u) \<or>
         \<not> fk_organization d (ur_organization_id u) \<or> \<not> fk_api_key d (ur_api_key_id u)
      then (Inl IntegrityError, d)
      else (validate_usage_record u, d\<lparr>db_usage := db_usage d @ [u]\<rparr>))"

definition usage_get :: "uuid \<Rightarrow> db \<Rightarrow> exn + usage_record option" where
  "usage_get i d = get_row ur_id validate_usage_record (db_usage d) i"

definition usage_get_by_request_id :: "string \<Rightarrow> db \<Rightarrow> exn + usage_record option" where
  "usage_get_by_request_id rid d = (case find (\<lambda>r. ur_request_id r = rid) (db_usage d) of
     None \<Rightarrow> Inr None | Some r \<Rightarrow> map_r Some (validate_usage_record r))"

definition usage_tokens :: "usage_record \<Rightarrow> int" where
  "usage_tokens r = (case ur_input_tokens r of None \<Rightarrow> 0 | Some n \<Rightarrow> n) + (case ur_output_tokens r of None \<Rightarrow> 0 | Some n \<Rightarrow> n)"

definition in_period :: "datetime \<Rightarrow> datetime \<Rightarrow> datetime \<Rightarrow> bool" where
  "in_period start stop t \<longleftrightarrow> instant start \<le> instant t \<and> instant t < instant stop"

definition usage_sum_tokens :: "uuid \<Rightarrow> datetime \<Rightarrow> datetime \<Rightarrow> db \<Rightarrow> int" where
  "usage_sum_tokens org start stop d =
     sum_list (map usage_tokens (filter (\<lambda>r. ur_organization_id r = org \<and> in_period start stop (ur_created_at r)) (db_usage d)))"

section \<open>Audit\<close>

definition audit_add :: "audit_event \<Rightarrow> db \<Rightarrow> (exn + audit_event) \<times> db" where
  "audit_add e d =
     (if (\<exists>r\<in>set (db_audit d). ae_id r = ae_id e) then (Inl IntegrityError, d)
      else (validate_audit_event e, d\<lparr>db_audit := db_audit d @ [e]\<rparr>))"

definition audit_get :: "uuid \<Rightarrow> db \<Rightarrow> exn + audit_event option" where
  "audit_get i d = get_row ae_id validate_audit_event (db_audit d) i"

section \<open>Prompts\<close>

definition prompt_to_domain :: "prompt_row \<Rightarrow> exn + prompt_template" where
  "prompt_to_domain r =
     bind_r (traverse (\<lambda>(role, content). bind_r (message_role_of role) (\<lambda>ro. mk_prompt_message_template ro content))
       (prow_messages r)) (\<lambda>messages.
     mk_prompt_template (prow_id r) (prow_organization_id r) (prow_name r) (prow_version r) messages (prow_created_at r))"

definition prompt_rows :: "uuid \<Rightarrow> string \<Rightarrow> db \<Rightarrow> prompt_row list" where
  "prompt_rows org name d = filter (\<lambda>r. prow_organization_id r = org \<and> prow_name r = name) (db_prompts d)"

definition latest_version :: "prompt_row list \<Rightarrow> int option" where
  "latest_version rows = (if rows = [] then None else Some (Max (set (map prow_version rows))))"

definition prompt_create_version ::
    "uuid \<Rightarrow> datetime \<Rightarrow> uuid \<Rightarrow> string \<Rightarrow> prompt_message_template list \<Rightarrow> db \<Rightarrow> (exn + prompt_template) \<times> db" where
  "prompt_create_version new_id now org name messages d =
     (let latest = latest_version (prompt_rows org name d);
          row = \<lparr>prow_id = new_id, prow_organization_id = org, prow_name = name,
                 prow_version = (case latest of None \<Rightarrow> 0 | Some v \<Rightarrow> v) + 1,
                 prow_messages = map (\<lambda>m. (role_value (pm_role m), pm_content m)) messages, prow_created_at = now\<rparr>
      in if (\<exists>r\<in>set (db_prompts d). prow_id r = new_id \<or>
             (prow_organization_id r = org \<and> prow_name r = name \<and> prow_version r = prow_version row)) \<or>
            \<not> fk_organization d org
         then (Inl PromptVersionConflictError, d)
         else (prompt_to_domain row, d\<lparr>db_prompts := db_prompts d @ [row]\<rparr>))"

definition prompt_get :: "uuid \<Rightarrow> string \<Rightarrow> int option \<Rightarrow> db \<Rightarrow> exn + prompt_template option" where
  "prompt_get org name version d =
     (let rows = filter (\<lambda>r. case version of None \<Rightarrow> True | Some v \<Rightarrow> prow_version r = v) (prompt_rows org name d)
      in case sort_key (\<lambda>r. - prow_version r) rows of
           [] \<Rightarrow> Inr None | r # _ \<Rightarrow> map_r Some (prompt_to_domain r))"

definition prompt_list_versions :: "uuid \<Rightarrow> string \<Rightarrow> db \<Rightarrow> exn + prompt_template list" where
  "prompt_list_versions org name d = traverse prompt_to_domain (sort_key prow_version (prompt_rows org name d))"

section \<open>Repositories by primary key\<close>

text \<open>
  The contract the use cases rely on: a successful \<open>add\<close> stores exactly the entity, under a key that
  was free; a failing one changes nothing; entities under other keys are not touched.
\<close>

locale keyed_repository =
  fixes add :: "'e \<Rightarrow> 'd \<Rightarrow> (exn + 'e) \<times> 'd"
    and get :: "uuid \<Rightarrow> 'd \<Rightarrow> exn + 'e option"
    and key :: "'e \<Rightarrow> uuid"
    and ok :: "'e \<Rightarrow> bool"
  assumes add_stores: "ok e \<Longrightarrow> add e d = (Inr e', d') \<Longrightarrow> e' = e \<and> get (key e) d' = Inr (Some e)"
    and add_fresh: "ok e \<Longrightarrow> add e d = (Inr e', d') \<Longrightarrow> get (key e) d = Inr None"
    and add_other: "i \<noteq> key e \<Longrightarrow> get i (snd (add e d)) = get i d"
    and add_fails: "ok e \<Longrightarrow> add e d = (Inl x, d') \<Longrightarrow> d' = d"
begin

lemma add_twice_fails:
  assumes "ok e" "ok e2" "key e2 = key e" "add e d = (Inr e', d')"
  shows "\<exists>x. add e2 d' = (Inl x, d')"
proof (cases "add e2 d'")
  case (Pair r d2)
  show ?thesis
  proof (cases r)
    case (Inl x)
    with Pair add_fails [OF assms(2)] show ?thesis by auto
  next
    case (Inr e3)
    with Pair add_fresh [OF assms(2)] add_stores [OF assms(1,4)] assms(3) show ?thesis by auto
  qed
qed

text \<open>After a run of additions, each entity that was stored is there.\<close>

fun add_all :: "'e list \<Rightarrow> 'd \<Rightarrow> (exn + unit) \<times> 'd" where
  "add_all [] d = (Inr (), d)"
| "add_all (e # es) d = (case add e d of (Inl x, d') \<Rightarrow> (Inl x, d') | (Inr _, d') \<Rightarrow> add_all es d')"

lemma add_all_keeps:
  "add_all es d = (Inr (), d') \<Longrightarrow> i \<notin> key ` set es \<Longrightarrow> get i d' = get i d"
proof (induction es arbitrary: d)
  case (Cons e es)
  then show ?case using add_other [of i e d] by (cases "add e d") (auto split: sum.splits)
qed simp

lemma add_all_stores:
  assumes "add_all es d = (Inr (), d')" "\<forall>e\<in>set es. ok e" "distinct (map key es)" "e \<in> set es"
  shows "get (key e) d' = Inr (Some e)"
  using assms
proof (induction es arbitrary: d)
  case (Cons e1 es)
  obtain e' d1 where a: "add e1 d = (Inr e', d1)" "add_all es d1 = (Inr (), d')"
    using Cons.prems(1) by (auto split: prod.splits sum.splits)
  show ?case
  proof (cases "e = e1")
    case True
    then have "key e \<notin> key ` set es" using Cons.prems(3) by simp
    with add_all_keeps [OF a(2)] add_stores [OF _ a(1)] Cons.prems(2) True show ?thesis by auto
  next
    case False
    with Cons a show ?thesis by auto
  qed
qed simp

end

lemma find_snoc:
  "find P (xs @ [x]) = (case find P xs of Some y \<Rightarrow> Some y | None \<Rightarrow> if P x then Some x else None)"
  by (induction xs) auto

lemma get_row_None: "(\<forall>r\<in>set rows. pk r \<noteq> i) \<Longrightarrow> get_row pk dom_of rows i = Inr None"
  by (auto simp: get_row_def find_None_iff split: option.split dest: find_SomeD)

lemma get_row_new:
  "(\<forall>r\<in>set rows. pk r \<noteq> pk row) \<Longrightarrow> get_row pk dom_of (rows @ [row]) (pk row) = map_r Some (dom_of row)"
  by (auto simp: get_row_def find_snoc find_None_iff split: option.split dest: find_SomeD)

lemma get_row_other: "pk row \<noteq> i \<Longrightarrow> get_row pk dom_of (rows @ [row]) i = get_row pk dom_of rows i"
  by (auto simp: get_row_def find_snoc split: option.split)

lemma org_to_row_sel [simp]: "orow_id (org_to_row oz) = org_id oz" "orow_slug (org_to_row oz) = org_slug oz"
  by (simp_all add: org_to_row_def)

lemma key_to_row_sel [simp]:
  "krow_id (key_to_row k) = ak_id k" "krow_organization_id (key_to_row k) = ak_organization_id k"
  "krow_prefix (key_to_row k) = ak_prefix k" "krow_status (key_to_row k) = api_key_status_value (ak_status k)"
  "krow_created_at (key_to_row k) = ak_created_at k" "krow_secret_hash (key_to_row k) = ak_secret_hash k"
  by (simp_all add: key_to_row_def)

text \<open>Each repository with an \<open>add\<close> satisfies the contract on its own table.\<close>

interpretation organizations: keyed_repository org_add org_get org_id organization_ok
proof
  fix e d e' d' i x
  note defs = org_add_def org_get_def Let_def org_to_domain_row
  show "organization_ok e \<Longrightarrow> org_add e d = (Inr e', d') \<Longrightarrow> e' = e \<and> org_get (org_id e) d' = Inr (Some e)"
    using get_row_new [of "db_organizations d" orow_id "org_to_row e" org_to_domain] by (auto simp: defs split: if_splits)
  show "organization_ok e \<Longrightarrow> org_add e d = (Inr e', d') \<Longrightarrow> org_get (org_id e) d = Inr None"
    by (auto simp: defs get_row_None split: if_splits)
  show "i \<noteq> org_id e \<Longrightarrow> org_get i (snd (org_add e d)) = org_get i d"
    by (auto simp: defs get_row_other)
  show "organization_ok e \<Longrightarrow> org_add e d = (Inl x, d') \<Longrightarrow> d' = d"
    by (auto simp: defs split: if_splits)
qed

interpretation api_keys: keyed_repository key_add key_get ak_id api_key_ok
proof
  fix e d e' d' i x
  note defs = key_add_def key_get_def Let_def key_to_domain_row key_insertable_def fk_api_key_def
  show "api_key_ok e \<Longrightarrow> key_add e d = (Inr e', d') \<Longrightarrow> e' = e \<and> key_get (ak_id e) d' = Inr (Some e)"
    using get_row_new [of "db_api_keys d" krow_id "key_to_row e" key_to_domain] by (force simp: defs split: if_splits)
  show "api_key_ok e \<Longrightarrow> key_add e d = (Inr e', d') \<Longrightarrow> key_get (ak_id e) d = Inr None"
    using get_row_None [of "db_api_keys d" krow_id "ak_id e" key_to_domain] by (force simp: defs split: if_splits)
  show "i \<noteq> ak_id e \<Longrightarrow> key_get i (snd (key_add e d)) = key_get i d"
    by (auto simp: defs get_row_other)
  show "api_key_ok e \<Longrightarrow> key_add e d = (Inl x, d') \<Longrightarrow> d' = d"
    by (auto simp: defs split: if_splits)
qed

interpretation usage_records: keyed_repository usage_add usage_get ur_id usage_record_ok
proof
  have valid: "usage_record_ok e \<Longrightarrow> validate_usage_record e = Inr e" for e
    by (simp add: validate_usage_record_Inr)
  fix e d e' d' i x
  show "usage_record_ok e \<Longrightarrow> usage_add e d = (Inr e', d') \<Longrightarrow> e' = e \<and> usage_get (ur_id e) d' = Inr (Some e)"
    using get_row_new [of "db_usage d" ur_id e validate_usage_record]
    by (auto simp: usage_add_def usage_get_def valid split: if_splits)
  show "usage_record_ok e \<Longrightarrow> usage_add e d = (Inr e', d') \<Longrightarrow> usage_get (ur_id e) d = Inr None"
    by (auto simp: usage_add_def usage_get_def get_row_None split: if_splits)
  show "i \<noteq> ur_id e \<Longrightarrow> usage_get i (snd (usage_add e d)) = usage_get i d"
    by (auto simp: usage_add_def usage_get_def get_row_other)
  show "usage_record_ok e \<Longrightarrow> usage_add e d = (Inl x, d') \<Longrightarrow> d' = d"
    by (auto simp: usage_add_def valid split: if_splits)
qed

interpretation audit_events: keyed_repository audit_add audit_get ae_id audit_event_ok
proof
  have valid: "audit_event_ok e \<Longrightarrow> validate_audit_event e = Inr e" for e
    by (simp add: validate_audit_event_Inr)
  fix e d e' d' i x
  show "audit_event_ok e \<Longrightarrow> audit_add e d = (Inr e', d') \<Longrightarrow> e' = e \<and> audit_get (ae_id e) d' = Inr (Some e)"
    using get_row_new [of "db_audit d" ae_id e validate_audit_event]
    by (auto simp: audit_add_def audit_get_def valid split: if_splits)
  show "audit_event_ok e \<Longrightarrow> audit_add e d = (Inr e', d') \<Longrightarrow> audit_get (ae_id e) d = Inr None"
    by (auto simp: audit_add_def audit_get_def get_row_None split: if_splits)
  show "i \<noteq> ae_id e \<Longrightarrow> audit_get i (snd (audit_add e d)) = audit_get i d"
    by (auto simp: audit_add_def audit_get_def get_row_other)
  show "audit_event_ok e \<Longrightarrow> audit_add e d = (Inl x, d') \<Longrightarrow> d' = d"
    by (auto simp: audit_add_def valid split: if_splits)
qed

section \<open>Well-formed databases\<close>

text \<open>The constraints of the schema, and that every row reads back as a valid entity.\<close>

definition db_ok :: "db \<Rightarrow> bool" where
  "db_ok d \<longleftrightarrow>
     distinct (map orow_id (db_organizations d)) \<and> distinct (map orow_slug (db_organizations d)) \<and>
     (\<forall>r\<in>set (db_organizations d). \<exists>oz. organization_ok oz \<and> r = org_to_row oz) \<and>
     distinct (map krow_id (db_api_keys d)) \<and>
     (\<forall>r\<in>set (db_api_keys d). (\<exists>k. api_key_ok k \<and> r = key_to_row k) \<and> fk_organization d (krow_organization_id r)) \<and>
     distinct (map ur_id (db_usage d)) \<and> distinct (map ur_request_id (db_usage d)) \<and>
     (\<forall>r\<in>set (db_usage d). usage_record_ok r \<and> fk_organization d (ur_organization_id r) \<and> fk_api_key d (ur_api_key_id r)) \<and>
     distinct (map ae_id (db_audit d)) \<and> (\<forall>r\<in>set (db_audit d). audit_event_ok r)"

lemma empty_db_ok: "db_ok empty_db"
  by (simp add: db_ok_def empty_db_def)

lemma org_add_keeps: "organization_ok oz \<Longrightarrow> db_ok d \<Longrightarrow> db_ok (snd (org_add oz d))"
  by (auto simp: org_add_def db_ok_def Let_def fk_organization_def fk_api_key_def)

lemma key_add_keeps: "api_key_ok k \<Longrightarrow> db_ok d \<Longrightarrow> db_ok (snd (key_add k d))"
  by (auto simp: key_add_def db_ok_def Let_def fk_organization_def fk_api_key_def key_insertable_def)

lemma usage_add_keeps: "usage_record_ok u \<Longrightarrow> db_ok d \<Longrightarrow> db_ok (snd (usage_add u d))"
  by (auto simp: usage_add_def db_ok_def fk_organization_def fk_api_key_def)

lemma audit_add_keeps: "audit_event_ok e \<Longrightarrow> db_ok d \<Longrightarrow> db_ok (snd (audit_add e d))"
  by (auto simp: audit_add_def db_ok_def fk_organization_def fk_api_key_def)

lemma key_replace_ids: "map krow_id (key_replace row rows) = map krow_id rows"
  by (induction rows) (auto simp: key_replace_def)

lemma set_key_replace: "r \<in> set (key_replace row rows) \<Longrightarrow> r = row \<or> r \<in> set rows"
  by (auto simp: key_replace_def)

lemma ids_key_replace: "krow_id ` set (key_replace row rows) = krow_id ` set rows"
  by (metis key_replace_ids list.set_map)

lemma key_save_keeps: "api_key_ok k \<Longrightarrow> db_ok d \<Longrightarrow> db_ok (snd (key_save k d))"
  by (auto simp: key_save_def db_ok_def fk_organization_def fk_api_key_def key_replace_ids ids_key_replace
      dest!: set_key_replace)

lemma key_revoke_and_add_keeps:
  "api_key_ok k \<Longrightarrow> api_key_ok k2 \<Longrightarrow> db_ok d \<Longrightarrow> db_ok (snd (key_revoke_and_add k k2 d))"
  by (auto simp: key_revoke_and_add_def db_ok_def fk_organization_def fk_api_key_def key_insertable_def
      key_replace_ids ids_key_replace dest!: set_key_replace)

end
