(* ===== verification/Policy.thy ===== *)
theory Policy
  imports Database
begin

text \<open>
  \<open>EnforceOrganizationPolicy\<close> of \<open>application/policy/enforce_organization_policy.py\<close>: the model
  entitlements of an organization and its monthly token quota, read from the database. \<open>now\<close> is the
  reading of the use case's clock. \<open>policy_decision\<close> states what it decides; the property at the end
  shows that the code decides so.
\<close>

definition enforce_policy :: "uuid \<Rightarrow> string \<Rightarrow> int option \<Rightarrow> datetime \<Rightarrow> db \<Rightarrow> exn + unit" where
  "enforce_policy org requested_model max_output_tokens now d =
     bind_r (policy_list_entitlements org d) (\<lambda>entitlements.
     if \<not> is_model_allowed requested_model (set (map me_model entitlements))
     then Inl (ModelNotAvailableError requested_model)
     else bind_r (policy_get org d) (\<lambda>policy.
       case op_monthly_token_limit policy of
         None \<Rightarrow> Inr ()
       | Some limit \<Rightarrow>
           bind_r (current_month_utc_bounds now) (\<lambda>(period_start, period_end).
           bind_r (would_exceed_monthly_quota (usage_sum_tokens org period_start period_end d) limit
                     (case max_output_tokens of None \<Rightarrow> 0 | Some n \<Rightarrow> n)) (\<lambda>exceeds.
           if exceeds
           then bind_r (seconds_until_end_of_month_utc now) (\<lambda>secs. Inl (QuotaExceededError secs))
           else Inr ()))))"

section \<open>What it decides\<close>

definition entitled_models :: "uuid \<Rightarrow> db \<Rightarrow> string set" where
  "entitled_models org d = {erow_model r |r. r \<in> set (db_entitlements d) \<and> erow_organization_id r = org}"

definition token_limit :: "uuid \<Rightarrow> db \<Rightarrow> int option" where
  "token_limit org d = (case find (\<lambda>r. porow_organization_id r = org) (db_policies d) of
     None \<Rightarrow> None | Some r \<Rightarrow> porow_monthly_token_limit r)"

definition tokens_this_month :: "uuid \<Rightarrow> datetime \<Rightarrow> db \<Rightarrow> int" where
  "tokens_this_month org now d = (case current_month_utc_bounds now of Inl _ \<Rightarrow> 0
     | Inr (start, stop) \<Rightarrow> usage_sum_tokens org start stop d)"

definition policy_rows_ok :: "db \<Rightarrow> bool" where
  "policy_rows_ok d \<longleftrightarrow> (\<forall>r\<in>set (db_entitlements d). \<not> blank (erow_model r)) \<and>
     (\<forall>r\<in>set (db_policies d). \<forall>n. porow_monthly_token_limit r = Some n \<longrightarrow> 0 < n)"

definition policy_decision :: "uuid \<Rightarrow> string \<Rightarrow> int option \<Rightarrow> datetime \<Rightarrow> db \<Rightarrow> exn + unit" where
  "policy_decision org model max_output now d =
     (if entitled_models org d \<noteq> {} \<and> model \<notin> entitled_models org d then Inl (ModelNotAvailableError model)
      else case token_limit org d of None \<Rightarrow> Inr ()
      | Some limit \<Rightarrow>
          if tokens_this_month org now d + (case max_output of None \<Rightarrow> 0 | Some n \<Rightarrow> n) < limit then Inr ()
          else (case seconds_until_end_of_month_utc now of Inl e \<Rightarrow> Inl e | Inr n \<Rightarrow> Inl (QuotaExceededError n)))"

lemma traverse_entitlements:
  "\<forall>r\<in>set rows. \<not> blank (erow_model r) \<Longrightarrow>
   traverse (\<lambda>r. mk_model_entitlement (erow_organization_id r) (erow_model r)) rows =
     Inr (map (\<lambda>r. \<lparr>me_organization_id = erow_organization_id r, me_model = erow_model r\<rparr>) rows)"
  by (rule traverse_total) (simp add: mk_model_entitlement_def require_non_blank_ok)

lemma list_entitlements_models:
  assumes "policy_rows_ok d"
  shows "\<exists>es. policy_list_entitlements org d = Inr es \<and> set (map me_model es) = entitled_models org d"
  using assms
  by (force simp: policy_list_entitlements_def policy_rows_ok_def traverse_entitlements entitled_models_def image_image)

lemma policy_get_limit:
  assumes "policy_rows_ok d"
  shows "\<exists>p. policy_get org d = Inr p \<and> op_monthly_token_limit p = token_limit org d"
  using assms
  by (auto simp: policy_get_def token_limit_def mk_organization_policy_def policy_rows_ok_def
      split: option.split dest!: find_SomeD)

lemma usage_sum_nonneg: "\<forall>r\<in>set (db_usage d). usage_record_ok r \<Longrightarrow> 0 \<le> usage_sum_tokens org a b d"
  unfolding usage_sum_tokens_def
  by (rule sum_list_map_nonneg) (auto simp: usage_tokens_def usage_record_ok_def negative_opt_def split: option.splits)

lemma is_model_allowed_iff: "is_model_allowed m ms \<longleftrightarrow> ms = {} \<or> m \<in> ms"
  by (simp add: is_model_allowed_def)

lemma usage_rows_ok: "db_ok d \<Longrightarrow> \<forall>r\<in>set (db_usage d). usage_record_ok r"
  by (simp add: db_ok_def)

section \<open>Properties\<close>

text \<open>C24: the policy gate is exact. On a well-formed database, at any valid aware instant before December
  9999, the gate refuses a model exactly when the organization has entitlements that do not list it, refuses
  for quota exactly when the tokens recorded this month plus the requested maximum reach the limit, with a
  retry-after of one second to 31 days, and lets everything else through; the checks come in this order.\<close>

theorem policy_gate_exact:
  assumes "db_ok d" and "policy_rows_ok d"
    and "valid_datetime now" and "aware now" and "dt_year now < 9999 \<or> dt_month now < 12"
    and "\<forall>n. max_output = Some n \<longrightarrow> 0 < n"
  shows "enforce_policy org model max_output now d = policy_decision org model max_output now d \<and>
    (\<forall>e. enforce_policy org model max_output now d = Inl e \<longrightarrow>
       e = ModelNotAvailableError model \<or> (\<exists>n. e = QuotaExceededError n \<and> 1 \<le> n \<and> n \<le> 31 * 86400))"
proof -
  obtain es p where es: "policy_list_entitlements org d = Inr es" "set (map me_model es) = entitled_models org d"
    and p: "policy_get org d = Inr p" "op_monthly_token_limit p = token_limit org d"
    using list_entitlements_models [OF assms(2)] policy_get_limit [OF assms(2)] by blast
  obtain start "end" where b: "current_month_utc_bounds now = Inr (start, end)"
    using month_bounds_total [OF assms(3-5)] by blast
  obtain n where n: "seconds_until_end_of_month_utc now = Inr n" "1 \<le> n" "n \<le> 31 * 86400"
    using seconds_bounds [OF assms(3-5)] by blast
  have pos: "0 < limit" if "token_limit org d = Some limit" for limit
    using assms(2) that by (auto simp: token_limit_def policy_rows_ok_def split: option.splits dest!: find_SomeD)
  have used: "0 \<le> usage_sum_tokens org start end d"
    using usage_sum_nonneg [OF usage_rows_ok [OF assms(1)]] .
  have max: "0 \<le> (case max_output of None \<Rightarrow> 0 | Some n \<Rightarrow> n)"
    using assms(6) by (auto split: option.split)
  have allowed: "is_model_allowed model (set (map me_model es)) \<longleftrightarrow> \<not> (entitled_models org d \<noteq> {} \<and> model \<notin> entitled_models org d)"
    unfolding es(2) is_model_allowed_iff by blast
  show ?thesis
    using pos used max n
    by (auto simp: enforce_policy_def policy_decision_def es(1) allowed p b tokens_this_month_def
        would_exceed_monthly_quota_def reject_if_def split: option.split simp del: set_map)
qed

definition demo_policy_db :: db where
  "demo_policy_db = empty_db\<lparr>db_policies := [\<lparr>porow_organization_id = 1, porow_monthly_token_limit = Some 100\<rparr>],
     db_entitlements := [\<lparr>erow_id = 9, erow_organization_id = 1, erow_model = ''m''\<rparr>]\<rparr>"

lemma policy_gate_exact_witness:
  "enforce_policy 1 ''m'' (Some 100) sample_instant demo_policy_db = Inl (QuotaExceededError 86400) \<and>
   enforce_policy 1 ''m'' (Some 99) sample_instant demo_policy_db = Inr () \<and>
   enforce_policy 1 ''x'' None sample_instant demo_policy_db = Inl (ModelNotAvailableError ''x'')"
proof -
  have ok: "db_ok demo_policy_db" "policy_rows_ok demo_policy_db"
    by (simp_all add: db_ok_def policy_rows_ok_def demo_policy_db_def empty_db_def is_space_def)
  have t: "valid_datetime sample_instant" "aware sample_instant" "dt_year sample_instant < 9999 \<or> dt_month sample_instant < 12"
    by (simp_all add: sample_instant_def valid_datetime_def aware_def days_in_month_def is_leap_def)
  have e: "entitled_models 1 demo_policy_db = {''m''}" "token_limit 1 demo_policy_db = Some 100"
      "tokens_this_month 1 sample_instant demo_policy_db = 0"
    using month_bounds_total [OF t]
    by (auto simp: entitled_models_def token_limit_def tokens_this_month_def demo_policy_db_def empty_db_def usage_sum_tokens_def)
  note gate = policy_gate_exact [OF ok t]
  from gate [of "Some 100" 1 "''m''"] gate [of "Some 99" 1 "''m''"] gate [of None 1 "''x''"] show ?thesis
    by (simp add: policy_decision_def e sample_month_seconds)
qed

end
