(* ===== verification/Redis.thy ===== *)
theory Redis
  imports Entities
begin

text \<open>
  Ephemeral coordination: the rate limiter, the idempotency store and the response cache of
  \<open>infrastructure/redis\<close>. The Redis client is a parameter, a record of the commands the adapters
  send; what the adapters rely on is the locale \<open>redis_client\<close>, in which a command that raises
  \<open>RedisError\<close> may or may not have taken effect. The ports \<open>IdempotencyStore\<close> and
  \<open>ResponseCache\<close> are locales, and the adapters are shown to provide them. The token bucket script
  is the function \<open>token_bucket\<close> on exact rationals (the code computes in floats).
\<close>

section \<open>The client\<close>

text \<open>The hash of a bucket: tokens and timestamp.\<close>

type_synonym bucket = "rat \<times> rat"

text \<open>A script gets the hash stored under its key, and answers with a result, the hash to store and a time to live.\<close>

type_synonym bucket_script = "bucket option \<Rightarrow> (bool \<times> int) \<times> bucket \<times> int"

text \<open>\<open>Inl ()\<close> is \<open>RedisError\<close>.\<close>

record 'r redis_client =
  rc_set :: "string \<Rightarrow> string \<Rightarrow> bool \<Rightarrow> int \<Rightarrow> 'r \<Rightarrow> (unit + bool) \<times> 'r"  \<comment> \<open>key, value, nx, ex\<close>
  rc_get :: "string \<Rightarrow> 'r \<Rightarrow> (unit + string option) \<times> 'r"
  rc_delete :: "string \<Rightarrow> 'r \<Rightarrow> (unit + unit) \<times> 'r"
  rc_eval :: "string \<Rightarrow> bucket_script \<Rightarrow> 'r \<Rightarrow> (unit + (bool \<times> int)) \<times> 'r"

section \<open>Idempotency store\<close>

definition idem_key :: "uuid \<Rightarrow> string \<Rightarrow> string" where
  "idem_key org key = ''idem:'' @ uuid_str org @ '':'' @ key"

definition STATUS_IN_PROGRESS :: string where "STATUS_IN_PROGRESS = ''in_progress''"
definition STATUS_COMPLETED :: string where "STATUS_COMPLETED = ''completed''"

datatype idempotency_begin_result =
  IdempotencyMiss | IdempotencyInProgress | IdempotencyCompleted string

definition idem_begin :: "'r redis_client \<Rightarrow> int \<Rightarrow> uuid \<Rightarrow> string \<Rightarrow> 'r \<Rightarrow> idempotency_begin_result \<times> 'r" where
  "idem_begin rc ttl org key r =
     (let redis_key = idem_key org key in
      case rc_set rc redis_key STATUS_IN_PROGRESS True ttl r of
        (Inl _, r1) \<Rightarrow> (IdempotencyMiss, r1)
      | (Inr claimed, r1) \<Rightarrow>
          if claimed then (IdempotencyMiss, r1)
          else (case rc_get rc redis_key r1 of
                  (Inl _, r2) \<Rightarrow> (IdempotencyMiss, r2)
                | (Inr None, r2) \<Rightarrow> (IdempotencyMiss, r2)
                | (Inr (Some existing), r2) \<Rightarrow>
                    (if existing = STATUS_IN_PROGRESS then IdempotencyInProgress
                     else if startswith existing (STATUS_COMPLETED @ '':'')
                     then IdempotencyCompleted (removeprefix existing (STATUS_COMPLETED @ '':''))
                     else IdempotencyInProgress, r2)))"

definition idem_complete :: "'r redis_client \<Rightarrow> int \<Rightarrow> uuid \<Rightarrow> string \<Rightarrow> string \<Rightarrow> 'r \<Rightarrow> 'r" where
  "idem_complete rc ttl org key payload r =
     snd (rc_set rc (idem_key org key) (STATUS_COMPLETED @ '':'' @ payload) False ttl r)"

definition idem_release :: "'r redis_client \<Rightarrow> uuid \<Rightarrow> string \<Rightarrow> 'r \<Rightarrow> 'r" where
  "idem_release rc org key r =
     (let redis_key = idem_key org key in
      case rc_get rc redis_key r of
        (Inl _, r1) \<Rightarrow> r1
      | (Inr current, r1) \<Rightarrow> if current = Some STATUS_IN_PROGRESS then snd (rc_delete rc redis_key r1) else r1)"

section \<open>Response cache\<close>

definition cache_key :: "uuid \<Rightarrow> string \<Rightarrow> string" where
  "cache_key org fingerprint = ''cache:resp:'' @ uuid_str org @ '':'' @ fingerprint"

definition cache_get :: "'r redis_client \<Rightarrow> uuid \<Rightarrow> string \<Rightarrow> 'r \<Rightarrow> string option \<times> 'r" where
  "cache_get rc org fingerprint r = (case rc_get rc (cache_key org fingerprint) r of
     (Inl _, r1) \<Rightarrow> (None, r1) | (Inr raw, r1) \<Rightarrow> (raw, r1))"

definition cache_set :: "'r redis_client \<Rightarrow> int \<Rightarrow> uuid \<Rightarrow> string \<Rightarrow> string \<Rightarrow> 'r \<Rightarrow> 'r" where
  "cache_set rc ttl org fingerprint payload r = snd (rc_set rc (cache_key org fingerprint) payload False ttl r)"

section \<open>Rate limiter\<close>

record rate_limit_decision =
  rd_allowed :: bool
  rd_retry_after_seconds :: "int option"

definition token_bucket :: "rat \<Rightarrow> rat \<Rightarrow> rat \<Rightarrow> rat \<Rightarrow> bucket_script" where
  "token_bucket capacity refill_per_second now requested data =
     (let (tokens, timestamp) = (case data of None \<Rightarrow> (capacity, now) | Some b \<Rightarrow> b);
          elapsed = max 0 (now - timestamp);
          tokens = min capacity (tokens + elapsed * refill_per_second);
          allowed = (requested \<le> tokens);
          retry_after = (if allowed then 0 else \<lceil>(requested - tokens) / refill_per_second\<rceil>)
      in ((allowed, retry_after), (if allowed then tokens - requested else tokens, now),
          \<lceil>capacity / refill_per_second\<rceil> + 1))"

record rate_limiter =
  rl_capacity :: rat
  rl_refill_per_second :: rat

definition mk_rate_limiter :: "int \<Rightarrow> int \<Rightarrow> rate_limiter" where
  "mk_rate_limiter requests_per_minute burst =
     \<lparr>rl_capacity = of_int burst, rl_refill_per_second = of_int requests_per_minute / 60\<rparr>"

definition rate_key :: "uuid \<Rightarrow> string" where
  "rate_key org = ''rl:org:'' @ uuid_str org"

text \<open>\<open>now\<close> is the reading of the limiter's clock.\<close>

definition rate_consume :: "'r redis_client \<Rightarrow> rate_limiter \<Rightarrow> rat \<Rightarrow> uuid \<Rightarrow> 'r \<Rightarrow> rate_limit_decision \<times> 'r" where
  "rate_consume rc rl now org r =
     (case rc_eval rc (rate_key org) (token_bucket (rl_capacity rl) (rl_refill_per_second rl) now 1) r of
        (Inl _, r1) \<Rightarrow> (\<lparr>rd_allowed = True, rd_retry_after_seconds = None\<rparr>, r1)
      | (Inr (allowed, retry_after), r1) \<Rightarrow>
          (\<lparr>rd_allowed = allowed, rd_retry_after_seconds = (if \<not> allowed then Some retry_after else None)\<rparr>, r1))"

section \<open>Keys\<close>

lemma idem_key_inj [simp]: "idem_key o1 k1 = idem_key o2 k2 \<longleftrightarrow> o1 = o2 \<and> k1 = k2"
  by (auto simp: idem_key_def append_eq_append_conv)

lemma cache_key_inj [simp]: "cache_key o1 f1 = cache_key o2 f2 \<longleftrightarrow> o1 = o2 \<and> f1 = f2"
  by (auto simp: cache_key_def append_eq_append_conv)

lemma rate_key_inj [simp]: "rate_key o1 = rate_key o2 \<longleftrightarrow> o1 = o2"
  by (auto simp: rate_key_def)

lemma key_spaces_disjoint [simp]: "idem_key o1 k \<noteq> cache_key o2 f" "cache_key o2 f \<noteq> idem_key o1 k"
  "idem_key o1 k \<noteq> rate_key o2" "cache_key o1 f \<noteq> rate_key o2"
  by (simp_all add: idem_key_def cache_key_def rate_key_def)

section \<open>What the adapters rely on\<close>

text \<open>
  \<open>val r k\<close> is the live string under a key and \<open>bkt r k\<close> the live hash. A command answers from the
  state and has its documented effect; when it raises, it may or may not have been executed.
  Keys that a command does not name keep their values.
\<close>

locale redis_client =
  fixes rc :: "'r redis_client"
    and val :: "'r \<Rightarrow> string \<Rightarrow> string option"
    and bkt :: "'r \<Rightarrow> string \<Rightarrow> bucket option"
  assumes set_answer: "rc_set rc k v nx ex r = (Inr b, r') \<Longrightarrow>
      (b \<longleftrightarrow> \<not> nx \<or> val r k = None) \<and> val r' = (if b then (val r)(k \<mapsto> v) else val r) \<and> bkt r' = bkt r"
    and set_error: "rc_set rc k v nx ex r = (Inl u, r') \<Longrightarrow>
      (val r' = val r \<or> val r' = (if \<not> nx \<or> val r k = None then (val r)(k \<mapsto> v) else val r)) \<and> bkt r' = bkt r"
    and get_answer: "rc_get rc k r = (Inr x, r') \<Longrightarrow> x = val r k"
    and get_state: "rc_get rc k r = (y, r') \<Longrightarrow> val r' = val r \<and> bkt r' = bkt r"
    and delete_state: "rc_delete rc k r = (z, r') \<Longrightarrow>
      (val r' = (val r)(k := None) \<or> (z = Inl () \<and> val r' = val r)) \<and> bkt r' = bkt r"
    and eval_answer: "rc_eval rc k script r = (Inr w, r') \<Longrightarrow>
      w = fst (script (bkt r k)) \<and> bkt r' = (bkt r)(k \<mapsto> fst (snd (script (bkt r k)))) \<and> val r' = val r"
    and eval_error: "rc_eval rc k script r = (Inl u, r') \<Longrightarrow>
      (bkt r' = bkt r \<or> bkt r' = (bkt r)(k \<mapsto> fst (snd (script (bkt r k))))) \<and> val r' = val r"

text \<open>A client whose commands do not raise.\<close>

locale healthy_redis = redis_client +
  assumes set_ok: "\<exists>b. fst (rc_set rc k v nx ex r) = Inr b"
    and get_ok: "\<exists>x. fst (rc_get rc k r) = Inr x"
    and delete_ok: "fst (rc_delete rc k r) = Inr ()"
    and eval_ok: "\<exists>w. fst (rc_eval rc k script r) = Inr w"

section \<open>The port \<open>IdempotencyStore\<close>\<close>

text \<open>\<open>Unknown\<close> is a record that is neither a lease nor a completed payload.\<close>

datatype idem_state = Free | Busy | Done string | Unknown

text \<open>
  What the port promises even when the store fails open: a record answers only for its own
  organization and key, a completed record is replayed or kept, never lost to \<open>begin\<close> or \<open>release\<close>,
  and \<open>complete\<close> leaves the payload or the old record.
\<close>

locale idempotency_store =
  fixes i_begin :: "uuid \<Rightarrow> string \<Rightarrow> 's \<Rightarrow> idempotency_begin_result \<times> 's"
    and i_complete :: "uuid \<Rightarrow> string \<Rightarrow> string \<Rightarrow> 's \<Rightarrow> 's"
    and i_release :: "uuid \<Rightarrow> string \<Rightarrow> 's \<Rightarrow> 's"
    and view :: "'s \<Rightarrow> uuid \<Rightarrow> string \<Rightarrow> idem_state"
  assumes begin_answer: "i_begin org k s = (res, s') \<Longrightarrow>
      (res = IdempotencyMiss \<or> view s' org k = view s org k \<and>
        (case res of IdempotencyCompleted p \<Rightarrow> view s org k = Done p | _ \<Rightarrow> view s org k \<in> {Busy, Unknown}))"
    and begin_state: "view (snd (i_begin org k s)) org k = view s org k \<or>
      (view s org k = Free \<and> view (snd (i_begin org k s)) org k = Busy)"
    and complete_state: "view (i_complete org k p s) org k \<in> {Done p, view s org k}"
    and release_state: "view (i_release org k s) org k = view s org k \<or>
      (view s org k = Busy \<and> view (i_release org k s) org k = Free)"
    and isolated: "(org', k') \<noteq> (org, k) \<Longrightarrow>
      view (snd (i_begin org k s)) org' k' = view s org' k' \<and>
      view (i_complete org k p s) org' k' = view s org' k' \<and>
      view (i_release org k s) org' k' = view s org' k'"
begin

lemma done_kept:
  assumes "view s org k = Done p"
  shows "view (snd (i_begin org' k' s)) org k = Done p" and "view (i_release org' k' s) org k = Done p"
proof -
  show "view (snd (i_begin org' k' s)) org k = Done p"
    using isolated [of org k org' k' s] begin_state [of org' k' s] assms by (cases "(org, k) = (org', k')") auto
  show "view (i_release org' k' s) org k = Done p"
    using isolated [of org k org' k' s] release_state [of org' k' s] assms by (cases "(org, k) = (org', k')") auto
qed

lemma conflict_only_if_busy:
  "fst (i_begin org k s) = IdempotencyInProgress \<Longrightarrow> view s org k \<in> {Busy, Unknown}"
  using begin_answer [of org k s IdempotencyInProgress "snd (i_begin org k s)"] by (cases "i_begin org k s") auto

lemma replay_only_if_done: "fst (i_begin org k s) = IdempotencyCompleted p \<Longrightarrow> view s org k = Done p"
  using begin_answer [of org k s "IdempotencyCompleted p" "snd (i_begin org k s)"] by (cases "i_begin org k s") auto

end

text \<open>A store that does not fail decides exactly.\<close>

locale exact_idempotency_store = idempotency_store +
  assumes begin_exact: "fst (i_begin org k s) = (case view s org k of Free \<Rightarrow> IdempotencyMiss
      | Busy \<Rightarrow> IdempotencyInProgress | Done p \<Rightarrow> IdempotencyCompleted p | Unknown \<Rightarrow> IdempotencyInProgress)"
    and begin_claims: "view s org k = Free \<Longrightarrow> view (snd (i_begin org k s)) org k = Busy"
    and complete_stores: "view (i_complete org k p s) org k = Done p"
    and release_frees: "view s org k = Busy \<Longrightarrow> view (i_release org k s) org k = Free"
begin

lemma replay_after_complete: "fst (i_begin org k (i_complete org k p s)) = IdempotencyCompleted p"
  by (simp add: begin_exact complete_stores)

lemma second_begin_conflicts:
  assumes "fst (i_begin org k s) = IdempotencyMiss"
  shows "fst (i_begin org k (snd (i_begin org k s))) = IdempotencyInProgress"
proof -
  have "view s org k = Free" using assms begin_exact [of org k s] by (cases "view s org k") auto
  then show ?thesis by (simp add: begin_exact begin_claims)
qed

lemma retry_after_release:
  "view s org k = Busy \<Longrightarrow> fst (i_begin org k (i_release org k s)) = IdempotencyMiss"
  by (simp add: begin_exact release_frees)

end

section \<open>The port \<open>ResponseCache\<close>\<close>

locale response_cache =
  fixes c_get :: "uuid \<Rightarrow> string \<Rightarrow> 's \<Rightarrow> string option \<times> 's"
    and c_set :: "uuid \<Rightarrow> string \<Rightarrow> string \<Rightarrow> 's \<Rightarrow> 's"
    and entry :: "'s \<Rightarrow> uuid \<Rightarrow> string \<Rightarrow> string option"
  assumes get_hit: "c_get org f s = (Some p, s') \<Longrightarrow> entry s org f = Some p"
    and get_keeps: "entry (snd (c_get org f s)) = entry s"
    and set_entry: "entry (c_set org f p s) org f \<in> {Some p, entry s org f}"
    and set_isolated: "(org', f') \<noteq> (org, f) \<Longrightarrow> entry (c_set org f p s) org' f' = entry s org' f'"
begin

text \<open>A hit is a payload that was stored for that organization and fingerprint.\<close>

lemma hit_after_set:
  assumes "c_get org f (c_set org' f' p s) = (Some q, s')"
  shows "(org, f) = (org', f') \<and> q = p \<or> entry s org f = Some q"
  using get_hit [OF assms] set_entry [of org' f' p s] set_isolated [of org f org' f' p s]
  by (cases "(org, f) = (org', f')") auto

end

section \<open>The adapters provide the ports\<close>

definition idem_view :: "('r \<Rightarrow> string \<Rightarrow> string option) \<Rightarrow> 'r \<Rightarrow> uuid \<Rightarrow> string \<Rightarrow> idem_state" where
  "idem_view val r org k = (case val r (idem_key org k) of None \<Rightarrow> Free
     | Some s \<Rightarrow> if s = STATUS_IN_PROGRESS then Busy
                 else if startswith s (STATUS_COMPLETED @ '':'') then Done (removeprefix s (STATUS_COMPLETED @ '':''))
                 else Unknown)"

lemma in_progress_not_completed [simp]: "\<not> startswith STATUS_IN_PROGRESS (STATUS_COMPLETED @ '':'')"
  by (simp add: STATUS_IN_PROGRESS_def STATUS_COMPLETED_def startswith_def)

lemma completed_view [simp]: "STATUS_COMPLETED @ '':'' @ p \<noteq> STATUS_IN_PROGRESS"
    "startswith (STATUS_COMPLETED @ '':'' @ p) (STATUS_COMPLETED @ '':'')"
    "removeprefix (STATUS_COMPLETED @ '':'' @ p) (STATUS_COMPLETED @ '':'') = p"
  by (simp_all add: STATUS_IN_PROGRESS_def STATUS_COMPLETED_def startswith_def removeprefix_def)

context redis_client
begin

lemma set_val: "val (snd (rc_set rc k v nx ex r)) = val r \<or>
    (\<not> nx \<or> val r k = None) \<and> val (snd (rc_set rc k v nx ex r)) = (val r)(k \<mapsto> v)"
proof (cases "rc_set rc k v nx ex r")
  case (Pair a r')
  then show ?thesis using set_answer [of k v nx ex r _ r'] set_error [of k v nx ex r _ r']
    by (cases a) (auto split: if_splits)
qed

lemma get_val [simp]: "val (snd (rc_get rc k r)) = val r"
  using get_state [of k r] by (cases "rc_get rc k r") auto

lemma delete_val: "val (snd (rc_delete rc k r)) = val r \<or> val (snd (rc_delete rc k r)) = (val r)(k := None)"
  using delete_state [of k r] by (cases "rc_delete rc k r") auto

lemma begin_val: "val (snd (idem_begin rc ttl org k r)) = val (snd (rc_set rc (idem_key org k) STATUS_IN_PROGRESS True ttl r))"
  by (auto simp: idem_begin_def Let_def split: sum.splits prod.splits option.splits if_splits dest!: get_state)

lemma idem_begin_cases:
  assumes "idem_begin rc ttl org k r = (res, r')"
  obtains "res = IdempotencyMiss"
  | s where "val r (idem_key org k) = Some s" "val r' = val r"
      "res = (if s = STATUS_IN_PROGRESS then IdempotencyInProgress
              else if startswith s (STATUS_COMPLETED @ '':'') then IdempotencyCompleted (removeprefix s (STATUS_COMPLETED @ '':''))
              else IdempotencyInProgress)"
proof -
  obtain a r1 where s1: "rc_set rc (idem_key org k) STATUS_IN_PROGRESS True ttl r = (a, r1)"
    by (cases "rc_set rc (idem_key org k) STATUS_IN_PROGRESS True ttl r")
  obtain y r2 where g: "rc_get rc (idem_key org k) r1 = (y, r2)" by (cases "rc_get rc (idem_key org k) r1")
  show thesis
  proof (cases "\<exists>s. a = Inr False \<and> y = Inr (Some s)")
    case True
    then obtain s where a: "a = Inr False" "y = Inr (Some s)" by blast
    from set_answer [OF s1 [unfolded a]] have "val r1 = val r" by simp
    moreover from get_answer [OF g [unfolded a]] have "val r1 (idem_key org k) = Some s" by simp
    moreover from get_state [OF g] have "val r2 = val r1" by simp
    ultimately show thesis using assms s1 g a that(2) by (auto simp: idem_begin_def Let_def)
  next
    case False
    then have "res = IdempotencyMiss" using assms s1 g
      by (auto simp: idem_begin_def Let_def split: sum.splits if_splits option.splits)
    then show thesis by (rule that(1))
  qed
qed

end

sublocale redis_client \<subseteq> idem: idempotency_store "idem_begin rc ttl" "idem_complete rc ttl" "idem_release rc" "idem_view val"
  for ttl
proof
  fix org :: uuid and k :: string and s s' :: 'r and res p org' k'
  show "idem_begin rc ttl org k s = (res, s') \<Longrightarrow>
      (res = IdempotencyMiss \<or> idem_view val s' org k = idem_view val s org k \<and>
        (case res of IdempotencyCompleted p \<Rightarrow> idem_view val s org k = Done p | _ \<Rightarrow> idem_view val s org k \<in> {Busy, Unknown}))"
    by (erule idem_begin_cases) (auto simp: idem_view_def)
  show "idem_view val (snd (idem_begin rc ttl org k s)) org k = idem_view val s org k \<or>
      (idem_view val s org k = Free \<and> idem_view val (snd (idem_begin rc ttl org k s)) org k = Busy)"
    using set_val [of "idem_key org k" STATUS_IN_PROGRESS True ttl s] by (auto simp: idem_view_def begin_val)
  show "idem_view val (idem_complete rc ttl org k p s) org k \<in> {Done p, idem_view val s org k}"
    using set_val [of "idem_key org k" "STATUS_COMPLETED @ '':'' @ p" False ttl s]
    by (auto simp: idem_view_def idem_complete_def simp del: append.simps)
  have rel: "val (idem_release rc org k s) = val s \<or>
      val s (idem_key org k) = Some STATUS_IN_PROGRESS \<and> val (idem_release rc org k s) = (val s)(idem_key org k := None)"
  proof (cases "rc_get rc (idem_key org k) s")
    case (Pair y r1)
    then show ?thesis
      using get_state [OF Pair] get_answer [of "idem_key org k" s _ r1] delete_val [of "idem_key org k" r1]
      by (auto simp: idem_release_def Let_def split: sum.split)
  qed
  then show "idem_view val (idem_release rc org k s) org k = idem_view val s org k \<or>
      (idem_view val s org k = Busy \<and> idem_view val (idem_release rc org k s) org k = Free)"
    by (auto simp: idem_view_def)
  assume other: "(org', k') \<noteq> (org, k)"
  show "idem_view val (snd (idem_begin rc ttl org k s)) org' k' = idem_view val s org' k' \<and>
      idem_view val (idem_complete rc ttl org k p s) org' k' = idem_view val s org' k' \<and>
      idem_view val (idem_release rc org k s) org' k' = idem_view val s org' k'"
    using other rel set_val [of "idem_key org k" STATUS_IN_PROGRESS True ttl s]
      set_val [of "idem_key org k" "STATUS_COMPLETED @ '':'' @ p" False ttl s]
    by (auto simp: idem_view_def begin_val idem_complete_def simp del: append.simps)
qed

definition cache_view :: "('r \<Rightarrow> string \<Rightarrow> string option) \<Rightarrow> 'r \<Rightarrow> uuid \<Rightarrow> string \<Rightarrow> string option" where
  "cache_view val r org f = val r (cache_key org f)"

sublocale redis_client \<subseteq> cache: response_cache "cache_get rc" "cache_set rc ttl" "cache_view val"
  for ttl
proof
  fix org :: uuid and f :: string and s s' :: 'r and p org' f'
  show "cache_get rc org f s = (Some p, s') \<Longrightarrow> cache_view val s org f = Some p"
    by (auto simp: cache_get_def cache_view_def split: sum.splits prod.splits dest: get_answer)
  show "cache_view val (snd (cache_get rc org f s)) = cache_view val s"
    by (auto simp: cache_get_def cache_view_def fun_eq_iff dest: get_state split: sum.split prod.split)
  show "cache_view val (cache_set rc ttl org f p s) org f \<in> {Some p, cache_view val s org f}"
    using set_val [of "cache_key org f" p False ttl s] by (auto simp: cache_set_def cache_view_def)
  show "(org', f') \<noteq> (org, f) \<Longrightarrow> cache_view val (cache_set rc ttl org f p s) org' f' = cache_view val s org' f'"
    using set_val [of "cache_key org f" p False ttl s] by (auto simp: cache_set_def cache_view_def)
qed

sublocale healthy_redis \<subseteq> exact: exact_idempotency_store
  "idem_begin rc ttl" "idem_complete rc ttl" "idem_release rc" "idem_view val"
  for ttl
proof
  fix org :: uuid and k p :: string and s :: 'a
  let ?k = "idem_key org k"
  obtain b r1 where s1: "rc_set rc ?k STATUS_IN_PROGRESS True ttl s = (Inr b, r1)"
    using set_ok [of ?k STATUS_IN_PROGRESS True ttl s] by (cases "rc_set rc ?k STATUS_IN_PROGRESS True ttl s") auto
  note set1 = set_answer [OF s1]
  obtain y r2 where g: "rc_get rc ?k r1 = (Inr y, r2)"
    using get_ok [of ?k r1] by (cases "rc_get rc ?k r1") auto
  note get1 = get_answer [OF g]
  show "fst (idem_begin rc ttl org k s) = (case idem_view val s org k of Free \<Rightarrow> IdempotencyMiss
      | Busy \<Rightarrow> IdempotencyInProgress | Done p \<Rightarrow> IdempotencyCompleted p | Unknown \<Rightarrow> IdempotencyInProgress)"
    using s1 g set1 get1
    by (auto simp: idem_begin_def idem_view_def Let_def split: option.splits if_splits)
  show "idem_view val s org k = Free \<Longrightarrow> idem_view val (snd (idem_begin rc ttl org k s)) org k = Busy"
    using s1 set1 by (auto simp: begin_val idem_view_def split: option.splits if_splits)
  obtain b2 r3 where s2: "rc_set rc ?k (STATUS_COMPLETED @ '':'' @ p) False ttl s = (Inr b2, r3)"
    using set_ok [of ?k "STATUS_COMPLETED @ '':'' @ p" False ttl s]
    by (cases "rc_set rc ?k (STATUS_COMPLETED @ '':'' @ p) False ttl s") auto
  show "idem_view val (idem_complete rc ttl org k p s) org k = Done p"
    using s2 set_answer [OF s2] by (simp add: idem_complete_def idem_view_def del: append.simps)
  obtain z r4 where g2: "rc_get rc ?k s = (Inr z, r4)"
    using get_ok [of ?k s] by (cases "rc_get rc ?k s") auto
  have del: "val (snd (rc_delete rc ?k r4)) = (val r4)(?k := None)"
    using delete_state [of ?k r4] delete_ok [of ?k r4] by (cases "rc_delete rc ?k r4") auto
  show "idem_view val s org k = Busy \<Longrightarrow> idem_view val (idem_release rc org k s) org k = Free"
    using g2 get_answer [OF g2] get_state [OF g2] del
    by (auto simp: idem_release_def idem_view_def Let_def split: option.splits if_splits)
qed

section \<open>A reference store\<close>

text \<open>A Redis that keeps strings and hashes in two dictionaries and never fails; the contract is satisfiable.\<close>

record map_redis_state =
  ms_strings :: "(string, string) dict"
  ms_hashes :: "(string, bucket) dict"

definition map_redis :: "map_redis_state redis_client" where
  "map_redis = \<lparr>
     rc_set = (\<lambda>k v nx ex r. if nx \<and> dict_get (ms_strings r) k \<noteq> None then (Inr False, r)
                 else (Inr True, r\<lparr>ms_strings := dict_set k v (ms_strings r)\<rparr>)),
     rc_get = (\<lambda>k r. (Inr (dict_get (ms_strings r) k), r)),
     rc_delete = (\<lambda>k r. (Inr (), r\<lparr>ms_strings := filter (\<lambda>kv. fst kv \<noteq> k) (ms_strings r)\<rparr>)),
     rc_eval = (\<lambda>k script r. case script (dict_get (ms_hashes r) k) of (w, b, ex) \<Rightarrow>
                 (Inr w, r\<lparr>ms_hashes := dict_set k b (ms_hashes r)\<rparr>))\<rparr>"

definition ms_val :: "map_redis_state \<Rightarrow> string \<Rightarrow> string option" where "ms_val r = dict_get (ms_strings r)"
definition ms_bkt :: "map_redis_state \<Rightarrow> string \<Rightarrow> bucket option" where "ms_bkt r = dict_get (ms_hashes r)"

lemma dict_get_filter: "dict_get (filter (\<lambda>kv. fst kv \<noteq> k) d) = (dict_get d)(k := None)"
  by (induction d) (auto simp: dict_get_def fun_eq_iff)

interpretation reference: healthy_redis map_redis ms_val ms_bkt
  by unfold_locales
    (auto simp: map_redis_def ms_val_def ms_bkt_def fun_eq_iff dict_get_filter split: if_splits prod.splits)

section \<open>The token bucket\<close>

definition bucket_ok :: "rat \<Rightarrow> bucket option \<Rightarrow> bool" where
  "bucket_ok capacity b \<longleftrightarrow> (case b of None \<Rightarrow> True | Some (t, ts) \<Rightarrow> 0 \<le> t \<and> t \<le> capacity)"

text \<open>The tokens available at time \<open>now\<close>.\<close>

definition available :: "rat \<Rightarrow> rat \<Rightarrow> rat \<Rightarrow> bucket option \<Rightarrow> rat" where
  "available capacity refill now data =
     (case data of None \<Rightarrow> capacity | Some (t, ts) \<Rightarrow> min capacity (t + max 0 (now - ts) * refill))"

lemma token_bucket_alt:
  "token_bucket capacity refill now requested data =
    (let a = available capacity refill now data in
     ((requested \<le> a, if requested \<le> a then 0 else \<lceil>(requested - a) / refill\<rceil>),
      (if requested \<le> a then a - requested else a, now), \<lceil>capacity / refill\<rceil> + 1))"
  by (auto simp: token_bucket_def available_def Let_def split: option.split prod.split)

lemma available_bounds:
  assumes "bucket_ok capacity data" "0 \<le> refill" "0 \<le> capacity"
  shows "0 \<le> available capacity refill now data" "available capacity refill now data \<le> capacity"
  using assms by (auto simp: available_def bucket_ok_def split: option.splits prod.splits)

text \<open>Serving a sequence of requests for one token at the given times: the number allowed, and the bucket.\<close>

fun serve :: "rat \<Rightarrow> rat \<Rightarrow> rat list \<Rightarrow> bucket option \<Rightarrow> nat \<times> bucket option" where
  "serve capacity refill [] data = (0, data)"
| "serve capacity refill (t # ts) data =
     (case token_bucket capacity refill t 1 data of ((ok, retry), b, ex) \<Rightarrow>
       (case serve capacity refill ts (Some b) of (n, data') \<Rightarrow> (if ok then Suc n else n, data')))"

lemma serve_bound:
  assumes "0 \<le> refill" "sorted (t0 # ts)" "0 \<le> tok" "tok \<le> capacity"
  shows "rat_of_nat (fst (serve capacity refill ts (Some (tok, t0)))) \<le> tok + refill * (last (t0 # ts) - t0)"
  using assms
proof (induction ts arbitrary: tok t0)
  case Nil
  then show ?case by simp
next
  case (Cons t ts)
  define a where "a = available capacity refill t (Some (tok, t0))"
  have le: "t0 \<le> t" "sorted (t # ts)" using Cons.prems(2) by auto
  have a: "a \<le> tok + refill * (t - t0)" "0 \<le> a" "a \<le> capacity"
    using le Cons.prems(1,3,4) available_bounds [of capacity "Some (tok, t0)" refill t]
    by (auto simp: a_def available_def bucket_ok_def max_def algebra_simps)
  show ?case
  proof (cases "1 \<le> a")
    case True
    obtain n d where s: "serve capacity refill ts (Some (a - 1, t)) = (n, d)"
      by (cases "serve capacity refill ts (Some (a - 1, t))")
    from Cons.IH [OF Cons.prems(1) le(2), of "a - 1"] True a s
    have "rat_of_nat n \<le> a - 1 + refill * (last (t # ts) - t)" by simp
    moreover have "fst (serve capacity refill (t # ts) (Some (tok, t0))) = Suc n"
      using True s by (simp add: token_bucket_alt Let_def a_def)
    ultimately show ?thesis using a(1) by (simp add: algebra_simps)
  next
    case False
    obtain n d where s: "serve capacity refill ts (Some (a, t)) = (n, d)"
      by (cases "serve capacity refill ts (Some (a, t))")
    from Cons.IH [OF Cons.prems(1) le(2), of a] a s
    have "rat_of_nat n \<le> a + refill * (last (t # ts) - t)" by simp
    moreover have "fst (serve capacity refill (t # ts) (Some (tok, t0))) = n"
      using False s by (simp add: token_bucket_alt Let_def a_def)
    ultimately show ?thesis using a(1) by (simp add: algebra_simps)
  qed
qed

section \<open>Properties\<close>



text \<open>The retry-after is honest. A denied request is told to wait at least one second; if the bucket is
  left alone, a request after that wait is allowed (for a burst of at least one token and a positive rate).\<close>

theorem retry_after_honest:
  assumes "token_bucket capacity refill now 1 data = ((False, retry), b, ex)"
    and "0 < refill" and "1 \<le> capacity" and "now + of_int retry \<le> later"
  shows "1 \<le> retry \<and> fst (fst (token_bucket capacity refill later 1 (Some b)))"
proof -
  let ?a = "available capacity refill now data"
  from assms(1) have d: "\<not> 1 \<le> ?a" "retry = \<lceil>(1 - ?a) / refill\<rceil>" "b = (?a, now)"
    by (auto simp: token_bucket_alt Let_def split: if_splits)
  have pos: "0 < (1 - ?a) / refill" using d(1) assms(2) by simp
  then have one: "1 \<le> retry" unfolding d(2) by linarith
  have "(1 - ?a) / refill \<le> of_int retry" unfolding d(2) by (rule le_of_int_ceiling)
  also have "of_int retry \<le> later - now" using assms(4) by simp
  finally have "1 - ?a \<le> (later - now) * refill" using assms(2) by (simp add: pos_divide_le_eq)
  moreover have "0 \<le> later - now" using one assms(4) by simp
  ultimately have "1 \<le> available capacity refill later (Some b)"
    using assms(3) by (simp add: available_def d(3))
  with one show ?thesis by (simp add: token_bucket_alt Let_def)
qed

lemma retry_after_honest_witness:
  "fst (fst (token_bucket 1 (1/2) 12 1 (Some (0, 10))))"
proof -
  have "token_bucket 1 (1/2) 10 1 (Some (0, 10)) = ((False, 2), (0, 10), 3)"
    by (simp add: token_bucket_def)
  from retry_after_honest [OF this, of 12] show ?thesis by simp
qed

text \<open>The expiry of an idle bucket is not observable. After the time to live the script sets, a bucket
  answers exactly as an absent one, so Redis may drop it.\<close>

theorem expiry_unobservable:
  assumes "bucket_ok capacity (Some (t, ts))" and "0 < refill" and "0 \<le> capacity"
    and "ts + of_int (snd (snd (token_bucket capacity refill ts 1 data))) \<le> now"
  shows "token_bucket capacity refill now 1 (Some (t, ts)) = token_bucket capacity refill now 1 None"
proof -
  have "capacity / refill \<le> of_int (\<lceil>capacity / refill\<rceil> + 1)" by linarith
  also have "\<dots> \<le> now - ts" using assms(4) by (simp add: token_bucket_alt Let_def)
  finally have "capacity \<le> (now - ts) * refill" using assms(2) by (simp add: pos_divide_le_eq)
  moreover have "0 \<le> t" using assms(1) by (simp add: bucket_ok_def)
  moreover have "(now - ts) * refill \<le> max 0 (now - ts) * refill" using assms(2) by simp
  ultimately have "available capacity refill now (Some (t, ts)) = available capacity refill now None"
    by (simp add: available_def)
  then show ?thesis by (simp add: token_bucket_alt)
qed

lemma expiry_unobservable_witness: "token_bucket 2 1 20 1 (Some (0, 10)) = token_bucket 2 1 20 1 None"
proof -
  have "10 + rat_of_int (snd (snd (token_bucket 2 1 10 1 None))) \<le> 20"
    by (simp add: token_bucket_def)
  with expiry_unobservable [of 2 0 10 1 None 20] show ?thesis by (simp add: bucket_ok_def)
qed

end
