(* ===== verification/Metrics.thy ===== *)
theory Metrics
  imports PyFloat "HOL-Library.Product_Lexorder" Prelude
begin

text \<open>
  The in-process metrics store of \<open>telemetry/metrics.py\<close>: counters and summaries keyed by a name and
  sorted labels, and their rendering as Prometheus text. Values are Python floats, so every addition
  rounds. The lemmas show which series an operation touches and that different label sets are
  rendered differently.
\<close>

section \<open>The store\<close>

type_synonym label_map = "(string, string) dict"
type_synonym series = "string \<times> (string \<times> string) list"

record metrics =
  mt_counters :: "(series, pyfloat) dict"
  mt_sums :: "(series, pyfloat) dict"
  mt_counts :: "(series, pyfloat) dict"

definition new_metrics :: metrics where
  "new_metrics = \<lparr>mt_counters = [], mt_sums = [], mt_counts = []\<rparr>"

fun float_add :: "pyfloat \<Rightarrow> pyfloat \<Rightarrow> pyfloat" where
  "float_add (Fin a) (Fin b) = float_of_rat (a + b)"
| "float_add NaN _ = NaN"
| "float_add _ NaN = NaN"
| "float_add PosInf NegInf = NaN"
| "float_add NegInf PosInf = NaN"
| "float_add PosInf _ = PosInf"
| "float_add NegInf _ = NegInf"
| "float_add (Fin _) x = x"

definition freeze :: "label_map \<Rightarrow> (string \<times> string) list" where
  "freeze labels = sort labels"

lemma set_freeze [simp]: "set (freeze ls) = set ls"
  by (simp add: freeze_def)

text \<open>\<open>d[key] += amount\<close> on a \<open>defaultdict(float)\<close>.\<close>

definition add_sample :: "series \<Rightarrow> pyfloat \<Rightarrow> (series, pyfloat) dict \<Rightarrow> (series, pyfloat) dict" where
  "add_sample key amount d =
     dict_set key (float_add (case dict_get d key of None \<Rightarrow> Fin 0 | Some v \<Rightarrow> v) amount) d"

definition increment :: "string \<Rightarrow> label_map \<Rightarrow> pyfloat \<Rightarrow> metrics \<Rightarrow> metrics" where
  "increment name labels amount m = m\<lparr>mt_counters := add_sample (name, freeze labels) amount (mt_counters m)\<rparr>"

definition observe :: "string \<Rightarrow> pyfloat \<Rightarrow> label_map \<Rightarrow> metrics \<Rightarrow> metrics" where
  "observe name v labels m = (let key = (name, freeze labels) in
     m\<lparr>mt_sums := add_sample key v (mt_sums m), mt_counts := add_sample key (Fin 1) (mt_counts m)\<rparr>)"

section \<open>Rendering\<close>

definition HELP :: "(string, string) dict" where
  "HELP = [(''http_requests_total'', ''HTTP requests completed.''),
     (''http_request_duration_seconds'', ''HTTP request duration in seconds.''),
     (''generation_requests_total'', ''Generation attempts by result.''),
     (''generation_tokens_total'', ''Tokens reported on successful provider generations.'')]"

definition replace_char :: "char \<Rightarrow> string \<Rightarrow> string \<Rightarrow> string" where
  "replace_char c r s = concat (map (\<lambda>x. if x = c then r else [x]) s)"

definition format_label :: "string \<times> string \<Rightarrow> string" where
  "format_label kv = fst kv @ CHR ''='' # CHR 0x22 #
     replace_char (CHR 0x22) [CHR 0x5C, CHR 0x22] (replace_char (CHR 0x5C) [CHR 0x5C, CHR 0x5C] (snd kv)) @ [CHR 0x22]"

definition format_labels :: "(string \<times> string) list \<Rightarrow> string" where
  "format_labels labels = (if labels = [] then [] else ''{'' @ join '','' (map format_label labels) @ ''}'')"

definition help_lines :: "string \<Rightarrow> string \<Rightarrow> string list" where
  "help_lines name kind =
     [''# HELP '' @ name @ '' '' @ (case dict_get HELP name of None \<Rightarrow> name | Some h \<Rightarrow> h),
      ''# TYPE '' @ name @ '' '' @ kind]"

fun render_counters :: "string list \<Rightarrow> (series \<times> pyfloat) list \<Rightarrow> string list" where
  "render_counters seen [] = []"
| "render_counters seen (((name, labels), v) # items) =
     (if name \<in> set seen then [] else help_lines name ''counter'') @
     (name @ format_labels labels @ '' '' @ repr_float v) #
     render_counters (if name \<in> set seen then seen else name # seen) items"

fun render_summaries :: "(series, pyfloat) dict \<Rightarrow> string list \<Rightarrow> (series \<times> pyfloat) list \<Rightarrow> string list" where
  "render_summaries counts seen [] = []"
| "render_summaries counts seen (((name, labels), v) # items) =
     (if name \<in> set seen then [] else help_lines name ''summary'') @
     (name @ ''_sum'' @ format_labels labels @ '' '' @ repr_float v) #
     (name @ ''_count'' @ format_labels labels @ '' '' @
        repr_float (case dict_get counts (name, labels) of None \<Rightarrow> Fin 0 | Some n \<Rightarrow> n)) #
     render_summaries counts (if name \<in> set seen then seen else name # seen) items"

definition render_prometheus :: "metrics \<Rightarrow> string" where
  "render_prometheus m = join [newline]
     (render_counters [] (sort_key fst (mt_counters m)) @
      render_summaries (mt_counts m) [] (sort_key fst (mt_sums m)) @ [[]])"

section \<open>Which series an operation touches\<close>

definition counter :: "metrics \<Rightarrow> string \<Rightarrow> label_map \<Rightarrow> pyfloat" where
  "counter m name labels = (case dict_get (mt_counters m) (name, freeze labels) of None \<Rightarrow> Fin 0 | Some v \<Rightarrow> v)"

lemma counter_increment:
  "counter (increment n ls a m) n' ls' =
     (if (n', freeze ls') = (n, freeze ls) then float_add (counter m n ls) a else counter m n' ls')"
  by (auto simp: counter_def increment_def add_sample_def)

lemma counter_observe [simp]: "counter (observe n v ls m) n' ls' = counter m n' ls'"
  by (simp add: counter_def observe_def Let_def)

section \<open>Label sets are rendered apart\<close>

definition escape_label :: "string \<Rightarrow> string" where
  "escape_label s = concat (map (\<lambda>c. if c = CHR 0x22 \<or> c = CHR 0x5C then [CHR 0x5C, c] else [c]) s)"

lemma escape_label_simps [simp]: "escape_label [] = []"
  "escape_label (c # s) = (if c = CHR 0x22 \<or> c = CHR 0x5C then [CHR 0x5C, c] else [c]) @ escape_label s"
  by (simp_all add: escape_label_def)

lemma escape_label_eq:
  "replace_char (CHR 0x22) [CHR 0x5C, CHR 0x22] (replace_char (CHR 0x5C) [CHR 0x5C, CHR 0x5C] s) = escape_label s"
  by (induction s) (auto simp: replace_char_def)

text \<open>A quoted value can be read back up to its closing quote.\<close>

lemma escape_label_prefix:
  "escape_label s @ CHR 0x22 # t = escape_label s' @ CHR 0x22 # t' \<Longrightarrow> s = s' \<and> t = t'"
proof (induction s arbitrary: s')
  case Nil
  then show ?case by (cases s') (auto split: if_splits)
next
  case (Cons c s)
  then show ?case by (cases s') (auto split: if_splits)
qed

definition label_name :: "string \<Rightarrow> bool" where
  "label_name k \<longleftrightarrow> CHR ''='' \<notin> set k"

lemma name_prefix:
  "label_name k \<Longrightarrow> label_name k' \<Longrightarrow> k @ CHR ''='' # t = k' @ CHR ''='' # t' \<Longrightarrow> k = k' \<and> t = t'"
proof (induction k arbitrary: k')
  case Nil
  then show ?case by (cases k') (auto simp: label_name_def)
next
  case (Cons c k)
  then show ?case by (cases k') (auto simp: label_name_def)
qed

lemma format_label_prefix:
  assumes "format_label a @ t = format_label b @ t'" "label_name (fst a)" "label_name (fst b)"
  shows "a = b \<and> t = t'"
proof -
  from assms have "fst a = fst b \<and>
      CHR 0x22 # escape_label (snd a) @ CHR 0x22 # t = CHR 0x22 # escape_label (snd b) @ CHR 0x22 # t'"
    by (intro name_prefix) (simp_all add: format_label_def escape_label_eq)
  with escape_label_prefix [of "snd a" t "snd b" t'] show ?thesis by (simp add: prod_eq_iff)
qed

lemma labels_join_inj:
  assumes "\<forall>kv\<in>set ls. label_name (fst kv)" "\<forall>kv\<in>set ls'. label_name (fst kv)" "ls \<noteq> []" "ls' \<noteq> []"
    and "join '','' (map format_label ls) @ ''}'' @ t = join '','' (map format_label ls') @ ''}'' @ t'"
  shows "ls = ls' \<and> t = t'"
  using assms
proof (induction ls arbitrary: ls')
  case (Cons kv ls)
  obtain kv' ls2 where ls': "ls' = kv' # ls2" using Cons.prems(4) by (cases ls') auto
  let ?rest = "\<lambda>ms u. (if ms = [] then [] else '','' @ join '','' (map format_label ms)) @ ''}'' @ u"
  have eq: "format_label kv @ ?rest ls t = format_label kv' @ ?rest ls2 t'"
    using Cons.prems(5) unfolding ls' by (cases ls; cases ls2) auto
  have step: "kv = kv' \<and> ?rest ls t = ?rest ls2 t'"
    using format_label_prefix [OF eq] Cons.prems(1,2) unfolding ls' by auto
  then show ?case using Cons.IH [of ls2] Cons.prems(1,2) unfolding ls' by (auto split: if_splits)
qed simp

section \<open>Properties\<close>

text \<open>Label sets are rendered apart. Two label sets whose names contain no equals sign are rendered alike
  only when they are the same set, whatever quotes and backslashes their values hold.\<close>

theorem labels_rendered_apart:
  assumes "format_labels (freeze ls) = format_labels (freeze ls')"
    and "\<forall>(k, v)\<in>set ls \<union> set ls'. CHR ''='' \<notin> set k"
  shows "freeze ls = freeze ls' \<and> set ls = set ls'"
proof -
  have n: "\<forall>kv\<in>set (freeze ls). label_name (fst kv)" "\<forall>kv\<in>set (freeze ls'). label_name (fst kv)"
    using assms(2) by (auto simp: label_name_def)
  have "freeze ls = freeze ls'"
  proof (cases "freeze ls = [] \<or> freeze ls' = []")
    case True
    then show ?thesis using assms(1) by (auto simp: format_labels_def split: if_splits)
  next
    case False
    with labels_join_inj [OF n, of "[]" "[]"] assms(1) show ?thesis by (simp add: format_labels_def)
  qed
  then show ?thesis by (metis set_freeze)
qed

lemma labels_rendered_apart_witness:
  "format_labels (freeze [(''path'', CHR 0x22 # ''a''), (''m'', ''G'')]) \<noteq>
     format_labels (freeze [(''path'', CHR 0x5C # ''a''), (''m'', ''G'')])"
proof
  assume eq: "format_labels (freeze [(''path'', CHR 0x22 # ''a''), (''m'', ''G'')]) =
     format_labels (freeze [(''path'', CHR 0x5C # ''a''), (''m'', ''G'')])"
  from labels_rendered_apart [OF eq] show False by (simp add: doubleton_eq_iff)
qed

lemma escape_label_append: "escape_label (u @ w) = escape_label u @ escape_label w"
  by (simp add: escape_label_def)

lemma escape_label_id: "CHR 0x22 \<notin> set s \<Longrightarrow> CHR 0x5C \<notin> set s \<Longrightarrow> escape_label s = s"
  by (induction s) auto

lemma render_one_counter:
  "render_prometheus (increment name [(k, v)] a new_metrics) =
     join [newline] (help_lines name ''counter'' @
       [name @ format_labels [(k, v)] @ '' '' @ repr_float (float_add (Fin 0) a), []])"
  by (simp add: render_prometheus_def increment_def add_sample_def dict_get_def new_metrics_def freeze_def)

text \<open>A label value with a line feed forges a sample. The path label of the HTTP counter is the decoded
  request path; when it contains a line feed, the text after it (free of quotes and backslashes) becomes a
  line of its own in the exposition.\<close>

theorem forged_sample_line:
  assumes "CHR 0x22 \<notin> set forged" and "CHR 0x5C \<notin> set forged"
  shows "\<exists>a b. render_prometheus (increment ''http_requests_total''
       [(''path'', ''/'' @ newline # forged @ [newline])] (Fin 1) new_metrics) =
     a @ newline # forged @ newline # b"
proof -
  have ls: "format_labels [(''path'', ''/'' @ newline # forged @ [newline])] =
      (''{path='' @ CHR 0x22 # ''/'') @ newline # forged @ newline # CHR 0x22 # ''}''"
    by (simp add: format_labels_def format_label_def escape_label_eq escape_label_append escape_label_id assms)
  obtain l1 l2 where h: "help_lines ''http_requests_total'' ''counter'' = [l1, l2]" by (simp add: help_lines_def)
  have split: "join [newline] ([l1, l2] @ [n @ (u @ newline # forged @ newline # w) @ x, []]) =
      (l1 @ newline # l2 @ newline # n @ u) @ newline # forged @ newline # w @ x @ [newline]" for n u w x
    by simp
  show ?thesis unfolding render_one_counter h ls by (subst split) blast
qed

lemma forged_sample_line_witness:
  "\<exists>a b. render_prometheus (increment ''http_requests_total''
       [(''path'', ''/'' @ newline # ''generation_requests_total 9e9'' @ [newline])] (Fin 1) new_metrics) =
     a @ newline # ''generation_requests_total 9e9'' @ newline # b"
  by (rule forged_sample_line) simp_all

end
