(* ===== verification/CreateResponse.thy ===== *)
theory CreateResponse
  imports Executor Policy Redis Metrics ResponseStore
begin

text \<open>
  The use case \<open>CreateResponse\<close> of \<open>application/responses/create_response.py\<close>, which composes the rate
  limiter, the idempotency store, the response cache, the policy gate, the provider executor, the usage and
  audit repositories and the metrics. The state of a request is the record \<open>world\<close>: the database, the
  Redis state, the metrics, the state of the upstream providers, and the clocks and identifiers the
  request will read. Log records are left out. A streaming call is the list of the events it yields and the
  exception that ends it; the provider stream is run to its end before its items are handled.
\<close>

section \<open>The world of a request\<close>

record ('r, 'u) world =
  w_db :: db
  w_redis :: 'r
  w_metrics :: metrics
  w_upstream :: 'u
  w_now :: "nat \<Rightarrow> datetime"  \<comment> \<open>successive readings of \<open>datetime.now(UTC)\<close>\<close>
  w_seconds :: "nat \<Rightarrow> rat"  \<comment> \<open>successive readings of \<open>time.time()\<close>\<close>
  w_uuid :: "nat \<Rightarrow> uuid"  \<comment> \<open>successive results of \<open>uuid4()\<close>\<close>
  w_ticks :: nat
  w_uuids :: nat

type_synonym ('r, 'u, 'a) service = "(('r, 'u) world, exn, 'a) act"

definition now_a :: "('r, 'u, datetime) service" where
  "now_a w = (Inr (w_now w (w_ticks w)), w\<lparr>w_ticks := Suc (w_ticks w)\<rparr>)"

definition seconds_a :: "('r, 'u, rat) service" where
  "seconds_a w = (Inr (w_seconds w (w_ticks w)), w\<lparr>w_ticks := Suc (w_ticks w)\<rparr>)"

definition uuid4_a :: "('r, 'u, uuid) service" where
  "uuid4_a w = (Inr (w_uuid w (w_uuids w)), w\<lparr>w_uuids := Suc (w_uuids w)\<rparr>)"

definition db_a :: "(db, exn, 'a) act \<Rightarrow> ('r, 'u, 'a) service" where
  "db_a m w = (case m (w_db w) of (res, d) \<Rightarrow> (res, w\<lparr>w_db := d\<rparr>))"

definition redis_a :: "('r \<Rightarrow> 'a \<times> 'r) \<Rightarrow> ('r, 'u, 'a) service" where
  "redis_a m w = (case m (w_redis w) of (x, r) \<Rightarrow> (Inr x, w\<lparr>w_redis := r\<rparr>))"

definition redis_do :: "('r \<Rightarrow> 'r) \<Rightarrow> ('r, 'u, unit) service" where
  "redis_do f w = (Inr (), w\<lparr>w_redis := f (w_redis w)\<rparr>)"

definition count_a :: "string \<Rightarrow> label_map \<Rightarrow> pyfloat \<Rightarrow> ('r, 'u, unit) service" where
  "count_a name labels amount w = (Inr (), w\<lparr>w_metrics := increment name labels amount (w_metrics w)\<rparr>)"

text \<open>Providers act on the upstream state only.\<close>

definition lift_provider :: "'u model_provider \<Rightarrow> ('r, 'u) world model_provider" where
  "lift_provider p = \<lparr>
     mp_generate = (\<lambda>req w. case mp_generate p req (w_upstream w) of (res, u) \<Rightarrow> (res, w\<lparr>w_upstream := u\<rparr>)),
     mp_stream = (\<lambda>req w. case mp_stream p req (w_upstream w) of (res, u) \<Rightarrow> (res, w\<lparr>w_upstream := u\<rparr>))\<rparr>"

definition lift_executor :: "'u provider_executor \<Rightarrow> ('r, 'u) world provider_executor" where
  "lift_executor x = \<lparr>
     px_router = \<lparr>rt_providers = map (\<lambda>kp. (fst kp, lift_provider (snd kp))) (rt_providers (px_router x)),
                  rt_catalog = rt_catalog (px_router x)\<rparr>,
     px_max_retries = px_max_retries x, px_retry_base_delay = px_retry_base_delay x,
     px_failover_enabled = px_failover_enabled x, px_failover_catalog = px_failover_catalog x,
     px_sleep = (\<lambda>d w. w\<lparr>w_upstream := px_sleep x d (w_upstream w)\<rparr>)\<rparr>"

section \<open>The use case\<close>

record create_command =
  cc_request :: generation_request
  cc_request_id :: string
  cc_organization_id :: uuid
  cc_api_key_id :: uuid
  cc_idempotency_key :: "string option"

record ('r, 'u) create_response =
  sv_executor :: "'u provider_executor"
  sv_redis :: "'r redis_client"
  sv_limiter :: rate_limiter
  sv_idem_ttl :: int
  sv_cache_ttl :: int

definition record_generation_error :: "('r, 'u, unit) service" where
  "record_generation_error = count_a ''generation_requests_total'' [(''result'', ''error'')] (Fin 1)"

definition success_metrics ::
    "generation_response \<Rightarrow> string \<Rightarrow> bool \<Rightarrow> ('r, 'u, unit) service" where
  "success_metrics response outcome count_tokens =
     bind_a (count_a ''generation_requests_total'' [(''result'', ''success''), (''outcome'', outcome)] (Fin 1)) (\<lambda>_.
     case (if count_tokens then rs_usage response else None) of
       None \<Rightarrow> ret_a ()
     | Some u \<Rightarrow>
         bind_a (count_a ''generation_tokens_total'' [(''direction'', ''input'')] (float_of_rat (of_int (tu_input_tokens u)))) (\<lambda>_.
         count_a ''generation_tokens_total'' [(''direction'', ''output'')] (float_of_rat (of_int (tu_output_tokens u)))))"

definition response_audit ::
    "create_command \<Rightarrow> generation_response \<Rightarrow> string \<Rightarrow> string \<Rightarrow> uuid \<Rightarrow> datetime \<Rightarrow> audit_event" where
  "response_audit cmd response outcome provider i now =
     \<lparr>ae_id = i, ae_action = ''response.created'', ae_occurred_at = now,
      ae_organization_id = Some (cc_organization_id cmd), ae_actor_api_key_id = Some (cc_api_key_id cmd),
      ae_request_id = Some (cc_request_id cmd), ae_resource_type = ''response'', ae_resource_id = Some (rs_id response),
      ae_metadata = [(''model'', rs_model response), (''outcome'', outcome), (''provider'', provider)]\<rparr>"

definition record_generation_success ::
    "create_command \<Rightarrow> generation_response \<Rightarrow> string \<Rightarrow> string \<Rightarrow> bool \<Rightarrow> ('r, 'u, unit) service" where
  "record_generation_success cmd response outcome provider count_tokens =
     bind_a (success_metrics response outcome count_tokens) (\<lambda>_.
     bind_a uuid4_a (\<lambda>i. bind_a now_a (\<lambda>now.
     bind_a (lift_a (validate_audit_event (response_audit cmd response outcome provider i now))) (\<lambda>event.
     bind_a (db_a (audit_add event)) (\<lambda>_. ret_a ())))))"

definition usage_of_response ::
    "create_command \<Rightarrow> string \<Rightarrow> generation_response \<Rightarrow> uuid \<Rightarrow> datetime \<Rightarrow> usage_record" where
  "usage_of_response cmd provider response i now =
     \<lparr>ur_id = i, ur_request_id = cc_request_id cmd, ur_organization_id = cc_organization_id cmd,
      ur_api_key_id = cc_api_key_id cmd, ur_provider = provider, ur_model = rs_model response,
      ur_input_tokens = map_option tu_input_tokens (rs_usage response),
      ur_output_tokens = map_option tu_output_tokens (rs_usage response),
      ur_estimated_cost_usd = static_estimate provider (rs_model response) (rs_usage response),
      ur_created_at = now\<rparr>"

definition record_usage :: "create_command \<Rightarrow> string \<Rightarrow> generation_response \<Rightarrow> ('r, 'u, unit) service" where
  "record_usage cmd provider response =
     bind_a uuid4_a (\<lambda>i. bind_a now_a (\<lambda>now.
     bind_a (lift_a (validate_usage_record (usage_of_response cmd provider response i now))) (\<lambda>u.
     bind_a (db_a (usage_add u)) (\<lambda>_. ret_a ()))))"

definition enforce_a :: "create_command \<Rightarrow> string \<Rightarrow> ('r, 'u, unit) service" where
  "enforce_a cmd model =
     bind_a now_a (\<lambda>now. bind_a (db_a (read_a (enforce_policy (cc_organization_id cmd) model
       (gr_max_output_tokens (cc_request cmd)) now))) (\<lambda>_. ret_a ()))"

definition before_route :: "create_command \<Rightarrow> ('r, 'u) world route_hook" where
  "before_route cmd route = enforce_a cmd (mr_model route)"

definition consume_a :: "('r, 'u) create_response \<Rightarrow> create_command \<Rightarrow> ('r, 'u, rate_limit_decision) service" where
  "consume_a sv cmd = bind_a seconds_a (\<lambda>now.
     redis_a (rate_consume (sv_redis sv) (sv_limiter sv) now (cc_organization_id cmd)))"

definition rate_limited :: "rate_limit_decision \<Rightarrow> exn" where
  "rate_limited decision = RateLimitExceededError
     (max 1 (case rd_retry_after_seconds decision of None \<Rightarrow> 1 | Some n \<Rightarrow> n))"

definition begin_a :: "('r, 'u) create_response \<Rightarrow> create_command \<Rightarrow> ('r, 'u, idempotency_begin_result option) service" where
  "begin_a sv cmd = (case cc_idempotency_key cmd of
     None \<Rightarrow> ret_a None
   | Some key \<Rightarrow> bind_a (redis_a (idem_begin (sv_redis sv) (sv_idem_ttl sv) (cc_organization_id cmd) key)) (\<lambda>b. ret_a (Some b)))"

text \<open>\<open>if claimed_idempotency and command.idempotency_key is not None: ...\<close>.\<close>

definition complete_a :: "('r, 'u) create_response \<Rightarrow> create_command \<Rightarrow> bool \<Rightarrow> generation_response \<Rightarrow> ('r, 'u, unit) service" where
  "complete_a sv cmd claimed response = (case cc_idempotency_key cmd of
     Some key \<Rightarrow> if claimed
       then redis_do (idem_complete (sv_redis sv) (sv_idem_ttl sv) (cc_organization_id cmd) key (serialize_response response))
       else ret_a ()
   | None \<Rightarrow> ret_a ())"

definition release_a :: "('r, 'u) create_response \<Rightarrow> create_command \<Rightarrow> bool \<Rightarrow> ('r, 'u, unit) service" where
  "release_a sv cmd claimed = (case cc_idempotency_key cmd of
     Some key \<Rightarrow> if claimed then redis_do (idem_release (sv_redis sv) (cc_organization_id cmd) key) else ret_a ()
   | None \<Rightarrow> ret_a ())"

definition cache_lookup_a :: "('r, 'u) create_response \<Rightarrow> create_command \<Rightarrow> ('r, 'u, string option) service" where
  "cache_lookup_a sv cmd = (if gr_cache (cc_request cmd)
     then redis_a (cache_get (sv_redis sv) (cc_organization_id cmd) (fingerprint_generation_request (cc_request cmd)))
     else ret_a None)"

definition cache_store_a :: "('r, 'u) create_response \<Rightarrow> create_command \<Rightarrow> generation_response \<Rightarrow> ('r, 'u, unit) service" where
  "cache_store_a sv cmd response = (if gr_cache (cc_request cmd)
     then redis_do (cache_set (sv_redis sv) (sv_cache_ttl sv) (cc_organization_id cmd)
       (fingerprint_generation_request (cc_request cmd)) (serialize_response response))
     else ret_a ())"

text \<open>The branch that answers from the cache.\<close>

definition answer_from_cache ::
    "('r, 'u) create_response \<Rightarrow> create_command \<Rightarrow> bool \<Rightarrow> string \<Rightarrow> ('r, 'u, generation_response) service" where
  "answer_from_cache sv cmd claimed payload =
     bind_a (enforce_a cmd (gr_model (cc_request cmd))) (\<lambda>_.
     bind_a (lift_a (map_r (\<lambda>r. r\<lparr>rs_cached := True\<rparr>) (deserialize_response payload))) (\<lambda>response.
     bind_a (complete_a sv cmd claimed response) (\<lambda>_.
     bind_a (record_generation_success cmd response ''cache'' ''cache'' False) (\<lambda>_.
     ret_a response))))"

text \<open>The body of the \<open>try\<close> statement, and the statement.\<close>

definition generate_and_record ::
    "('r, 'u) create_response \<Rightarrow> create_command \<Rightarrow> bool \<Rightarrow> ('r, 'u, generation_response) service" where
  "generate_and_record sv cmd claimed =
     bind_a (execute (lift_executor (sv_executor sv)) (gr_model (cc_request cmd)) (cc_request cmd) (Some (before_route cmd)))
       (\<lambda>execution.
     let response = er_response execution in
     bind_a (record_usage cmd (er_provider_name execution) response) (\<lambda>_.
     bind_a (cache_store_a sv cmd response) (\<lambda>_.
     bind_a (complete_a sv cmd claimed response) (\<lambda>_.
     bind_a (record_generation_success cmd response ''provider'' (er_provider_name execution) True) (\<lambda>_.
     ret_a response)))))"

definition on_exception :: "('r, 'u, 'a) service \<Rightarrow> ('r, 'u, unit) service \<Rightarrow> ('r, 'u, 'a) service" where
  "on_exception body handler w = (case body w of
     (Inr x, w1) \<Rightarrow> (Inr x, w1)
   | (Inl e, w1) \<Rightarrow> bind_a handler (\<lambda>_. raise_a e) w1)"

definition generate_guarded ::
    "('r, 'u) create_response \<Rightarrow> create_command \<Rightarrow> bool \<Rightarrow> ('r, 'u, generation_response) service" where
  "generate_guarded sv cmd claimed =
     on_exception (generate_and_record sv cmd claimed)
       (bind_a (release_a sv cmd claimed) (\<lambda>_. record_generation_error))"

definition answer ::
    "('r, 'u) create_response \<Rightarrow> create_command \<Rightarrow> bool \<Rightarrow> ('r, 'u, generation_response) service" where
  "answer sv cmd claimed = bind_a (cache_lookup_a sv cmd) (\<lambda>cached. case cached of
     Some payload \<Rightarrow> answer_from_cache sv cmd claimed payload
   | None \<Rightarrow> generate_guarded sv cmd claimed)"

definition create_response_execute ::
    "('r, 'u) create_response \<Rightarrow> create_command \<Rightarrow> ('r, 'u, generation_response) service" where
  "create_response_execute sv cmd = bind_a (consume_a sv cmd) (\<lambda>decision.
     if \<not> rd_allowed decision then bind_a record_generation_error (\<lambda>_. raise_a (rate_limited decision))
     else bind_a (begin_a sv cmd) (\<lambda>begin_result. case begin_result of
       Some (IdempotencyCompleted payload) \<Rightarrow>
         bind_a (lift_a (deserialize_response payload)) (\<lambda>response.
         bind_a (record_generation_success cmd response ''idempotent'' ''replay'' False) (\<lambda>_. ret_a response))
     | Some IdempotencyInProgress \<Rightarrow> bind_a record_generation_error (\<lambda>_. raise_a IdempotencyConflictError)
     | Some IdempotencyMiss \<Rightarrow> answer sv cmd True
     | None \<Rightarrow> answer sv cmd False))"

section \<open>Streaming\<close>

fun deliver ::
    "create_command \<Rightarrow> provider_stream_event list \<Rightarrow> ('r, 'u) world \<Rightarrow> (stream_event list \<times> exn option) \<times> ('r, 'u) world" where
  "deliver cmd [] w = (([], None), w)"
| "deliver cmd (item # items) w =
     (case (case se_payload item of
              Delta _ \<Rightarrow> (Inr (), w)
            | Completed response \<Rightarrow>
                bind_a (record_usage cmd (se_provider_name item) response) (\<lambda>_.
                  record_generation_success cmd response ''provider'' (se_provider_name item) True) w) of
        (Inl e, w1) \<Rightarrow> (([], Some e), w1)
      | (Inr _, w1) \<Rightarrow>
          (case deliver cmd items w1 of ((evs, eo), w2) \<Rightarrow> ((se_payload item # evs, eo), w2)))"

definition create_response_stream ::
    "('r, 'u) create_response \<Rightarrow> create_command \<Rightarrow> ('r, 'u) world \<Rightarrow>
     (stream_event list \<times> exn option) \<times> ('r, 'u) world" where
  "create_response_stream sv cmd w =
     (if cc_idempotency_key cmd \<noteq> None
      then (([], Some (DomainValidationError ''Idempotency-Key is not supported for streaming requests.'')), w)
      else case consume_a sv cmd w of
        (Inl e, w1) \<Rightarrow> (([], Some e), w1)
      | (Inr decision, w1) \<Rightarrow>
          if \<not> rd_allowed decision then (([], Some (rate_limited decision)), w1)
          else (case stream (lift_executor (sv_executor sv)) (gr_model (cc_request cmd)) (cc_request cmd)
                   (Some (before_route cmd)) w1 of
                  ((items, eo), w2) \<Rightarrow>
                    (case deliver cmd items w2 of
                       ((evs, Some e), w3) \<Rightarrow> ((evs, Some e), w3)
                     | ((evs, None), w3) \<Rightarrow> ((evs, eo), w3))))"

section \<open>What the executor leaves alone\<close>

text \<open>The part of the world that routing, retries, providers and the policy hook only read.\<close>

definition core :: "('r, 'u) world \<Rightarrow> db \<times> 'r \<times> metrics \<times> (nat \<Rightarrow> datetime) \<times> (nat \<Rightarrow> uuid) \<times> nat" where
  "core w = (w_db w, w_redis w, w_metrics w, w_now w, w_uuid w, w_uuids w)"

lemma core_updates [simp]: "core (w\<lparr>w_upstream := u\<rparr>) = core w" "core (w\<lparr>w_ticks := t\<rparr>) = core w"
  by (simp_all add: core_def)

lemma core_eq: "core w = core w' \<longleftrightarrow> w_db w = w_db w' \<and> w_redis w = w_redis w' \<and> w_metrics w = w_metrics w' \<and>
    w_now w = w_now w' \<and> w_uuid w = w_uuid w' \<and> w_uuids w = w_uuids w'"
  by (simp add: core_def)

lemma router_resolve_lifted:
  "router_resolve (px_router (lift_executor x)) m = Inr (r, p) \<Longrightarrow> \<exists>q. p = lift_provider q"
proof -
  assume "router_resolve (px_router (lift_executor x)) m = Inr (r, p)"
  then obtain k where "map_of (map (\<lambda>kp. (fst kp, lift_provider (snd kp))) (rt_providers (px_router x))) k = Some p"
    by (auto simp: router_resolve_def bind_r_eq_Inr lift_executor_def dict_get_def split: option.splits)
  from map_of_SomeD [OF this] show ?thesis by auto
qed

lemma enforce_effect: "enforce_a cmd m w = (res, w') \<Longrightarrow>
    w' = w\<lparr>w_ticks := Suc (w_ticks w)\<rparr> \<and>
    res = enforce_policy (cc_organization_id cmd) m (gr_max_output_tokens (cc_request cmd)) (w_now w (w_ticks w)) (w_db w)"
  by (auto simp: enforce_a_def now_a_def db_a_def bind_a_def read_a_def ret_a_def split: sum.splits)

interpretation frame: executor_frame "lift_executor x" "Some (before_route cmd)" "\<lambda>w. core w = c"
  for x :: "'u provider_executor" and cmd and c :: "db \<times> 'r \<times> metrics \<times> (nat \<Rightarrow> datetime) \<times> (nat \<Rightarrow> uuid) \<times> nat"
proof
  fix m r req d route and s :: "('r, 'u) world" and p :: "('r, 'u) world model_provider"
  assume c: "core s = c"
  show "core (px_sleep (lift_executor x) d s) = c" using c by (simp add: lift_executor_def)
  show "core (snd (run_hook (Some (before_route cmd)) route s)) = c"
    using c enforce_effect [of cmd "mr_model route" s] by (cases "enforce_a cmd (mr_model route) s") (auto simp: run_hook_def before_route_def)
  assume "router_resolve (px_router (lift_executor x)) m = Inr (r, p)"
  then obtain q where "p = lift_provider q" by (blast dest: router_resolve_lifted)
  with c show "core (snd (mp_generate p req s)) = c" "core (snd (mp_stream p req s)) = c"
    by (auto simp: lift_provider_def split: prod.split)
qed

lemma execute_effect: "execute (lift_executor x) m req (Some (before_route cmd)) w = (res, w') \<Longrightarrow> core w' = core w"
  by (metis frame.execute_keeps snd_conv)

lemma stream_effect: "stream (lift_executor x) m req (Some (before_route cmd)) w = (res, w') \<Longrightarrow> core w' = core w"
  by (metis frame.stream_keeps_P snd_conv)

section \<open>What each step writes\<close>

definition with_audit :: "audit_event list \<Rightarrow> db \<Rightarrow> db" where
  "with_audit es d = d\<lparr>db_audit := db_audit d @ es\<rparr>"

definition with_usage :: "usage_record list \<Rightarrow> db \<Rightarrow> db" where
  "with_usage us d = d\<lparr>db_usage := db_usage d @ us\<rparr>"

lemma with_none [simp]: "with_audit [] d = d" "with_usage [] d = d"
  by (simp_all add: with_audit_def with_usage_def)

lemma audit_add_valid: "audit_event_ok e \<Longrightarrow> audit_add e d =
    (if \<exists>r\<in>set (db_audit d). ae_id r = ae_id e then (Inl IntegrityError, d) else (Inr e, with_audit [e] d))"
  by (simp add: audit_add_def with_audit_def) (simp add: validate_audit_event_Inr)

lemma usage_add_valid: "usage_record_ok u \<Longrightarrow> usage_add u d =
    (if \<not> usage_fits u then (Inl DataError, d)
     else if (\<exists>r\<in>set (db_usage d). ur_id r = ur_id u \<or> ur_request_id r = ur_request_id u) \<or>
         \<not> fk_organization d (ur_organization_id u) \<or> \<not> fk_api_key d (ur_api_key_id u)
     then (Inl IntegrityError, d) else (Inr u, with_usage [u] d))"
  by (simp add: usage_add_def with_usage_def) (simp add: validate_usage_record_Inr)

lemma count_effect: "success_metrics r oc ct w = (res, w') \<Longrightarrow>
    res = Inr () \<and> (\<exists>m. w' = w\<lparr>w_metrics := m\<rparr>)"
  by (auto simp: success_metrics_def count_a_def bind_a_def ret_a_def split: option.splits)

lemma success_effect:
  assumes "record_generation_success cmd r oc pv ct w = (res, w')"
  shows "w_redis w' = w_redis w" "w_upstream w' = w_upstream w"
    "res = Inl e \<Longrightarrow> w_db w' = w_db w"
    "res = Inr u \<Longrightarrow> \<exists>i now. audit_event_ok (response_audit cmd r oc pv i now) \<and>
       w_db w' = with_audit [response_audit cmd r oc pv i now] (w_db w)"
proof -
  obtain w1 where m: "success_metrics r oc ct w = (Inr (), w1)" and w1: "w_redis w1 = w_redis w"
      "w_upstream w1 = w_upstream w" "w_db w1 = w_db w"
    using count_effect [of r oc ct w] by (cases "success_metrics r oc ct w") auto
  let ?e = "response_audit cmd r oc pv (w_uuid w1 (w_uuids w1)) (w_now w1 (w_ticks w1))"
  have run: "record_generation_success cmd r oc pv ct w =
      (case validate_audit_event ?e of
         Inl e \<Rightarrow> (Inl e, w1\<lparr>w_uuids := Suc (w_uuids w1), w_ticks := Suc (w_ticks w1)\<rparr>)
       | Inr ev \<Rightarrow> (case audit_add ev (w_db w1) of
            (Inl e, d) \<Rightarrow> (Inl e, w1\<lparr>w_uuids := Suc (w_uuids w1), w_ticks := Suc (w_ticks w1), w_db := d\<rparr>)
          | (Inr _, d) \<Rightarrow> (Inr (), w1\<lparr>w_uuids := Suc (w_uuids w1), w_ticks := Suc (w_ticks w1), w_db := d\<rparr>)))"
    by (auto simp: record_generation_success_def bind_a_def m uuid4_a_def now_a_def lift_a_def db_a_def ret_a_def
        split: sum.split prod.split)
  show "w_redis w' = w_redis w" "w_upstream w' = w_upstream w"
    using assms w1 unfolding run by (auto split: sum.splits prod.splits)
  show "res = Inl e \<Longrightarrow> w_db w' = w_db w"
    using assms w1 unfolding run
    by (auto simp: audit_add_valid validate_audit_event_Inr split: sum.splits prod.splits if_splits)
  show "res = Inr u \<Longrightarrow> \<exists>i now. audit_event_ok (response_audit cmd r oc pv i now) \<and>
       w_db w' = with_audit [response_audit cmd r oc pv i now] (w_db w)"
    using assms w1 unfolding run
    by (auto simp: audit_add_valid validate_audit_event_Inr split: sum.splits prod.splits if_splits
        intro!: exI [of _ "w_uuid w1 (w_uuids w1)"] exI [of _ "w_now w1 (w_ticks w1)"])
qed

lemma usage_effect:
  assumes "record_usage cmd pv r w = (res, w')"
  shows "w_redis w' = w_redis w" "w_upstream w' = w_upstream w" "w_metrics w' = w_metrics w"
    "res = Inl e \<Longrightarrow> w_db w' = w_db w"
    "res = Inr u \<Longrightarrow> \<exists>i now. usage_record_ok (usage_of_response cmd pv r i now) \<and>
       w_db w' = with_usage [usage_of_response cmd pv r i now] (w_db w)"
proof -
  let ?u = "usage_of_response cmd pv r (w_uuid w (w_uuids w)) (w_now w (w_ticks w))"
  have run: "record_usage cmd pv r w =
      (case validate_usage_record ?u of
         Inl e \<Rightarrow> (Inl e, w\<lparr>w_uuids := Suc (w_uuids w), w_ticks := Suc (w_ticks w)\<rparr>)
       | Inr u \<Rightarrow> (case usage_add u (w_db w) of
            (Inl e, d) \<Rightarrow> (Inl e, w\<lparr>w_uuids := Suc (w_uuids w), w_ticks := Suc (w_ticks w), w_db := d\<rparr>)
          | (Inr _, d) \<Rightarrow> (Inr (), w\<lparr>w_uuids := Suc (w_uuids w), w_ticks := Suc (w_ticks w), w_db := d\<rparr>)))"
    by (auto simp: record_usage_def bind_a_def uuid4_a_def now_a_def lift_a_def db_a_def ret_a_def
        split: sum.split prod.split)
  show "w_redis w' = w_redis w" "w_upstream w' = w_upstream w" "w_metrics w' = w_metrics w"
    using assms unfolding run by (auto split: sum.splits prod.splits)
  show "res = Inl e \<Longrightarrow> w_db w' = w_db w"
    using assms unfolding run
    by (auto simp: usage_add_valid validate_usage_record_Inr split: sum.splits prod.splits if_splits)
  show "res = Inr u \<Longrightarrow> \<exists>i now. usage_record_ok (usage_of_response cmd pv r i now) \<and>
       w_db w' = with_usage [usage_of_response cmd pv r i now] (w_db w)"
    using assms unfolding run
    by (auto simp: usage_add_valid validate_usage_record_Inr split: sum.splits prod.splits if_splits
        intro!: exI [of _ "w_uuid w (w_uuids w)"] exI [of _ "w_now w (w_ticks w)"])
qed

lemma complete_effect: "complete_a sv cmd claimed r w = (res, w') \<Longrightarrow> res = Inr () \<and> w' = w\<lparr>w_redis :=
    (case cc_idempotency_key cmd of Some k \<Rightarrow> if claimed
       then idem_complete (sv_redis sv) (sv_idem_ttl sv) (cc_organization_id cmd) k (serialize_response r) (w_redis w)
       else w_redis w | None \<Rightarrow> w_redis w)\<rparr>"
  by (auto simp: complete_a_def redis_do_def ret_a_def split: option.splits if_splits)

lemma release_effect: "release_a sv cmd claimed w = (res, w') \<Longrightarrow> res = Inr () \<and> w' = w\<lparr>w_redis :=
    (case cc_idempotency_key cmd of Some k \<Rightarrow> if claimed
       then idem_release (sv_redis sv) (cc_organization_id cmd) k (w_redis w) else w_redis w | None \<Rightarrow> w_redis w)\<rparr>"
  by (auto simp: release_a_def redis_do_def ret_a_def split: option.splits if_splits)

lemma cache_store_effect: "cache_store_a sv cmd r w = (res, w') \<Longrightarrow> res = Inr () \<and> w' = w\<lparr>w_redis :=
    (if gr_cache (cc_request cmd)
     then cache_set (sv_redis sv) (sv_cache_ttl sv) (cc_organization_id cmd)
       (fingerprint_generation_request (cc_request cmd)) (serialize_response r) (w_redis w)
     else w_redis w)\<rparr>"
  by (auto simp: cache_store_a_def redis_do_def ret_a_def split: if_splits)

lemma error_effect: "record_generation_error w = (res, w') \<Longrightarrow> res = Inr () \<and>
    w' = w\<lparr>w_metrics := increment ''generation_requests_total'' [(''result'', ''error'')] (Fin 1) (w_metrics w)\<rparr>"
  by (auto simp: record_generation_error_def count_a_def)

lemma consume_effect: "consume_a sv cmd w = (res, w') \<Longrightarrow> \<exists>d r.
    rate_consume (sv_redis sv) (sv_limiter sv) (w_seconds w (w_ticks w)) (cc_organization_id cmd) (w_redis w) = (d, r) \<and>
    res = Inr d \<and> w' = w\<lparr>w_ticks := Suc (w_ticks w), w_redis := r\<rparr>"
  by (auto simp: consume_a_def seconds_a_def redis_a_def bind_a_def split: prod.splits)

lemma begin_effect: "begin_a sv cmd w = (res, w') \<Longrightarrow> (case cc_idempotency_key cmd of
      None \<Rightarrow> res = Inr None \<and> w' = w
    | Some k \<Rightarrow> \<exists>b r. idem_begin (sv_redis sv) (sv_idem_ttl sv) (cc_organization_id cmd) k (w_redis w) = (b, r) \<and>
        res = Inr (Some b) \<and> w' = w\<lparr>w_redis := r\<rparr>)"
  by (auto simp: begin_a_def redis_a_def bind_a_def ret_a_def split: option.splits prod.splits)

lemma cache_lookup_effect: "cache_lookup_a sv cmd w = (res, w') \<Longrightarrow>
    (if gr_cache (cc_request cmd) then \<exists>x r. cache_get (sv_redis sv) (cc_organization_id cmd)
       (fingerprint_generation_request (cc_request cmd)) (w_redis w) = (x, r) \<and> res = Inr x \<and> w' = w\<lparr>w_redis := r\<rparr>
     else res = Inr None \<and> w' = w)"
  by (auto simp: cache_lookup_a_def redis_a_def ret_a_def split: prod.splits)

section \<open>What a request writes\<close>

definition after_generation ::
    "('r, 'u) create_response \<Rightarrow> create_command \<Rightarrow> bool \<Rightarrow> generation_response \<Rightarrow> 'r \<Rightarrow> 'r" where
  "after_generation sv cmd claimed r red =
     (let red1 = (if gr_cache (cc_request cmd)
          then cache_set (sv_redis sv) (sv_cache_ttl sv) (cc_organization_id cmd)
            (fingerprint_generation_request (cc_request cmd)) (serialize_response r) red else red)
      in case cc_idempotency_key cmd of None \<Rightarrow> red1
         | Some k \<Rightarrow> if claimed
             then idem_complete (sv_redis sv) (sv_idem_ttl sv) (cc_organization_id cmd) k (serialize_response r) red1
             else red1)"

definition billed :: "create_command \<Rightarrow> generation_response \<Rightarrow> usage_record list \<Rightarrow> bool" where
  "billed cmd r us \<longleftrightarrow> (\<exists>pv i now. us = [usage_of_response cmd pv r i now] \<and> usage_record_ok (usage_of_response cmd pv r i now))"

definition audited :: "create_command \<Rightarrow> generation_response \<Rightarrow> audit_event list \<Rightarrow> bool" where
  "audited cmd r es \<longleftrightarrow> (\<exists>oc pv i now. es = [response_audit cmd r oc pv i now] \<and> audit_event_ok (response_audit cmd r oc pv i now))"

lemma success_audited:
  assumes "record_generation_success cmd r oc pv ct w = (Inr u, w')"
  shows "\<exists>es. audited cmd r es \<and> w_db w' = with_audit es (w_db w)"
  using success_effect(4) [OF assms refl] unfolding audited_def by blast

lemma usage_billed:
  assumes "record_usage cmd pv r w = (Inr u, w')"
  shows "\<exists>us. billed cmd r us \<and> w_db w' = with_usage us (w_db w)"
  using usage_effect(5) [OF assms refl] unfolding billed_def by blast

lemma record_effect:
  assumes "(bind_a (record_usage cmd pv r) (\<lambda>_. bind_a (cache_store_a sv cmd r) (\<lambda>_. bind_a (complete_a sv cmd claimed r) (\<lambda>_.
      bind_a (record_generation_success cmd r oc pv ct) (\<lambda>_. ret_a r))))) w = (res, w')"
  shows "res = Inr r \<and> w_redis w' = after_generation sv cmd claimed r (w_redis w) \<and>
      (\<exists>us es. billed cmd r us \<and> audited cmd r es \<and> w_db w' = with_audit es (with_usage us (w_db w))) \<or>
    (\<exists>e. res = Inl e) \<and> w_db w' = w_db w \<and> w_redis w' = w_redis w \<or>
    (\<exists>e. res = Inl e) \<and> w_redis w' = after_generation sv cmd claimed r (w_redis w) \<and>
      (\<exists>us. billed cmd r us \<and> w_db w' = with_usage us (w_db w))"
proof -
  obtain a w1 where u: "record_usage cmd pv r w = (a, w1)" by (cases "record_usage cmd pv r w")
  show ?thesis
  proof (cases a)
    case (Inl e)
    with u assms usage_effect(1,4) [OF u] show ?thesis by (auto simp: bind_a_def)
  next
    case (Inr x)
    obtain b w2 where c: "cache_store_a sv cmd r w1 = (b, w2)" by (cases "cache_store_a sv cmd r w1")
    obtain d w3 where k: "complete_a sv cmd claimed r w2 = (d, w3)" by (cases "complete_a sv cmd claimed r w2")
    obtain f w4 where s: "record_generation_success cmd r oc pv ct w3 = (f, w4)"
      by (cases "record_generation_success cmd r oc pv ct w3")
    note c' = cache_store_effect [OF c] and k' = complete_effect [OF k]
    have redis: "w_redis w3 = after_generation sv cmd claimed r (w_redis w)" and db: "w_db w3 = w_db w1"
      using c' k' usage_effect(1) [OF u] by (auto simp: after_generation_def Let_def split: option.split)
    obtain us where us: "billed cmd r us" "w_db w1 = with_usage us (w_db w)" using usage_billed u Inr by blast
    have run: "res = (case f of Inl e \<Rightarrow> Inl e | Inr _ \<Rightarrow> Inr r) \<and> w' = w4"
      using assms u Inr c c' k k' s by (auto simp: bind_a_def ret_a_def split: sum.splits)
    show ?thesis
    proof (cases f)
      case (Inl e)
      with run success_effect(1,3) [OF s] redis db us show ?thesis by auto
    next
      case (Inr y)
      with success_audited s obtain es where "audited cmd r es" "w_db w4 = with_audit es (w_db w3)" by blast
      with run Inr success_effect(1) [OF s] redis db us show ?thesis by auto
    qed
  qed
qed

lemma generate_effect:
  assumes "generate_and_record sv cmd claimed w = (res, w')"
  shows "(\<exists>r us es. res = Inr r \<and> w_redis w' = after_generation sv cmd claimed r (w_redis w) \<and>
      billed cmd r us \<and> audited cmd r es \<and> w_db w' = with_audit es (with_usage us (w_db w))) \<or>
    (\<exists>e. res = Inl e) \<and> w_db w' = w_db w \<and> w_redis w' = w_redis w \<or>
    (\<exists>e r us. res = Inl e \<and> w_redis w' = after_generation sv cmd claimed r (w_redis w) \<and>
      billed cmd r us \<and> w_db w' = with_usage us (w_db w))"
proof -
  obtain a w1 where x: "execute (lift_executor (sv_executor sv)) (gr_model (cc_request cmd)) (cc_request cmd)
      (Some (before_route cmd)) w = (a, w1)"
    by (cases "execute (lift_executor (sv_executor sv)) (gr_model (cc_request cmd)) (cc_request cmd) (Some (before_route cmd)) w")
  have same: "w_db w1 = w_db w" "w_redis w1 = w_redis w" using execute_effect [OF x] by (auto simp: core_eq)
  show ?thesis
  proof (cases a)
    case (Inl e)
    with x assms same show ?thesis by (auto simp: generate_and_record_def bind_a_def)
  next
    case (Inr ex)
    with x assms have "(bind_a (record_usage cmd (er_provider_name ex) (er_response ex)) (\<lambda>_.
        bind_a (cache_store_a sv cmd (er_response ex)) (\<lambda>_. bind_a (complete_a sv cmd claimed (er_response ex)) (\<lambda>_.
        bind_a (record_generation_success cmd (er_response ex) ''provider'' (er_provider_name ex) True)
          (\<lambda>_. ret_a (er_response ex)))))) w1 = (res, w')"
      by (simp add: generate_and_record_def bind_a_def [of "execute _ _ _ _"] Let_def)
    from record_effect [OF this] same show ?thesis by auto
  qed
qed

lemma guarded_effect:
  assumes "generate_guarded sv cmd claimed w = (res, w')"
  shows "(\<exists>r us es. res = Inr r \<and> w_redis w' = after_generation sv cmd claimed r (w_redis w) \<and>
      billed cmd r us \<and> audited cmd r es \<and> w_db w' = with_audit es (with_usage us (w_db w))) \<or>
    (\<exists>e red. res = Inl e \<and> w_redis w' = (case cc_idempotency_key cmd of
        Some k \<Rightarrow> if claimed then idem_release (sv_redis sv) (cc_organization_id cmd) k red else red | None \<Rightarrow> red) \<and>
      (red = w_redis w \<and> w_db w' = w_db w \<or>
       (\<exists>r us. red = after_generation sv cmd claimed r (w_redis w) \<and> billed cmd r us \<and> w_db w' = with_usage us (w_db w))))"
proof -
  obtain a w1 where g: "generate_and_record sv cmd claimed w = (a, w1)" by (cases "generate_and_record sv cmd claimed w")
  show ?thesis
  proof (cases a)
    case (Inr r)
    with g assms have "res = Inr r" "w' = w1" by (auto simp: generate_guarded_def on_exception_def)
    with generate_effect [OF g] Inr show ?thesis by auto
  next
    case (Inl e)
    obtain b w2 where rel: "release_a sv cmd claimed w1 = (b, w2)" by (cases "release_a sv cmd claimed w1")
    obtain c w3 where err: "record_generation_error w2 = (c, w3)" by (cases "record_generation_error w2")
    have "res = Inl e" "w_redis w' = w_redis w2" "w_db w' = w_db w1"
      using assms g Inl rel err release_effect [OF rel] error_effect [OF err]
      by (auto simp: generate_guarded_def on_exception_def bind_a_def raise_a_def)
    moreover have "w_redis w2 = (case cc_idempotency_key cmd of
        Some k \<Rightarrow> if claimed then idem_release (sv_redis sv) (cc_organization_id cmd) k (w_redis w1) else w_redis w1
      | None \<Rightarrow> w_redis w1)"
      using release_effect [OF rel] by auto
    moreover note generate_effect [OF g] Inl
    ultimately show ?thesis by auto
  qed
qed

section \<open>Every way a request can end\<close>

lemma answer_from_cache_effect:
  assumes "answer_from_cache sv cmd claimed payload w = (res, w')"
  shows "w_upstream w' = w_upstream w"
    and "res = Inr r \<Longrightarrow> rs_cached r \<and> (\<exists>es. audited cmd r es \<and> w_db w' = with_audit es (w_db w))"
    and "res = Inl e \<Longrightarrow> w_db w' = w_db w"
proof -
  obtain a w1 where e: "enforce_a cmd (gr_model (cc_request cmd)) w = (a, w1)"
    by (cases "enforce_a cmd (gr_model (cc_request cmd)) w")
  note e' = enforce_effect [OF e]
  have "w_upstream w' = w_upstream w \<and> (\<forall>r. res = Inr r \<longrightarrow> rs_cached r \<and> (\<exists>es. audited cmd r es \<and> w_db w' = with_audit es (w_db w))) \<and>
      (\<forall>e. res = Inl e \<longrightarrow> w_db w' = w_db w)"
  proof (cases "\<exists>u q. a = Inr u \<and> deserialize_response payload = Inr q")
    case False
    have "w_upstream w' = w_upstream w1 \<and> w_db w' = w_db w1 \<and> (\<exists>x. res = Inl x)"
    proof (cases a)
      case (Inl x)
      with assms e show ?thesis by (auto simp: answer_from_cache_def bind_a_def)
    next
      case (Inr u)
      with False obtain x where "deserialize_response payload = Inl x" by (cases "deserialize_response payload") auto
      then have "(Inl x, w1) = (res, w')" using Inr assms e by (simp add: answer_from_cache_def bind_a_def lift_a_def)
      then show ?thesis by blast
    qed
    then show ?thesis using e' by auto
  next
    case True
    then obtain u q where q: "a = Inr u" "deserialize_response payload = Inr q" by blast
    let ?r = "q\<lparr>rs_cached := True\<rparr>"
    obtain b w2 where k: "complete_a sv cmd claimed ?r w1 = (b, w2)" by (cases "complete_a sv cmd claimed ?r w1")
    obtain f w3 where s: "record_generation_success cmd ?r ''cache'' ''cache'' False w2 = (f, w3)"
      by (cases "record_generation_success cmd ?r ''cache'' ''cache'' False w2")
    note k' = complete_effect [OF k]
    have run: "res = (case f of Inl e \<Rightarrow> Inl e | Inr _ \<Rightarrow> Inr ?r) \<and> w' = w3"
      using assms e q k k' s by (auto simp: answer_from_cache_def bind_a_def lift_a_def ret_a_def split: sum.splits)
    then show ?thesis
    proof (cases f)
      case (Inl x)
      with run success_effect(2,3) [OF s] k' e' show ?thesis by auto
    next
      case (Inr y)
      with success_audited s obtain es where "audited cmd ?r es" "w_db w3 = with_audit es (w_db w2)" by blast
      with run Inr success_effect(2) [OF s] k' e' show ?thesis by auto
    qed
  qed
  then show "w_upstream w' = w_upstream w" "res = Inr r \<Longrightarrow> rs_cached r \<and> (\<exists>es. audited cmd r es \<and> w_db w' = with_audit es (w_db w))"
    "res = Inl e \<Longrightarrow> w_db w' = w_db w" by auto
qed

lemma replay_effect:
  assumes "bind_a (lift_a (deserialize_response p)) (\<lambda>response.
      bind_a (record_generation_success cmd response ''idempotent'' ''replay'' False) (\<lambda>_. ret_a response)) w = (res, w')"
  shows "w_upstream w' = w_upstream w" "w_redis w' = w_redis w"
    and "res = Inr r \<Longrightarrow> deserialize_response p = Inr r \<and> (\<exists>es. audited cmd r es \<and> w_db w' = with_audit es (w_db w))"
    and "res = Inl e \<Longrightarrow> w_db w' = w_db w"
proof -
  have "w_upstream w' = w_upstream w \<and> w_redis w' = w_redis w \<and>
      (\<forall>r. res = Inr r \<longrightarrow> deserialize_response p = Inr r \<and> (\<exists>es. audited cmd r es \<and> w_db w' = with_audit es (w_db w))) \<and>
      (\<forall>e. res = Inl e \<longrightarrow> w_db w' = w_db w)"
  proof (cases "deserialize_response p")
    case (Inl e)
    with assms show ?thesis by (auto simp: bind_a_def lift_a_def)
  next
    case (Inr q)
    obtain f w1 where s: "record_generation_success cmd q ''idempotent'' ''replay'' False w = (f, w1)"
      by (cases "record_generation_success cmd q ''idempotent'' ''replay'' False w")
    have run: "res = (case f of Inl e \<Rightarrow> Inl e | Inr _ \<Rightarrow> Inr q) \<and> w' = w1"
      using assms Inr s by (auto simp: bind_a_def lift_a_def ret_a_def split: sum.splits)
    show ?thesis using run Inr success_effect [OF s] success_audited [of cmd q _ _ _ w _ w1] s by (cases f) auto
  qed
  then show "w_upstream w' = w_upstream w" "w_redis w' = w_redis w"
    "res = Inr r \<Longrightarrow> deserialize_response p = Inr r \<and> (\<exists>es. audited cmd r es \<and> w_db w' = with_audit es (w_db w))"
    "res = Inl e \<Longrightarrow> w_db w' = w_db w" by auto
qed

text \<open>How a run begins: the limiter, then the idempotency store.\<close>

abbreviation metered_error :: "('r, 'u) world \<Rightarrow> ('r, 'u) world" where
  "metered_error w \<equiv> w\<lparr>w_metrics := increment ''generation_requests_total'' [(''result'', ''error'')] (Fin 1) (w_metrics w)\<rparr>"

lemma execute_cases [consumes 1, case_names limited plain miss busy replay]:
  assumes "create_response_execute sv cmd w = (res, w')"
  obtains (limited) d red where
      "rate_consume (sv_redis sv) (sv_limiter sv) (w_seconds w (w_ticks w)) (cc_organization_id cmd) (w_redis w) = (d, red)"
      "\<not> rd_allowed d" "res = Inl (rate_limited d)" "w' = metered_error (w\<lparr>w_ticks := Suc (w_ticks w), w_redis := red\<rparr>)"
  | (plain) d red where
      "rate_consume (sv_redis sv) (sv_limiter sv) (w_seconds w (w_ticks w)) (cc_organization_id cmd) (w_redis w) = (d, red)"
      "rd_allowed d" "cc_idempotency_key cmd = None"
      "answer sv cmd False (w\<lparr>w_ticks := Suc (w_ticks w), w_redis := red\<rparr>) = (res, w')"
  | (miss) d red k red2 where
      "rate_consume (sv_redis sv) (sv_limiter sv) (w_seconds w (w_ticks w)) (cc_organization_id cmd) (w_redis w) = (d, red)"
      "rd_allowed d" "cc_idempotency_key cmd = Some k"
      "idem_begin (sv_redis sv) (sv_idem_ttl sv) (cc_organization_id cmd) k red = (IdempotencyMiss, red2)"
      "answer sv cmd True (w\<lparr>w_ticks := Suc (w_ticks w), w_redis := red2\<rparr>) = (res, w')"
  | (busy) d red k red2 where
      "rate_consume (sv_redis sv) (sv_limiter sv) (w_seconds w (w_ticks w)) (cc_organization_id cmd) (w_redis w) = (d, red)"
      "rd_allowed d" "cc_idempotency_key cmd = Some k"
      "idem_begin (sv_redis sv) (sv_idem_ttl sv) (cc_organization_id cmd) k red = (IdempotencyInProgress, red2)"
      "res = Inl IdempotencyConflictError" "w' = metered_error (w\<lparr>w_ticks := Suc (w_ticks w), w_redis := red2\<rparr>)"
  | (replay) d red k p red2 where
      "rate_consume (sv_redis sv) (sv_limiter sv) (w_seconds w (w_ticks w)) (cc_organization_id cmd) (w_redis w) = (d, red)"
      "rd_allowed d" "cc_idempotency_key cmd = Some k"
      "idem_begin (sv_redis sv) (sv_idem_ttl sv) (cc_organization_id cmd) k red = (IdempotencyCompleted p, red2)"
      "bind_a (lift_a (deserialize_response p)) (\<lambda>response.
        bind_a (record_generation_success cmd response ''idempotent'' ''replay'' False) (\<lambda>_. ret_a response))
        (w\<lparr>w_ticks := Suc (w_ticks w), w_redis := red2\<rparr>) = (res, w')"
proof -
  obtain a w1 where c: "consume_a sv cmd w = (a, w1)" by (cases "consume_a sv cmd w")
  from consume_effect [OF c] obtain d red where d:
    "rate_consume (sv_redis sv) (sv_limiter sv) (w_seconds w (w_ticks w)) (cc_organization_id cmd) (w_redis w) = (d, red)"
    "a = Inr d" "w1 = w\<lparr>w_ticks := Suc (w_ticks w), w_redis := red\<rparr>" by blast
  note unf = create_response_execute_def bind_a_def [of "consume_a sv cmd"] bind_a_def [of "begin_a sv cmd"]
  consider "\<not> rd_allowed d" | "rd_allowed d" "cc_idempotency_key cmd = None"
    | k where "rd_allowed d" "cc_idempotency_key cmd = Some k" by (cases "cc_idempotency_key cmd") blast+
  then show thesis
  proof cases
    case 1
    show thesis
      by (rule limited [OF d(1) 1]) (use assms c d 1 in
        \<open>auto simp: create_response_execute_def bind_a_def record_generation_error_def count_a_def raise_a_def\<close>)
  next
    case 2
    then have "begin_a sv cmd w1 = (Inr None, w1)" by (simp add: begin_a_def ret_a_def)
    with assms c d 2 show thesis by (intro plain [OF d(1) 2]) (simp add: unf)
  next
    case 3
    obtain b red2 where b: "idem_begin (sv_redis sv) (sv_idem_ttl sv) (cc_organization_id cmd) k red = (b, red2)"
      by (cases "idem_begin (sv_redis sv) (sv_idem_ttl sv) (cc_organization_id cmd) k red")
    then have st: "begin_a sv cmd w1 = (Inr (Some b), w\<lparr>w_ticks := Suc (w_ticks w), w_redis := red2\<rparr>)"
      using d 3 by (simp add: begin_a_def redis_a_def bind_a_def ret_a_def)
    show thesis
    proof (cases b)
      case IdempotencyMiss
      with assms c d 3 st b show thesis by (intro miss [OF d(1) 3]) (simp_all add: unf)
    next
      case IdempotencyInProgress
      with assms c d 3 st b show thesis
        by (intro busy [OF d(1) 3]) (simp_all add: unf, auto simp: record_generation_error_def count_a_def raise_a_def bind_a_def)
    next
      case (IdempotencyCompleted p)
      with assms c d 3 st b show thesis by (intro replay [OF d(1) 3]) (simp_all add: unf)
    qed
  qed
qed

text \<open>What a run leaves in the database.\<close>

definition recorded :: "create_command \<Rightarrow> ('r, 'u) world \<Rightarrow> exn + generation_response \<Rightarrow> ('r, 'u) world \<Rightarrow> bool" where
  "recorded cmd w res w' \<longleftrightarrow> (case res of
     Inl e \<Rightarrow> w_db w' = w_db w \<or> (\<exists>r us. billed cmd r us \<and> w_db w' = with_usage us (w_db w))
   | Inr r \<Rightarrow> (\<exists>us es. audited cmd r es \<and> w_db w' = with_audit es (with_usage us (w_db w)) \<and>
       (billed cmd r us \<or> us = [] \<and> w_upstream w' = w_upstream w)))"

lemma recorded_audit:
  "audited cmd r es \<Longrightarrow> w_db w' = with_audit es (w_db w) \<Longrightarrow> w_upstream w' = w_upstream w \<Longrightarrow> recorded cmd w (Inr r) w'"
  unfolding recorded_def by (auto intro!: exI [of _ "[] :: usage_record list"] exI [of _ es])

lemma recorded_nothing: "w_db w' = w_db w \<Longrightarrow> recorded cmd w (Inl e) w'"
  by (simp add: recorded_def)

lemma recorded_frame: "recorded cmd (w\<lparr>w_ticks := t, w_redis := r\<rparr>) res w' = recorded cmd w res w'"
  by (cases res) (simp_all add: recorded_def)

lemma answer_recorded:
  assumes "answer sv cmd claimed w = (res, w')"
  shows "recorded cmd w res w'"
proof -
  obtain a w1 where l: "cache_lookup_a sv cmd w = (a, w1)" by (cases "cache_lookup_a sv cmd w")
  have w1: "w_db w1 = w_db w" "w_upstream w1 = w_upstream w" and "\<exists>c. a = Inr c"
    using cache_lookup_effect [OF l] by (auto split: if_splits)
  then obtain c where c: "a = Inr c" by blast
  show ?thesis
  proof (cases c)
    case None
    with assms l c have "generate_guarded sv cmd claimed w1 = (res, w')" by (simp add: answer_def bind_a_def)
    from guarded_effect [OF this] w1 show ?thesis by (cases res) (auto simp: recorded_def)
  next
    case (Some p)
    with assms l c have "answer_from_cache sv cmd claimed p w1 = (res, w')" by (simp add: answer_def bind_a_def)
    from answer_from_cache_effect [OF this] w1 show ?thesis
      by (cases res) (auto intro: recorded_audit recorded_nothing)
  qed
qed

lemma execute_recorded:
  assumes "create_response_execute sv cmd w = (res, w')"
  shows "recorded cmd w res w'"
  using assms
proof (cases rule: execute_cases)
  case plain
  from answer_recorded [OF plain(4)] show ?thesis by (simp add: recorded_frame)
next
  case miss
  from answer_recorded [OF miss(5)] show ?thesis by (simp add: recorded_frame)
next
  case replay
  from replay_effect [OF replay(5)] show ?thesis
    by (cases res) (auto intro: recorded_audit recorded_nothing)
qed (simp_all add: recorded_def)

end
