(* ===== verification/Rag.thy ===== *)
theory Rag
  imports CreateResponse Upstream
begin

text \<open>
  Embeddings and retrieval: the contracts of \<open>domain/embedding.py\<close>, \<open>embedding_routing.py\<close>,
  \<open>semantic_retrieval.py\<close> and \<open>rag.py\<close>, the OpenAI embedding adapter, the chunk repository, and the use
  cases that index, search and put retrieved text in front of a conversation. The order in which pgvector
  returns rows is the parameter \<open>nearest\<close>: the rows it is given, with their cosine distances.
\<close>

section \<open>Embedding contracts\<close>

type_synonym vector = "pyfloat list"

definition mk_embedding_usage :: "int \<Rightarrow> exn + int" where
  "mk_embedding_usage input_tokens = map_r (\<lambda>_. input_tokens) (reject_if (input_tokens < 0) ''input_tokens must not be negative'')"

record embedding_vector =
  ev_index :: int
  ev_values :: vector

definition mk_embedding_vector :: "int \<Rightarrow> vector \<Rightarrow> exn + embedding_vector" where
  "mk_embedding_vector index vals =
     bind_r (reject_if (index < 0) ''index must not be negative'') (\<lambda>_.
     bind_r (reject_if (vals = []) ''values must contain at least one dimension'') (\<lambda>_.
     bind_r (reject_if (\<exists>x\<in>set vals. \<not> float_isfinite x) ''values must contain only finite numbers'') (\<lambda>_.
     Inr \<lparr>ev_index = index, ev_values = vals\<rparr>)))"

record embedding_request =
  eq_model :: string
  eq_input :: "string list"
  eq_dimensions :: "int option"

definition mk_embedding_request :: "string \<Rightarrow> string list \<Rightarrow> int option \<Rightarrow> exn + embedding_request" where
  "mk_embedding_request model input dimensions =
     bind_r (require_non_blank model ''model'') (\<lambda>_.
     bind_r (reject_if (input = []) ''input must contain at least one text value'') (\<lambda>_.
     bind_r (traverse (\<lambda>(position, t). require_non_blank t (''input['' @ str_of_nat position @ '']'')) (enumerate 0 input)) (\<lambda>_.
     bind_r (reject_if (case dimensions of None \<Rightarrow> False | Some n \<Rightarrow> n \<le> 0) ''dimensions must be greater than zero'') (\<lambda>_.
     Inr \<lparr>eq_model = model, eq_input = input, eq_dimensions = dimensions\<rparr>))))"

record embedding_response =
  es_id :: string
  es_model :: string
  es_data :: "embedding_vector list"
  es_usage :: int

definition mk_embedding_response :: "string \<Rightarrow> string \<Rightarrow> embedding_vector list \<Rightarrow> int \<Rightarrow> exn + embedding_response" where
  "mk_embedding_response rid model data usage =
     bind_r (require_non_blank rid ''id'') (\<lambda>_.
     bind_r (require_non_blank model ''model'') (\<lambda>_.
     bind_r (reject_if (data = []) ''data must contain at least one embedding vector'') (\<lambda>_.
     bind_r (reject_if (\<not> distinct (map ev_index data)) ''data indices must be unique'') (\<lambda>_.
     bind_r (reject_if (sort (map ev_index data) \<noteq> map int [0..<length data]) ''data indices must be contiguous starting at zero'') (\<lambda>_.
     Inr \<lparr>es_id = rid, es_model = model, es_data = data, es_usage = usage\<rparr>)))))"

record embedding_route =
  et_model :: string
  et_provider :: string

definition DEFAULT_EMBEDDING_CATALOG :: catalog where
  "DEFAULT_EMBEDDING_CATALOG = [(''text-embedding-3-small'', ''openai''), (''text-embedding-3-large'', ''openai'')]"

definition DEFAULT_RAG_EMBEDDING_MODEL :: string where
  "DEFAULT_RAG_EMBEDDING_MODEL = ''text-embedding-3-small''"

definition mk_embedding_route :: "string \<Rightarrow> string \<Rightarrow> exn + embedding_route" where
  "mk_embedding_route model provider =
     bind_r (require_non_blank model ''model'') (\<lambda>_.
     bind_r (require_non_blank provider ''provider'') (\<lambda>_. Inr \<lparr>et_model = model, et_provider = provider\<rparr>))"

definition resolve_embedding_route :: "string \<Rightarrow> catalog \<Rightarrow> exn + embedding_route" where
  "resolve_embedding_route requested_model cat =
     bind_r (require_non_blank requested_model ''requested_model'') (\<lambda>_.
     case dict_get cat requested_model of None \<Rightarrow> Inl (UnsupportedModelError requested_model)
     | Some provider \<Rightarrow> mk_embedding_route requested_model provider)"

section \<open>The OpenAI embedding adapter\<close>

text \<open>
  \<open>float(text)\<close>: white space around is ignored, an underscore may stand between digits, the names of
  infinity and of not-a-number are read in any case.
\<close>

fun underscores_ok :: "bool \<Rightarrow> string \<Rightarrow> bool" where
  "underscores_ok digit_before [] = True"
| "underscores_ok digit_before (c # s) =
     (if c = CHR ''_'' then digit_before \<and> (case s of d # _ \<Rightarrow> is_digit d | [] \<Rightarrow> False) \<and> underscores_ok False s
      else underscores_ok (is_digit c) s)"

definition float_fraction :: "string \<Rightarrow> string \<times> string" where
  "float_fraction s = (case s of c # r \<Rightarrow> if c = CHR ''.'' then (takeWhile is_digit r, dropWhile is_digit r) else ([], s)
     | [] \<Rightarrow> ([], s))"

definition unsigned_float :: "string \<Rightarrow> json option" where
  "unsigned_float body =
     (let name = lower body; ip = takeWhile is_digit body in
      if name = ''inf'' \<or> name = ''infinity'' then Some (JFloat PosInf)
      else if name = ''nan'' then Some (JFloat NaN)
      else case float_fraction (dropWhile is_digit body) of (fr, r) \<Rightarrow>
        if ip = [] \<and> fr = [] then None
        else if r = [] then Some (number_value False ip fr 0)
        else case scan_exp r of Some (ex, []) \<Rightarrow> Some (number_value False ip fr ex) | _ \<Rightarrow> None)"

definition neg_float :: "pyfloat \<Rightarrow> pyfloat" where
  "neg_float x = (case x of Fin a \<Rightarrow> Fin (- a) | PosInf \<Rightarrow> NegInf | NegInf \<Rightarrow> PosInf | NaN \<Rightarrow> NaN)"

definition float_of_str :: "string \<Rightarrow> pyfloat option" where
  "float_of_str s =
     (let t = strip s in
      if \<not> underscores_ok False t then None
      else let u = filter (\<lambda>c. c \<noteq> CHR ''_'') t;
               sign = (case u of c # _ \<Rightarrow> c = CHR ''-'' | [] \<Rightarrow> False);
               body = (case u of c # r \<Rightarrow> if c = CHR ''-'' \<or> c = CHR ''+'' then r else u | [] \<Rightarrow> u)
           in case unsigned_float body of Some (JFloat x) \<Rightarrow> Some (if sign then neg_float x else x) | _ \<Rightarrow> None)"

text \<open>\<open>float(value)\<close> on a decoded JSON value; an integer beyond the range of floats raises \<open>OverflowError\<close>.\<close>

definition float_of_int :: "int \<Rightarrow> exn + pyfloat" where
  "float_of_int i = (let x = float_of_rat (of_int i) in if float_isfinite x then Inr x else Inl PyOverflowError)"

definition float_of_json :: "json \<Rightarrow> exn + pyfloat" where
  "float_of_json j = (case j of
     JFloat x \<Rightarrow> Inr x
   | JInt i \<Rightarrow> float_of_int i
   | JBool b \<Rightarrow> Inr (Fin (if b then 1 else 0))
   | JStr s \<Rightarrow> (case float_of_str s of Some x \<Rightarrow> Inr x | None \<Rightarrow> Inl (ValueError ''could not convert string to float''))
   | _ \<Rightarrow> Inl PyTypeError)"

abbreviation embedding_err :: "string \<Rightarrow> exn" where
  "embedding_err \<equiv> provider_err OpenAIProviderError"

definition to_embedding_body :: "embedding_request \<Rightarrow> json" where
  "to_embedding_body req = JObj ([(''model'', JStr (eq_model req)), (''input'', JArr (map JStr (eq_input req)))] @
     opt_field ''dimensions'' JInt (eq_dimensions req))"

definition vector_of_json :: "json \<Rightarrow> exn + embedding_vector" where
  "vector_of_json item = (let invalid = embedding_err ''OpenAI embedding response data is invalid'' in
     case item of JObj it \<Rightarrow>
       (case get_int it ''index'' of None \<Rightarrow> Inl invalid
        | Some index \<Rightarrow> if index < 0 then Inl invalid
          else case get_list it ''embedding'' of
              Some (x # xs) \<Rightarrow> bind_r (traverse float_of_json (x # xs)) (mk_embedding_vector index)
            | _ \<Rightarrow> Inl invalid)
     | _ \<Rightarrow> Inl invalid)"

definition except_type_value :: "exn + 'a \<Rightarrow> exn + 'a" where
  "except_type_value r = (case r of
     Inl e \<Rightarrow> Inl (if is_value_error e \<or> e = PyTypeError then embedding_err ''OpenAI embedding response payload is malformed'' else e)
   | Inr x \<Rightarrow> Inr x)"

definition from_embedding_payload :: "(string, json) dict \<Rightarrow> embedding_request \<Rightarrow> exn + embedding_response" where
  "from_embedding_payload payload req = except_type_value
     (case get_list payload ''data'' of
        Some (item # items) \<Rightarrow>
          bind_r (traverse vector_of_json (item # items)) (\<lambda>vectors.
          case get_obj payload ''usage'' of None \<Rightarrow> Inl (embedding_err ''OpenAI embedding response usage is invalid'')
          | Some u \<Rightarrow> (case get_int u ''prompt_tokens'' of
              None \<Rightarrow> Inl (embedding_err ''OpenAI embedding response usage is invalid'')
            | Some prompt_tokens \<Rightarrow>
                if prompt_tokens < 0 then Inl (embedding_err ''OpenAI embedding response usage is invalid'')
                else bind_r (mk_embedding_usage prompt_tokens) (\<lambda>usage.
                  mk_embedding_response (str_or payload ''id'' ''openai-embedding'') (str_or payload ''model'' (eq_model req))
                    (sort_key ev_index vectors) usage)))
      | _ \<Rightarrow> Inl (embedding_err ''OpenAI embedding response is missing data''))"

definition embedding_http_request :: "'u adapter \<Rightarrow> embedding_request \<Rightarrow> http_request" where
  "embedding_http_request a req = \<lparr>hq_url = ad_base_url a @ ''/embeddings'', hq_params = [],
     hq_headers = [(''Authorization'', ''Bearer '' @ ad_api_key a), (''Content-Type'', ''application/json'')],
     hq_json = to_embedding_body req\<rparr>"

definition openai_embed :: "'u adapter \<Rightarrow> embedding_request \<Rightarrow> 'u \<Rightarrow> (exn + embedding_response) \<times> 'u" where
  "openai_embed a req u =
     (case post_json OpenAIProviderError ''OpenAI'' (ad_http_client a) (embedding_http_request a req) u of
        (Inl e, u') \<Rightarrow> (Inl e, u')
      | (Inr payload, u') \<Rightarrow> (from_embedding_payload payload req, u'))"

section \<open>Chunks\<close>

definition DEFAULT_EMBEDDING_DIMENSIONS :: nat where
  "DEFAULT_EMBEDDING_DIMENSIONS = 1536"

definition validate_embedding :: "vector \<Rightarrow> exn + unit" where
  "validate_embedding vals =
     bind_r (reject_if (length vals \<noteq> DEFAULT_EMBEDDING_DIMENSIONS) ''embedding must contain exactly 1536 dimensions'') (\<lambda>_.
     reject_if (\<exists>x\<in>set vals. \<not> float_isfinite x) ''embedding must contain only finite numbers'')"

definition mk_semantic_chunk :: "chunk_row \<Rightarrow> exn + chunk_row" where
  "mk_semantic_chunk c =
     bind_r (require_non_blank (crow_content c) ''content'') (\<lambda>_.
     bind_r (validate_embedding (crow_embedding c)) (\<lambda>_.
     bind_r (reject_if (dt_tz (crow_created_at c) = None) ''created_at must be timezone-aware'') (\<lambda>_. Inr c)))"

record search_result =
  sr_chunk_id :: uuid
  sr_content :: string
  sr_distance :: pyfloat

definition mk_search_result :: "chunk_row \<times> pyfloat \<Rightarrow> exn + search_result" where
  "mk_search_result rd = (case rd of (row, dst) \<Rightarrow>
     bind_r (require_non_blank (crow_content row) ''content'') (\<lambda>_.
     bind_r (reject_if (float_less dst (Fin 0)) ''distance must not be negative'') (\<lambda>_.
     Inr \<lparr>sr_chunk_id = crow_id row, sr_content = crow_content row, sr_distance = dst\<rparr>)))"

record search_query =
  sq_organization_id :: uuid
  sq_query_embedding :: vector
  sq_limit :: int

definition mk_search_query :: "uuid \<Rightarrow> vector \<Rightarrow> int \<Rightarrow> exn + search_query" where
  "mk_search_query org emb limit =
     bind_r (validate_embedding emb) (\<lambda>_.
     bind_r (reject_if (limit \<le> 0) ''limit must be greater than zero'') (\<lambda>_.
     Inr \<lparr>sq_organization_id = org, sq_query_embedding = emb, sq_limit = limit\<rparr>))"

type_synonym nearest = "vector \<Rightarrow> chunk_row list \<Rightarrow> (chunk_row \<times> pyfloat) list"

definition chunk_add :: "chunk_row \<Rightarrow> (db, exn, chunk_row) act" where
  "chunk_add c d =
     (if crow_id c \<in> crow_id ` set (db_chunks d) \<or> \<not> fk_organization d (crow_organization_id c) then (Inl IntegrityError, d)
      else (mk_semantic_chunk c, d\<lparr>db_chunks := db_chunks d @ [c]\<rparr>))"

definition chunk_search :: "nearest \<Rightarrow> uuid \<Rightarrow> vector \<Rightarrow> int \<Rightarrow> db \<Rightarrow> exn + search_result list" where
  "chunk_search nearest org query limit d = traverse mk_search_result
     (take (nat limit) (nearest query (filter (\<lambda>r. crow_organization_id r = org) (db_chunks d))))"

definition search_semantic_chunks :: "nearest \<Rightarrow> search_query \<Rightarrow> ('r, 'u, search_result list) service" where
  "search_semantic_chunks nearest q =
     db_a (read_a (chunk_search nearest (sq_organization_id q) (sq_query_embedding q) (sq_limit q)))"

definition index_semantic_chunk :: "uuid \<Rightarrow> string \<Rightarrow> vector \<Rightarrow> ('r, 'u, chunk_row) service" where
  "index_semantic_chunk org content embedding =
     bind_a (db_a (read_a (org_get org))) (\<lambda>organization. case organization of
       None \<Rightarrow> raise_a (OrganizationNotFoundError org)
     | Some _ \<Rightarrow> bind_a now_a (\<lambda>now. bind_a uuid4_a (\<lambda>i.
         bind_a (lift_a (mk_semantic_chunk \<lparr>crow_id = i, crow_organization_id = org, crow_content = content,
            crow_embedding = embedding, crow_created_at = now\<rparr>)) (\<lambda>chunk. db_a (chunk_add chunk)))))"

type_synonym 'u embedders = "(string, 'u adapter) dict"

text \<open>Routing, the provider and the embedding of one text, as both use cases do it.\<close>

definition embed_text :: "'u embedders \<Rightarrow> catalog \<Rightarrow> string \<Rightarrow> string \<Rightarrow> ('r, 'u, vector) service" where
  "embed_text providers cat model content =
     bind_a (lift_a (resolve_embedding_route model cat)) (\<lambda>route.
     case dict_get providers (et_provider route) of None \<Rightarrow> raise_a (ProviderNotRegisteredError (et_provider route))
     | Some a \<Rightarrow>
         bind_a (lift_a (mk_embedding_request (et_model route) [content] (Some (int DEFAULT_EMBEDDING_DIMENSIONS)))) (\<lambda>req.
         bind_a (\<lambda>w. case openai_embed a req (w_upstream w) of (res, u) \<Rightarrow> (res, w\<lparr>w_upstream := u\<rparr>)) (\<lambda>embedding.
         case es_data embedding of v # _ \<Rightarrow> ret_a (ev_values v) | [] \<Rightarrow> raise_a (LookupError ''tuple index out of range''))))"

definition ingest_semantic_chunk :: "'u embedders \<Rightarrow> catalog \<Rightarrow> uuid \<Rightarrow> string \<Rightarrow> string \<Rightarrow> ('r, 'u, chunk_row) service" where
  "ingest_semantic_chunk providers cat org content embedding_model =
     bind_a (embed_text providers cat embedding_model content) (\<lambda>vector. index_semantic_chunk org content vector)"

section \<open>Retrieval in front of a conversation\<close>

definition MAX_RAG_TOP_K :: int where
  "MAX_RAG_TOP_K = 20"

record rag_policy =
  rp_enabled :: bool
  rp_query :: "string option"
  rp_top_k :: int
  rp_embedding_model :: string

definition mk_rag_policy :: "bool \<Rightarrow> string option \<Rightarrow> int \<Rightarrow> string \<Rightarrow> exn + rag_policy" where
  "mk_rag_policy enabled query top_k embedding_model =
     bind_r (require_non_blank embedding_model ''embedding_model'') (\<lambda>_.
     bind_r (reject_if (top_k \<le> 0) ''top_k must be greater than zero'') (\<lambda>_.
     bind_r (reject_if (MAX_RAG_TOP_K < top_k) ''top_k must not exceed 20'') (\<lambda>_.
     bind_r (case query of None \<Rightarrow> Inr () | Some q \<Rightarrow> require_non_blank q ''query'') (\<lambda>_.
     Inr \<lparr>rp_enabled = enabled, rp_query = query, rp_top_k = top_k, rp_embedding_model = embedding_model\<rparr>))))"

definition resolve_rag_query :: "message list \<Rightarrow> string option \<Rightarrow> exn + string" where
  "resolve_rag_query messages override = (case override of
     Some q \<Rightarrow> Inr (strip q)
   | None \<Rightarrow> (case find (\<lambda>m. msg_role m = USER \<and> \<not> blank (msg_content m)) (rev messages) of
       Some m \<Rightarrow> Inr (strip (msg_content m))
     | None \<Rightarrow> Inl (DomainValidationError ''rag requires a non-empty user message or an explicit query'')))"

definition RETRIEVED_CONTEXT_HEADER :: string where
  "RETRIEVED_CONTEXT_HEADER = ''Retrieved context (organization knowledge):''"

definition format_retrieved_context :: "string list \<Rightarrow> string" where
  "format_retrieved_context chunks = (if chunks = [] then [] else
     RETRIEVED_CONTEXT_HEADER @ [newline, newline] @
     join [newline] (map (\<lambda>(i, c). str_of_nat i @ ''. '' @ c) (enumerate 1 chunks)))"

definition prepend_retrieved_context :: "message list \<Rightarrow> string list \<Rightarrow> exn + message list" where
  "prepend_retrieved_context messages chunks =
     (let body = format_retrieved_context chunks in
      if body = [] then Inr messages else map_r (\<lambda>m. m # messages) (mk_message SYSTEM body None None []))"

definition augment_messages_with_rag ::
    "'u embedders \<Rightarrow> catalog \<Rightarrow> nearest \<Rightarrow> uuid \<Rightarrow> message list \<Rightarrow> rag_policy \<Rightarrow> ('r, 'u, message list) service" where
  "augment_messages_with_rag providers cat nearest org messages policy =
     (if \<not> rp_enabled policy then ret_a messages
      else bind_a (lift_a (resolve_rag_query messages (rp_query policy))) (\<lambda>query_text.
        bind_a (embed_text providers cat (rp_embedding_model policy) query_text) (\<lambda>query_vector.
        bind_a (lift_a (mk_search_query org query_vector (rp_top_k policy))) (\<lambda>q.
        bind_a (search_semantic_chunks nearest q) (\<lambda>hits.
        lift_a (prepend_retrieved_context messages (map sr_content hits)))))))"

section \<open>What retrieval adds\<close>

lemma embed_text_db: "embed_text providers cat model content w = (res, w') \<Longrightarrow> w_db w' = w_db w"
  by (auto simp: embed_text_def bind_a_def lift_a_def raise_a_def ret_a_def
      split: prod.splits sum.splits option.splits list.splits)

lemma mk_search_result_Inr: "mk_search_result rd = Inr h \<Longrightarrow> sr_content h = crow_content (fst rd)"
  by (auto simp: mk_search_result_def bind_r_eq_Inr split: prod.splits)

lemma chunk_search_hits:
  assumes "chunk_search nearest org query limit d = Inr hits" and "\<And>q rows. fst ` set (nearest q rows) \<subseteq> set rows"
  shows "length hits \<le> nat limit \<and>
    (\<forall>c\<in>set (map sr_content hits). \<exists>row\<in>set (db_chunks d). crow_organization_id row = org \<and> crow_content row = c)"
proof -
  let ?rows = "filter (\<lambda>r. crow_organization_id r = org) (db_chunks d)"
  note tr = assms(1) [unfolded chunk_search_def]
  have "\<exists>row\<in>set (db_chunks d). crow_organization_id row = org \<and> crow_content row = sr_content h" if "h \<in> set hits" for h
  proof -
    from traverse_mem [OF tr that] obtain rd where rd: "rd \<in> set (take (nat limit) (nearest query ?rows))" "mk_search_result rd = Inr h" by auto
    then have "fst rd \<in> set ?rows" using assms(2) [of query ?rows] by (auto dest!: in_set_takeD)
    with mk_search_result_Inr [OF rd(2)] show ?thesis by auto
  qed
  with traverse_length [OF tr] show ?thesis by auto
qed

lemma prepend_retrieved_Inr:
  "prepend_retrieved_context messages chunks = Inr ms \<Longrightarrow>
     ms = (if chunks = [] then messages else
       \<lparr>msg_role = SYSTEM, msg_content = format_retrieved_context chunks, msg_tool_call_id = None, msg_name = None, msg_tool_calls = []\<rparr> # messages)"
  by (auto simp: prepend_retrieved_context_def Let_def map_r_eq_Inr mk_message_Inr format_retrieved_context_def RETRIEVED_CONTEXT_HEADER_def
      split: if_splits)

text \<open>C28: Retrieval only adds: an enabled policy leaves the conversation as it is, or puts one system message
  in front of it, made of at most \<open>top_k\<close> texts, each the content of a chunk of the caller's own organization.
  Nothing of another organization is ever shown, and the database is not written.\<close>

theorem retrieval_scoped:
  assumes "augment_messages_with_rag providers cat nearest org messages policy w = (Inr ms, w')"
    and "rp_enabled policy" and "\<And>q rows. fst ` set (nearest q rows) \<subseteq> set rows"
  shows "\<exists>chunks. length chunks \<le> nat (rp_top_k policy) \<and> w_db w' = w_db w \<and>
    (\<forall>c\<in>set chunks. \<exists>row\<in>set (db_chunks (w_db w)). crow_organization_id row = org \<and> crow_content row = c) \<and>
    ms = (if chunks = [] then messages else
      \<lparr>msg_role = SYSTEM, msg_content = format_retrieved_context chunks, msg_tool_call_id = None, msg_name = None, msg_tool_calls = []\<rparr> # messages)"
proof -
  obtain query_text vector w1 q hits where e: "embed_text providers cat (rp_embedding_model policy) query_text w = (Inr vector, w1)"
    and q: "mk_search_query org vector (rp_top_k policy) = Inr q"
    and h: "search_semantic_chunks nearest q w1 = (Inr hits, w')"
    and p: "prepend_retrieved_context messages (map sr_content hits) = Inr ms"
    using assms(1,2) by (auto simp: augment_messages_with_rag_def bind_a_eq_Inr)
  from q have "sq_organization_id q = org" "sq_limit q = rp_top_k policy" by (auto simp: mk_search_query_def bind_r_eq_Inr)
  with h have s: "chunk_search nearest org (sq_query_embedding q) (rp_top_k policy) (w_db w1) = Inr hits" "w_db w' = w_db w1"
    by (auto simp: search_semantic_chunks_def db_a_def read_a_def)
  from chunk_search_hits [OF s(1) assms(3)] embed_text_db [OF e] s(2) prepend_retrieved_Inr [OF p] show ?thesis
    by (intro exI [of _ "map sr_content hits"]) auto
qed

section \<open>A sample retrieval\<close>

definition demo_vector :: vector where
  "demo_vector = replicate 1536 (Fin 0)"

definition demo_embedding_payload :: json where
  "demo_embedding_payload = JObj [(''data'', JArr [JObj [(''index'', JInt 0), (''embedding'', JArr (replicate 1536 (JInt 0)))]]),
     (''usage'', JObj [(''prompt_tokens'', JInt 1)])]"

definition demo_embedder :: "unit adapter" where
  "demo_embedder = \<lparr>ad_api_key = ''k'', ad_http_client = \<lparr>hc_post = (\<lambda>req u. (Inr \<lparr>hp_status = 200,
      hp_text = dumps_compact demo_embedding_payload\<rparr>, u)), hc_stream = (\<lambda>req u. (Inl (), u))\<rparr>, ad_base_url = ''https://x''\<rparr>"

definition demo_chunk :: "uuid \<Rightarrow> string \<Rightarrow> chunk_row" where
  "demo_chunk org t = \<lparr>crow_id = 3, crow_organization_id = org, crow_content = t, crow_embedding = demo_vector, crow_created_at = sample_instant\<rparr>"

definition demo_rag_world :: "(unit, unit) world" where
  "demo_rag_world = \<lparr>w_db = empty_db\<lparr>db_chunks := [demo_chunk 7 ''mine'', demo_chunk 8 ''theirs'']\<rparr>,
     w_redis = (), w_metrics = new_metrics, w_upstream = (), w_now = (\<lambda>_. sample_instant), w_seconds = (\<lambda>_. 0),
     w_uuid = (\<lambda>n. of_nat n), w_ticks = 0, w_uuids = 0\<rparr>"

definition demo_policy :: rag_policy where
  "demo_policy = \<lparr>rp_enabled = True, rp_query = Some ''q'', rp_top_k = 5, rp_embedding_model = DEFAULT_RAG_EMBEDDING_MODEL\<rparr>"

lemma demo_vector_ok: "validate_embedding demo_vector = Inr ()"
  by (simp add: validate_embedding_def demo_vector_def DEFAULT_EMBEDDING_DIMENSIONS_def float_isfinite_def)

lemma demo_embed: "openai_embed demo_embedder req u = (Inr \<lparr>es_id = ''openai-embedding'', es_model = eq_model req,
    es_data = [\<lparr>ev_index = 0, ev_values = demo_vector\<rparr>], es_usage = 1\<rparr>, u)" if "\<not> blank (eq_model req)"
proof -
  have zero: "float_of_json (JInt 0) = Inr (Fin 0)"
    by (simp add: float_of_json_def float_of_int_def float_of_rat_def float_isfinite_def Let_def)
  have vals: "traverse float_of_json (replicate 1536 (JInt 0)) = Inr demo_vector"
    using traverse_total [of "replicate 1536 (JInt 0)" float_of_json "\<lambda>_. Fin 0"] zero
    by (simp add: demo_vector_def map_replicate_const)
  have long: "\<exists>x xs. replicate 1536 (JInt 0) = x # xs" by (metis list.exhaust replicate_empty zero_neq_numeral)
  have fin: "mk_embedding_vector 0 demo_vector = Inr \<lparr>ev_index = 0, ev_values = demo_vector\<rparr>"
    by (simp add: mk_embedding_vector_def demo_vector_def float_isfinite_def)
  have "json_plain demo_embedding_payload" by (simp add: demo_embedding_payload_def)
  then have l: "loads (dumps_compact demo_embedding_payload) = Some demo_embedding_payload" by (rule loads_dumps)
  have v: "vector_of_json (JObj [(''index'', JInt 0), (''embedding'', JArr (replicate 1536 (JInt 0)))]) =
      Inr \<lparr>ev_index = 0, ev_values = demo_vector\<rparr>"
    using long vals fin by (auto simp: vector_of_json_def get_simps Let_def simp del: traverse.simps)
  show ?thesis using that
    by (simp add: openai_embed_def post_json_def demo_embedder_def reply_payload_def l [unfolded demo_embedding_payload_def] demo_embedding_payload_def
        from_embedding_payload_def except_type_value_def get_simps v mk_embedding_usage_def mk_embedding_response_def
        require_non_blank_def is_space_def del: dumps_with.simps)
qed

lemma demo_augment: "augment_messages_with_rag [(''openai'', demo_embedder)] DEFAULT_EMBEDDING_CATALOG (\<lambda>q rows. map (\<lambda>r. (r, Fin 0)) rows) 7
    [user_message ''hi''] demo_policy demo_rag_world =
    (Inr [\<lparr>msg_role = SYSTEM, msg_content = format_retrieved_context [''mine''], msg_tool_call_id = None, msg_name = None, msg_tool_calls = []\<rparr>,
      user_message ''hi''], demo_rag_world)"
proof -
  have route: "resolve_embedding_route DEFAULT_RAG_EMBEDDING_MODEL DEFAULT_EMBEDDING_CATALOG =
      Inr \<lparr>et_model = ''text-embedding-3-small'', et_provider = ''openai''\<rparr>" by code_simp
  have "embed_text [(''openai'', demo_embedder)] DEFAULT_EMBEDDING_CATALOG DEFAULT_RAG_EMBEDDING_MODEL ''q'' demo_rag_world =
      (Inr demo_vector, demo_rag_world)"
    by (simp add: embed_text_def bind_a_def lift_a_def route dict_get_def mk_embedding_request_def require_non_blank_def is_space_def
        DEFAULT_EMBEDDING_DIMENSIONS_def demo_embed ret_a_def demo_rag_world_def)
  moreover have "resolve_rag_query [user_message ''hi''] (Some ''q'') = Inr ''q''"
    by (simp add: resolve_rag_query_def strip_def lstrip_def rstrip_def is_space_def)
  moreover have "mk_search_query 7 demo_vector 5 = Inr \<lparr>sq_organization_id = 7, sq_query_embedding = demo_vector, sq_limit = 5\<rparr>"
    by (simp add: mk_search_query_def demo_vector_ok)
  moreover have "chunk_search (\<lambda>q rows. map (\<lambda>r. (r, Fin 0)) rows) 7 demo_vector 5 (w_db demo_rag_world) =
      Inr [\<lparr>sr_chunk_id = 3, sr_content = ''mine'', sr_distance = Fin 0\<rparr>]"
    by (simp add: chunk_search_def demo_rag_world_def demo_chunk_def mk_search_result_def require_non_blank_def is_space_def)
  moreover have "prepend_retrieved_context [user_message ''hi''] [''mine''] = Inr [\<lparr>msg_role = SYSTEM,
      msg_content = format_retrieved_context [''mine''], msg_tool_call_id = None, msg_name = None, msg_tool_calls = []\<rparr>, user_message ''hi'']"
    by (simp add: prepend_retrieved_context_def mk_message_def validate_message_def require_non_blank_def
        format_retrieved_context_def RETRIEVED_CONTEXT_HEADER_def is_space_def Let_def)
  ultimately show ?thesis
    by (simp add: augment_messages_with_rag_def demo_policy_def bind_a_def lift_a_def search_semantic_chunks_def db_a_def read_a_def)
qed

lemma retrieval_scoped_witness:
  "\<exists>chunks. length chunks \<le> 5 \<and>
    (\<forall>c\<in>set chunks. \<exists>row\<in>set (db_chunks (w_db demo_rag_world)). crow_organization_id row = 7 \<and> crow_content row = c) \<and>
    [\<lparr>msg_role = SYSTEM, msg_content = format_retrieved_context [''mine''], msg_tool_call_id = None, msg_name = None, msg_tool_calls = []\<rparr>,
      user_message ''hi''] = (if chunks = [] then [user_message ''hi''] else
      \<lparr>msg_role = SYSTEM, msg_content = format_retrieved_context chunks, msg_tool_call_id = None, msg_name = None, msg_tool_calls = []\<rparr> #
        [user_message ''hi''])"
proof -
  have on: "rp_enabled demo_policy" and top: "nat (rp_top_k demo_policy) = 5" by (simp_all add: demo_policy_def)
  have "fst ` set (map (\<lambda>r. (r, Fin 0)) rows) \<subseteq> set rows" for rows :: "chunk_row list" by auto
  from retrieval_scoped [OF demo_augment on this, unfolded top] show ?thesis by (elim exE) (rule exI, elim conjE, intro conjI)
qed

end
