(* ===== verification/Schemas.thy ===== *)
theory Schemas
  imports Pydantic Upstream Prompt Context Rag ResponseStore
begin

text \<open>
  The request and response bodies of \<open>POST /v1/responses\<close> (\<open>api/schemas/responses.py\<close>): what body is
  accepted, what it becomes in the domain, and the body a response is answered with.
\<close>

section \<open>Tool calls, tools, messages\<close>

record tool_call_schema =
  tcs_id :: string
  tcs_name :: string
  tcs_arguments :: string

definition tool_call_schema_v :: "tool_call_schema validator" where
  "tool_call_schema_v = v_object (\<lambda>loc kvs. and_check
     (apply_v (apply_v (map_r (\<lambda>i n a. \<lparr>tcs_id = i, tcs_name = n, tcs_arguments = a\<rparr>)
       (v_field kvs loc ''id'' min_length_1 None)) (v_field kvs loc ''name'' min_length_1 None))
       (v_field kvs loc ''arguments'' min_length_1 None))
     (extra_fields [''id'', ''name'', ''arguments''] loc kvs))"

definition tool_call_to_domain :: "tool_call_schema \<Rightarrow> exn + tool_call" where
  "tool_call_to_domain s = mk_tool_call (tcs_id s) (tcs_name s) (tcs_arguments s)"

text \<open>Constructing a schema object checks it again; a \<open>ValidationError\<close> is a \<open>ValueError\<close>.\<close>

definition schema_error :: exn where
  "schema_error = ValueError ''validation error''"

definition tool_call_from_domain :: "tool_call \<Rightarrow> exn + tool_call_schema" where
  "tool_call_from_domain c = (if tc_id c = [] \<or> tc_name c = [] \<or> tc_arguments c = [] then Inl schema_error
     else Inr \<lparr>tcs_id = tc_id c, tcs_name = tc_name c, tcs_arguments = tc_arguments c\<rparr>)"

record tool_definition_schema =
  tds_name :: string
  tds_description :: string
  tds_parameters :: "(string, json) dict"

definition tool_definition_schema_v :: "tool_definition_schema validator" where
  "tool_definition_schema_v = v_object (\<lambda>loc kvs. and_check
     (apply_v (apply_v (map_r (\<lambda>n d p. \<lparr>tds_name = n, tds_description = d, tds_parameters = p\<rparr>)
       (v_field kvs loc ''name'' min_length_1 None)) (v_field kvs loc ''description'' v_str (Some [])))
       (v_field kvs loc ''parameters'' (v_dict v_any) (Some [])))
     (extra_fields [''name'', ''description'', ''parameters''] loc kvs))"

definition tool_definition_to_domain :: "tool_definition_schema \<Rightarrow> exn + tool_definition" where
  "tool_definition_to_domain s = mk_tool_definition (tds_name s) (tds_description s) (JObj (tds_parameters s))"

definition quoted :: "string \<Rightarrow> string" where
  "quoted s = [CHR 0x27] @ s @ [CHR 0x27]"

definition message_role_v :: "message_role validator" where
  "message_role_v loc j = (let bad = fail_v loc (''Input should be '' @ quoted ''system'' @ '', '' @ quoted ''user'' @ '', '' @ quoted ''assistant'' @
     '' or '' @ quoted ''tool'') in
     case j of JStr s \<Rightarrow> (case message_role_of s of Inr r \<Rightarrow> Inr r | Inl _ \<Rightarrow> bad) | _ \<Rightarrow> bad)"

record message_schema =
  mes_role :: message_role
  mes_content :: string
  mes_tool_call_id :: "string option"
  mes_name :: "string option"
  mes_tool_calls :: "tool_call_schema list"

definition message_to_domain :: "message_schema \<Rightarrow> exn + message" where
  "message_to_domain s = bind_r (traverse tool_call_to_domain (mes_tool_calls s)) (\<lambda>calls.
     mk_message (mes_role s) (mes_content s) (mes_tool_call_id s) (mes_name s) calls)"

text \<open>\<open>validate_role_fields\<close>: combinations the domain rejects are reported with the domain's message.\<close>

definition validate_role_fields :: "message_schema \<Rightarrow> string option" where
  "validate_role_fields s = (case message_to_domain s of
     Inl (DomainValidationError msg) \<Rightarrow> Some msg | _ \<Rightarrow> None)"

definition message_schema_v :: "message_schema validator" where
  "message_schema_v = v_object (\<lambda>loc kvs. after_v loc (and_check
     (apply_v (apply_v (apply_v (apply_v (map_r
         (\<lambda>r c t n cs. \<lparr>mes_role = r, mes_content = c, mes_tool_call_id = t, mes_name = n, mes_tool_calls = cs\<rparr>)
       (v_field kvs loc ''role'' message_role_v None))
       (v_field kvs loc ''content'' v_str (Some [])))
       (v_field kvs loc ''tool_call_id'' (v_optional v_str) (Some None)))
       (v_field kvs loc ''name'' (v_optional v_str) (Some None)))
       (v_field kvs loc ''tool_calls'' (v_list tool_call_schema_v) (Some [])))
     (extra_fields [''role'', ''content'', ''tool_call_id'', ''name'', ''tool_calls''] loc kvs)) validate_role_fields)"

definition message_from_domain :: "message \<Rightarrow> exn + message_schema" where
  "message_from_domain m = bind_r (traverse tool_call_from_domain (msg_tool_calls m)) (\<lambda>calls.
     let s = \<lparr>mes_role = msg_role m, mes_content = msg_content m, mes_tool_call_id = msg_tool_call_id m,
              mes_name = msg_name m, mes_tool_calls = calls\<rparr>
     in if validate_role_fields s = None then Inr s else Inl schema_error)"

definition tool_call_schema_dump :: "tool_call_schema \<Rightarrow> json" where
  "tool_call_schema_dump s = JObj [(''id'', JStr (tcs_id s)), (''name'', JStr (tcs_name s)), (''arguments'', JStr (tcs_arguments s))]"

text \<open>The serializer leaves out the tool fields and the name that are not set.\<close>

definition message_schema_dump :: "message_schema \<Rightarrow> json" where
  "message_schema_dump s = JObj ([(''role'', JStr (role_value (mes_role s))), (''content'', JStr (mes_content s))] @
     opt_field ''tool_call_id'' JStr (mes_tool_call_id s) @ opt_field ''name'' JStr (mes_name s) @
     (if mes_tool_calls s = [] then [] else [(''tool_calls'', JArr (map tool_call_schema_dump (mes_tool_calls s)))]))"

section \<open>Prompt, MCP, retrieval and context options\<close>

record prompt_reference_schema =
  prs_name :: string
  prs_version :: "int option"
  prs_variables :: "(string, string) dict"

definition prompt_reference_schema_v :: "coercions \<Rightarrow> prompt_reference_schema validator" where
  "prompt_reference_schema_v co = v_object (\<lambda>loc kvs. and_check
     (apply_v (apply_v (map_r (\<lambda>n v vs. \<lparr>prs_name = n, prs_version = v, prs_variables = vs\<rparr>)
       (v_field kvs loc ''name'' min_length_1 None))
       (v_field kvs loc ''version''
         (v_optional (v_constrain (of_coercion (co_int co)) (\<lambda>v. 1 \<le> v) ''Input should be greater than or equal to 1'')) (Some None)))
       (v_field kvs loc ''variables'' (v_dict v_str) (Some [])))
     (extra_fields [''name'', ''version'', ''variables''] loc kvs))"

definition prompt_reference_to_domain :: "prompt_reference_schema \<Rightarrow> exn + prompt_reference" where
  "prompt_reference_to_domain s = mk_prompt_reference (prs_name s) (prs_variables s) (prs_version s)"

record mcp_schema =
  mcs_servers :: "string list"

definition mcp_schema_v :: "mcp_schema validator" where
  "mcp_schema_v = v_object (\<lambda>loc kvs. and_check
     (map_r (\<lambda>s. \<lparr>mcs_servers = s\<rparr>) (v_field kvs loc ''servers'' (non_empty_list (v_list v_str)) None))
     (extra_fields [''servers''] loc kvs))"

record rag_schema =
  rgs_enabled :: bool
  rgs_query :: "string option"
  rgs_top_k :: int
  rgs_embedding_model :: string

definition rag_schema_v :: "coercions \<Rightarrow> rag_schema validator" where
  "rag_schema_v co = v_object (\<lambda>loc kvs. and_check
     (apply_v (apply_v (apply_v (map_r (\<lambda>e q k m. \<lparr>rgs_enabled = e, rgs_query = q, rgs_top_k = k, rgs_embedding_model = m\<rparr>)
       (v_field kvs loc ''enabled'' (of_coercion (co_bool co)) (Some False)))
       (v_field kvs loc ''query'' (v_optional min_length_1) (Some None)))
       (v_field kvs loc ''top_k''
         (v_constrain (v_constrain (of_coercion (co_int co)) (\<lambda>k. k \<le> MAX_RAG_TOP_K) ''Input should be less than or equal to 20'')
           (\<lambda>k. 1 \<le> k) ''Input should be greater than or equal to 1'') (Some 5)))
       (v_field kvs loc ''embedding_model'' min_length_1 (Some DEFAULT_RAG_EMBEDDING_MODEL)))
     (extra_fields [''enabled'', ''query'', ''top_k'', ''embedding_model''] loc kvs))"

definition rag_to_domain :: "rag_schema \<Rightarrow> exn + rag_policy" where
  "rag_to_domain s = mk_rag_policy (rgs_enabled s) (rgs_query s) (rgs_top_k s) (rgs_embedding_model s)"

record context_schema =
  cxs_max_input_tokens :: "int option"
  cxs_truncate :: bool

definition positive_int :: "coercions \<Rightarrow> int validator" where
  "positive_int co = v_constrain (of_coercion (co_int co)) (\<lambda>n. 0 < n) ''Input should be greater than 0''"

definition context_schema_v :: "coercions \<Rightarrow> context_schema validator" where
  "context_schema_v co = v_object (\<lambda>loc kvs. and_check
     (apply_v (map_r (\<lambda>m t. \<lparr>cxs_max_input_tokens = m, cxs_truncate = t\<rparr>)
       (v_field kvs loc ''max_input_tokens'' (v_optional (positive_int co)) (Some None)))
       (v_field kvs loc ''truncate'' (of_coercion (co_bool co)) (Some False)))
     (extra_fields [''max_input_tokens'', ''truncate''] loc kvs))"

definition context_to_domain :: "context_schema \<Rightarrow> exn + context_policy" where
  "context_to_domain s = mk_context_policy (cxs_max_input_tokens s) (cxs_truncate s)"

section \<open>The request\<close>

record create_response_request =
  crq_model :: string
  crq_messages :: "message_schema list option"
  crq_prompt :: "prompt_reference_schema option"
  crq_context :: "context_schema option"
  crq_temperature :: "pyfloat option"
  crq_max_output_tokens :: "int option"
  crq_stream :: bool
  crq_tools :: "tool_definition_schema list"
  crq_cache :: bool
  crq_rag :: "rag_schema option"
  crq_mcp :: "mcp_schema option"

text \<open>The bounds are checked as \<open>not t < 0\<close> and \<open>not t > 2\<close>; what is no number passes here.\<close>

definition temperature_v :: "coercions \<Rightarrow> pyfloat validator" where
  "temperature_v co = v_constrain
     (v_constrain (of_coercion (co_float co)) (\<lambda>t. \<not> float_less (Fin 2) t) ''Input should be less than or equal to 2'')
     (\<lambda>t. \<not> float_less t (Fin 0)) ''Input should be greater than or equal to 0''"

definition validate_messages_xor_prompt :: "create_response_request \<Rightarrow> string option" where
  "validate_messages_xor_prompt r =
     (if (crq_messages r = None) = (crq_prompt r = None) then Some ''provide exactly one of messages or prompt'' else None)"

definition request_fields :: "string list" where
  "request_fields = [''model'', ''messages'', ''prompt'', ''context'', ''temperature'', ''max_output_tokens'', ''stream'',
     ''tools'', ''cache'', ''rag'', ''mcp'']"

definition create_response_request_v :: "coercions \<Rightarrow> create_response_request validator" where
  "create_response_request_v co = v_object (\<lambda>loc kvs. after_v loc (and_check
     (apply_v (apply_v (apply_v (apply_v (apply_v (apply_v (apply_v (apply_v (apply_v (apply_v (map_r
         (\<lambda>m ms p c t mx s ts ca r mc. \<lparr>crq_model = m, crq_messages = ms, crq_prompt = p, crq_context = c, crq_temperature = t,
            crq_max_output_tokens = mx, crq_stream = s, crq_tools = ts, crq_cache = ca, crq_rag = r, crq_mcp = mc\<rparr>)
       (v_field kvs loc ''model'' min_length_1 None))
       (v_field kvs loc ''messages'' (v_optional (non_empty_list (v_list message_schema_v))) (Some None)))
       (v_field kvs loc ''prompt'' (v_optional (prompt_reference_schema_v co)) (Some None)))
       (v_field kvs loc ''context'' (v_optional (context_schema_v co)) (Some None)))
       (v_field kvs loc ''temperature'' (v_optional (temperature_v co)) (Some None)))
       (v_field kvs loc ''max_output_tokens'' (v_optional (positive_int co)) (Some None)))
       (v_field kvs loc ''stream'' (of_coercion (co_bool co)) (Some False)))
       (v_field kvs loc ''tools'' (v_list tool_definition_schema_v) (Some [])))
       (v_field kvs loc ''cache'' (of_coercion (co_bool co)) (Some False)))
       (v_field kvs loc ''rag'' (v_optional (rag_schema_v co)) (Some None)))
       (v_field kvs loc ''mcp'' (v_optional mcp_schema_v) (Some None)))
     (extra_fields request_fields loc kvs)) validate_messages_xor_prompt)"

definition rag_enabled :: "create_response_request \<Rightarrow> bool" where
  "rag_enabled r = (case crq_rag r of None \<Rightarrow> False | Some g \<Rightarrow> rgs_enabled g)"

definition mcp_enabled :: "create_response_request \<Rightarrow> bool" where
  "mcp_enabled r = (case crq_mcp r of None \<Rightarrow> False | Some m \<Rightarrow> mcs_servers m \<noteq> [])"

definition needs_context_check :: "create_response_request \<Rightarrow> bool" where
  "needs_context_check r = (crq_prompt r \<noteq> None \<or> crq_context r \<noteq> None \<or> rag_enabled r \<or> mcp_enabled r \<or> crq_tools r \<noteq> [])"

definition own_messages :: "create_response_request \<Rightarrow> exn + message list" where
  "own_messages r = traverse message_to_domain (case crq_messages r of None \<Rightarrow> [] | Some ms \<Rightarrow> ms)"

definition request_to_domain ::
    "create_response_request \<Rightarrow> message list option \<Rightarrow> tool_definition list \<Rightarrow> exn + generation_request" where
  "request_to_domain r messages tools =
     bind_r (case messages of Some ms \<Rightarrow> Inr ms | None \<Rightarrow> own_messages r) (\<lambda>resolved.
     validate_generation_request \<lparr>gr_model = crq_model r, gr_messages = resolved, gr_temperature = crq_temperature r,
       gr_max_output_tokens = crq_max_output_tokens r, gr_stream = crq_stream r, gr_tools = tools, gr_cache = crq_cache r\<rparr>)"

section \<open>The response\<close>

record token_usage_schema =
  tus_input_tokens :: int
  tus_output_tokens :: int
  tus_total_tokens :: int

definition token_usage_from_domain :: "token_usage \<Rightarrow> token_usage_schema" where
  "token_usage_from_domain u =
     \<lparr>tus_input_tokens = tu_input_tokens u, tus_output_tokens = tu_output_tokens u, tus_total_tokens = total_tokens u\<rparr>"

record response_schema =
  rss_id :: string
  rss_model :: string
  rss_output :: message_schema
  rss_usage :: "token_usage_schema option"
  rss_cached :: bool

definition response_from_domain :: "generation_response \<Rightarrow> exn + response_schema" where
  "response_from_domain r = map_r (\<lambda>out. \<lparr>rss_id = rs_id r, rss_model = rs_model r, rss_output = out,
     rss_usage = map_option token_usage_from_domain (rs_usage r), rss_cached = rs_cached r\<rparr>) (message_from_domain (rs_output r))"

definition token_usage_dump :: "token_usage_schema \<Rightarrow> json" where
  "token_usage_dump u = JObj [(''input_tokens'', JInt (tus_input_tokens u)), (''output_tokens'', JInt (tus_output_tokens u)),
     (''total_tokens'', JInt (tus_total_tokens u))]"

definition response_dump :: "response_schema \<Rightarrow> json" where
  "response_dump s = JObj ([(''id'', JStr (rss_id s)), (''model'', JStr (rss_model s)), (''output'', message_schema_dump (rss_output s)),
     (''usage'', opt_json token_usage_dump (rss_usage s))] @ (if rss_cached s then [(''cached'', JBool True)] else []))"

end
