(* ===== verification/ApiKeys.thy ===== *)
theory ApiKeys
  imports Database
begin

text \<open>
  Tenancy use cases: organizations (\<open>application/organizations\<close>), the API-key life cycle
  (\<open>application/api_keys\<close>), authentication (\<open>application/auth\<close>) and the key format of
  \<open>infrastructure/security/api_key_crypto.py\<close>. The argon2 hasher is a parameter; time, fresh
  identifiers and random tokens are inputs of each call.
\<close>

section \<open>Secrets and the hasher\<close>

record hasher =
  hs_hash :: "string \<Rightarrow> string \<Rightarrow> string"  \<comment> \<open>salt, secret\<close>
  hs_verify :: "string \<Rightarrow> string \<Rightarrow> bool"  \<comment> \<open>secret, digest\<close>

definition KEY_PUBLIC_PREFIX :: string where
  "KEY_PUBLIC_PREFIX = ''airt_''"

definition LOOKUP_PREFIX_LENGTH :: nat where
  "LOOKUP_PREFIX_LENGTH = length KEY_PUBLIC_PREFIX + 8"

definition derive_lookup_prefix :: "string \<Rightarrow> string" where
  "derive_lookup_prefix secret = take LOOKUP_PREFIX_LENGTH secret"

text \<open>\<open>token\<close> is what \<open>secrets.token_urlsafe(32)\<close> returned.\<close>

definition generate_secret :: "string \<Rightarrow> string \<times> string" where
  "generate_secret token = (let secret = KEY_PUBLIC_PREFIX @ token in (secret, derive_lookup_prefix secret))"

text \<open>What a call draws from its environment.\<close>

record fresh =
  fr_now :: datetime
  fr_id :: uuid
  fr_audit_id :: uuid
  fr_token :: string
  fr_salt :: string

section \<open>Organizations\<close>

definition create_organization :: "fresh \<Rightarrow> string \<Rightarrow> string \<Rightarrow> (db, exn, organization) act" where
  "create_organization fr name slug =
     bind_a (read_a (org_get_by_slug slug)) (\<lambda>existing.
     if existing \<noteq> None then raise_a (OrganizationSlugConflictError slug)
     else bind_a (lift_a (validate_organization \<lparr>org_id = fr_id fr, org_name = name, org_slug = slug,
            org_status = OrgActive, org_created_at = fr_now fr, org_updated_at = fr_now fr\<rparr>)) org_add)"

definition get_organization :: "uuid \<Rightarrow> (db, exn, organization) act" where
  "get_organization i =
     bind_a (read_a (org_get i)) (\<lambda>oz. case oz of None \<Rightarrow> raise_a (OrganizationNotFoundError i) | Some x \<Rightarrow> ret_a x)"

section \<open>API keys\<close>

record create_api_key_result =
  cr_api_key :: api_key_metadata
  cr_secret :: string

definition key_audit ::
    "fresh \<Rightarrow> string \<Rightarrow> uuid \<Rightarrow> uuid \<Rightarrow> (string, string) dict \<Rightarrow> (db, exn, audit_event) act" where
  "key_audit fr action org key_id metadata =
     bind_a (lift_a (validate_audit_event \<lparr>ae_id = fr_audit_id fr, ae_action = action, ae_occurred_at = fr_now fr,
       ae_organization_id = Some org, ae_actor_api_key_id = None, ae_request_id = None,
       ae_resource_type = ''api_key'', ae_resource_id = Some (uuid_str key_id), ae_metadata = metadata\<rparr>)) audit_add"

definition new_key :: "hasher \<Rightarrow> fresh \<Rightarrow> uuid \<Rightarrow> string option \<Rightarrow> api_key" where
  "new_key hs fr org name =
     (case generate_secret (fr_token fr) of (secret, pre) \<Rightarrow>
       \<lparr>ak_id = fr_id fr, ak_organization_id = org, ak_name = name, ak_prefix = pre,
        ak_secret_hash = hs_hash hs (fr_salt fr) secret, ak_status = KeyActive,
        ak_created_at = fr_now fr, ak_revoked_at = None, ak_updated_at = fr_now fr\<rparr>)"

definition create_api_key ::
    "hasher \<Rightarrow> fresh \<Rightarrow> uuid \<Rightarrow> string option \<Rightarrow> (db, exn, create_api_key_result) act" where
  "create_api_key hs fr org name =
     bind_a (read_a (org_get org)) (\<lambda>oz. case oz of
       None \<Rightarrow> raise_a (OrganizationNotFoundError org)
     | Some _ \<Rightarrow>
         bind_a (lift_a (validate_api_key (new_key hs fr org name))) (\<lambda>k.
         bind_a (key_add k) (\<lambda>stored.
         bind_a (key_audit fr ''api_key.created'' org (ak_id stored) [(''prefix'', ak_prefix stored)]) (\<lambda>_.
         ret_a \<lparr>cr_api_key = to_metadata stored, cr_secret = fst (generate_secret (fr_token fr))\<rparr>))))"

definition list_api_keys ::
    "(api_key_row list \<Rightarrow> api_key_row list) \<Rightarrow> uuid \<Rightarrow> (db, exn, api_key_metadata list) act" where
  "list_api_keys scan org =
     bind_a (read_a (org_get org)) (\<lambda>oz. case oz of
       None \<Rightarrow> raise_a (OrganizationNotFoundError org)
     | Some _ \<Rightarrow> bind_a (read_a (key_list_by_organization scan org)) (\<lambda>ks. ret_a (map to_metadata ks)))"

definition revoke_api_key :: "fresh \<Rightarrow> uuid \<Rightarrow> (db, exn, api_key_metadata) act" where
  "revoke_api_key fr i =
     bind_a (read_a (key_get i)) (\<lambda>found. case found of
       None \<Rightarrow> raise_a (ApiKeyNotFoundError i)
     | Some k \<Rightarrow>
         bind_a (lift_a (revoke_key k (fr_now fr))) (\<lambda>revoked.
         bind_a (key_save revoked) (\<lambda>stored.
         bind_a (key_audit fr ''api_key.revoked'' (ak_organization_id stored) (ak_id stored) [(''prefix'', ak_prefix stored)]) (\<lambda>_.
         ret_a (to_metadata stored)))))"

definition rotate_api_key :: "hasher \<Rightarrow> fresh \<Rightarrow> uuid \<Rightarrow> (db, exn, create_api_key_result) act" where
  "rotate_api_key hs fr i =
     bind_a (read_a (key_get i)) (\<lambda>found. case found of
       None \<Rightarrow> raise_a (ApiKeyNotFoundError i)
     | Some k \<Rightarrow>
         bind_a (lift_a (revoke_key k (fr_now fr))) (\<lambda>revoked.
         bind_a (lift_a (validate_api_key (new_key hs fr (ak_organization_id k) (ak_name k)))) (\<lambda>replacement.
         bind_a (key_revoke_and_add revoked replacement) (\<lambda>stored.
         bind_a (key_audit fr ''api_key.rotated'' (ak_organization_id stored) (ak_id stored)
             [(''previous_key_id'', uuid_str i), (''prefix'', ak_prefix stored)]) (\<lambda>_.
         ret_a \<lparr>cr_api_key = to_metadata stored, cr_secret = fst (generate_secret (fr_token fr))\<rparr>)))))"

section \<open>Authentication\<close>

record principal =
  pl_api_key_id :: uuid
  pl_organization_id :: uuid
  pl_organization_slug :: string
  pl_api_key_prefix :: string

definition MIN_SECRET_LENGTH :: nat where
  "MIN_SECRET_LENGTH = length KEY_PUBLIC_PREFIX + 8"

text \<open>The checks on the key that matched: it is active and its organization exists and is not suspended.\<close>

definition principal_of_match :: "api_key option \<Rightarrow> db \<Rightarrow> exn + principal" where
  "principal_of_match matched d =
     (case matched of None \<Rightarrow> Inl InvalidApiKeyCredentialsError
      | Some k \<Rightarrow>
          if ak_status k \<noteq> KeyActive then Inl InvalidApiKeyCredentialsError
          else bind_r (org_get (ak_organization_id k) d) (\<lambda>oz. case oz of
              None \<Rightarrow> Inl InvalidApiKeyCredentialsError
            | Some org \<Rightarrow>
                if org_status org = OrgSuspended then Inl (OrganizationSuspendedError (org_id org))
                else Inr \<lparr>pl_api_key_id = ak_id k, pl_organization_id = org_id org,
                          pl_organization_slug = org_slug org, pl_api_key_prefix = ak_prefix k\<rparr>))"

definition authenticate ::
    "hasher \<Rightarrow> (api_key_row list \<Rightarrow> api_key_row list) \<Rightarrow> string \<Rightarrow> db \<Rightarrow> exn + principal" where
  "authenticate hs scan secret d =
     (if \<not> startswith secret KEY_PUBLIC_PREFIX \<or> length secret < MIN_SECRET_LENGTH
      then Inl InvalidApiKeyCredentialsError
      else bind_r (key_find_by_prefix scan (derive_lookup_prefix secret) d) (\<lambda>candidates.
        principal_of_match (find (\<lambda>k. hs_verify hs secret (ak_secret_hash k)) candidates) d))"

section \<open>Prompt use cases\<close>

definition create_prompt_version ::
    "fresh \<Rightarrow> uuid \<Rightarrow> string \<Rightarrow> prompt_message_template list \<Rightarrow> (db, exn, prompt_template) act" where
  "create_prompt_version fr org name messages =
     bind_a (lift_a (validate_prompt_name name)) (\<lambda>_.
     bind_a (lift_a (reject_if (messages = []) ''messages must contain at least one message'')) (\<lambda>_.
     prompt_create_version (fr_id fr) (fr_now fr) org name messages))"

definition get_prompt_versions :: "uuid \<Rightarrow> string \<Rightarrow> (db, exn, prompt_template list) act" where
  "get_prompt_versions org name =
     bind_a (lift_a (validate_prompt_name name)) (\<lambda>_.
     bind_a (read_a (prompt_list_versions org name)) (\<lambda>vs.
     if vs = [] then raise_a (PromptNotFoundError name None) else ret_a vs))"

definition resolve_prompt :: "uuid \<Rightarrow> prompt_reference \<Rightarrow> (db, exn, message list) act" where
  "resolve_prompt org ref =
     bind_a (read_a (prompt_get org (pr_name ref) (pr_version ref))) (\<lambda>t. case t of
       None \<Rightarrow> raise_a (PromptNotFoundError (pr_name ref) (pr_version ref))
     | Some template \<Rightarrow> lift_a (render template (pr_variables ref)))"

section \<open>Rows and entities in a well-formed database\<close>

lemma key_to_row_inj: "key_to_row k = key_to_row k' \<Longrightarrow> k = k'"
  by (cases k; cases k'; cases "ak_status k"; cases "ak_status k'") (auto simp: key_to_row_def)

lemma get_row_Some:
  assumes "distinct (map pk rows)" "r \<in> set rows" "dom_of r = Inr e"
  shows "get_row pk dom_of rows (pk r) = Inr (Some e)"
proof -
  obtain r' where r': "find (\<lambda>x. pk x = pk r) rows = Some r'"
    using assms(2) by (cases "find (\<lambda>x. pk x = pk r) rows") (auto simp: find_None_iff)
  with find_SomeD [OF r'] assms(1,2) have "r' = r" by (auto simp: distinct_map inj_on_def)
  with r' assms(3) show ?thesis by (simp add: get_row_def)
qed

lemma get_row_SomeD:
  "get_row pk dom_of rows i = Inr (Some e) \<Longrightarrow> \<exists>r\<in>set rows. pk r = i \<and> dom_of r = Inr e"
  by (auto simp: get_row_def map_r_eq_Inr split: option.splits dest: find_SomeD)

lemma key_get_Some:
  "key_get i d = Inr (Some k) \<Longrightarrow> key_to_row k \<in> set (db_api_keys d) \<and> ak_id k = i \<and> api_key_ok k"
  by (auto simp: key_get_def key_to_domain_Inr dest!: get_row_SomeD)

lemma org_get_Some:
  "org_get i d = Inr (Some oz) \<Longrightarrow> \<exists>r\<in>set (db_organizations d). orow_id r = i \<and> org_to_domain r = Inr oz"
  by (auto simp: org_get_def dest!: get_row_SomeD)

lemma org_to_domain_sel: "org_to_domain r = Inr oz \<Longrightarrow> org_id oz = orow_id r \<and> org_slug oz = orow_slug r \<and>
    organization_status_value (org_status oz) = orow_status r"
  by (auto simp: org_to_domain_def bind_r_eq_Inr validate_organization_Inr organization_status_of_def split: if_splits)

lemma org_get_found:
  assumes "db_ok d" "organization_ok oz" "org_to_row oz \<in> set (db_organizations d)"
  shows "org_get (org_id oz) d = Inr (Some oz)"
  using get_row_Some [of orow_id "db_organizations d" "org_to_row oz" org_to_domain oz] assms
  by (simp add: org_get_def db_ok_def org_to_domain_row)

lemma key_get_found:
  assumes "db_ok d" "api_key_ok k" "key_to_row k \<in> set (db_api_keys d)"
  shows "key_get (ak_id k) d = Inr (Some k)"
  using get_row_Some [of krow_id "db_api_keys d" "key_to_row k" key_to_domain k] assms
  by (simp add: key_get_def db_ok_def key_to_domain_row)

section \<open>Authentication\<close>

definition scan_sound :: "(api_key_row list \<Rightarrow> api_key_row list) \<Rightarrow> bool" where
  "scan_sound scan \<longleftrightarrow> (\<forall>xs. set (scan xs) = set xs)"

lemma key_find_by_prefix_mem:
  assumes "key_find_by_prefix scan pre d = Inr ks" "k \<in> set ks" "scan_sound scan"
  shows "key_to_row k \<in> set (db_api_keys d)" "ak_prefix k = pre" "api_key_ok k"
proof -
  from traverse_mem [OF assms(1) [unfolded key_find_by_prefix_def] assms(2)]
  obtain r where "r \<in> set (scan (filter (\<lambda>r. krow_prefix r = pre) (db_api_keys d)))" "key_to_domain r = Inr k" by blast
  with assms(3) have "r \<in> set (filter (\<lambda>r. krow_prefix r = pre) (db_api_keys d))" "r = key_to_row k" "api_key_ok k"
    by (auto simp: scan_sound_def key_to_domain_Inr)
  then show "key_to_row k \<in> set (db_api_keys d)" "ak_prefix k = pre" "api_key_ok k" by auto
qed

lemma key_find_by_prefix_total:
  assumes "db_ok d" "scan_sound scan"
  shows "\<exists>ks. key_find_by_prefix scan pre d = Inr ks \<and>
    (\<forall>k. k \<in> set ks \<longleftrightarrow> api_key_ok k \<and> key_to_row k \<in> set (db_api_keys d) \<and> ak_prefix k = pre)"
proof -
  let ?rows = "scan (filter (\<lambda>r. krow_prefix r = pre) (db_api_keys d))"
  have rows: "set ?rows = {r \<in> set (db_api_keys d). krow_prefix r = pre}" using assms(2) by (auto simp: scan_sound_def)
  have "\<forall>r\<in>set ?rows. \<exists>k. key_to_domain r = Inr k"
    using assms(1) rows by (auto simp: db_ok_def) (metis key_to_domain_row)
  then obtain g where g: "\<And>r. r \<in> set ?rows \<Longrightarrow> key_to_domain r = Inr (g r)" by metis
  have ks: "key_find_by_prefix scan pre d = Inr (map g ?rows)"
    unfolding key_find_by_prefix_def by (rule traverse_total) (rule g)
  have "k \<in> set (map g ?rows) \<longleftrightarrow> api_key_ok k \<and> key_to_row k \<in> set (db_api_keys d) \<and> ak_prefix k = pre" for k
  proof
    assume "k \<in> set (map g ?rows)"
    then obtain r where "r \<in> set ?rows" "k = g r" by auto
    with g [of r] have r: "r = key_to_row k" "api_key_ok k" by (simp_all add: key_to_domain_Inr)
    with rows \<open>r \<in> set ?rows\<close> show "api_key_ok k \<and> key_to_row k \<in> set (db_api_keys d) \<and> ak_prefix k = pre"
      by auto
  next
    assume k: "api_key_ok k \<and> key_to_row k \<in> set (db_api_keys d) \<and> ak_prefix k = pre"
    then have "key_to_row k \<in> set ?rows" using rows by simp
    moreover from this g have "g (key_to_row k) = k" using k key_to_domain_row by force
    ultimately show "k \<in> set (map g ?rows)" by force
  qed
  with ks show ?thesis by blast
qed

lemma principal_of_match_Inr:
  assumes "principal_of_match m d = Inr p"
  shows "\<exists>k oz. m = Some k \<and> ak_status k = KeyActive \<and> org_get (ak_organization_id k) d = Inr (Some oz) \<and>
    org_status oz = OrgActive \<and>
    p = \<lparr>pl_api_key_id = ak_id k, pl_organization_id = org_id oz, pl_organization_slug = org_slug oz,
         pl_api_key_prefix = ak_prefix k\<rparr>"
proof -
  have st: "x = OrgActive" if "x \<noteq> OrgSuspended" for x using that by (cases x) auto
  from assms show ?thesis
    by (auto simp: principal_of_match_def bind_r_eq_Inr dest!: st split: option.splits if_splits)
qed

lemma authenticate_Inr:
  assumes "authenticate hs scan secret d = Inr p" "scan_sound scan"
  shows "\<exists>k oz. key_to_row k \<in> set (db_api_keys d) \<and> api_key_ok k \<and> ak_status k = KeyActive \<and>
    ak_prefix k = derive_lookup_prefix secret \<and> hs_verify hs secret (ak_secret_hash k) \<and>
    org_get (ak_organization_id k) d = Inr (Some oz) \<and> org_status oz = OrgActive \<and>
    p = \<lparr>pl_api_key_id = ak_id k, pl_organization_id = org_id oz, pl_organization_slug = org_slug oz,
         pl_api_key_prefix = ak_prefix k\<rparr>"
proof -
  from assms(1) obtain ks where ks: "key_find_by_prefix scan (derive_lookup_prefix secret) d = Inr ks"
    "principal_of_match (find (\<lambda>k. hs_verify hs secret (ak_secret_hash k)) ks) d = Inr p"
    by (auto simp: authenticate_def bind_r_eq_Inr split: if_splits)
  from principal_of_match_Inr [OF ks(2)] obtain k oz where k: "find (\<lambda>k. hs_verify hs secret (ak_secret_hash k)) ks = Some k"
    "ak_status k = KeyActive" "org_get (ak_organization_id k) d = Inr (Some oz)" "org_status oz = OrgActive"
    "p = \<lparr>pl_api_key_id = ak_id k, pl_organization_id = org_id oz, pl_organization_slug = org_slug oz,
          pl_api_key_prefix = ak_prefix k\<rparr>" by blast
  from find_SomeD [OF k(1)] key_find_by_prefix_mem [OF ks(1) _ assms(2)] k show ?thesis by blast
qed

section \<open>Administration as a step relation\<close>

definition key_revoked :: "uuid \<Rightarrow> db \<Rightarrow> bool" where
  "key_revoked i d \<longleftrightarrow> (\<exists>r\<in>set (db_api_keys d). krow_id r = i \<and> krow_status r = ''revoked'')"

inductive admin_step :: "hasher \<Rightarrow> db \<Rightarrow> db \<Rightarrow> bool" for hs where
  step_create_organization: "create_organization fr name slug d = (r1, d') \<Longrightarrow> admin_step hs d d'"
| step_create_key: "create_api_key hs fr org kname d = (r2, d') \<Longrightarrow> admin_step hs d d'"
| step_revoke_key: "revoke_api_key fr i d = (r3, d') \<Longrightarrow> admin_step hs d d'"
| step_rotate_key: "rotate_api_key hs fr i d = (r4, d') \<Longrightarrow> admin_step hs d d'"

lemma key_audit_keys:
  "key_audit fr action org i metadata d = (r, d') \<Longrightarrow>
     db_api_keys d' = db_api_keys d \<and> db_organizations d' = db_organizations d \<and> (db_ok d \<longrightarrow> db_ok d')"
proof -
  assume "key_audit fr action org i metadata d = (r, d')"
  then consider "d' = d" | e where "audit_event_ok e" "audit_add e d = (r, d')"
    by (auto simp: key_audit_def bind_a_def lift_a_def validate_audit_event_Inr split: sum.splits prod.splits)
  then show ?thesis
  proof cases
    case 2
    then show ?thesis using audit_add_keeps [of e d] by (auto simp: audit_add_def split: if_splits)
  qed simp
qed

text \<open>What each use case does to the key table.\<close>

lemma create_organization_effect:
  "create_organization fr name slug d = (r, d') \<Longrightarrow> db_api_keys d' = db_api_keys d \<and> (db_ok d \<longrightarrow> db_ok d')"
proof -
  assume a: "create_organization fr name slug d = (r, d')"
  then consider "d' = d" | oz where "organization_ok oz" "org_add oz d = (r, d')"
    by (auto simp: create_organization_def bind_a_def lift_a_def read_a_def raise_a_def validate_organization_Inr
        split: sum.splits prod.splits if_splits)
  then show ?thesis
  proof cases
    case 2
    then show ?thesis using org_add_keeps [of oz d] by (auto simp: org_add_def Let_def split: if_splits)
  qed simp
qed

lemma create_api_key_effect:
  assumes "create_api_key hs fr org name d = (r, d')"
  shows "db_api_keys d' = db_api_keys d \<or> (\<exists>k. api_key_ok k \<and> k = new_key hs fr org name \<and>
     key_insertable (key_to_row k) d \<and> db_api_keys d' = db_api_keys d @ [key_to_row k])" and "db_ok d \<longrightarrow> db_ok d'"
proof -
  from assms consider "d' = d"
    | k stored d1 where "api_key_ok k" "k = new_key hs fr org name" "key_add k d = (stored, d1)"
        "d' = d1 \<or> (\<exists>st q. stored = Inr st \<and> key_audit fr ''api_key.created'' org (ak_id st) [(''prefix'', ak_prefix st)] d1 = (q, d'))"
    by (auto simp: create_api_key_def bind_a_def lift_a_def read_a_def raise_a_def ret_a_def validate_api_key_Inr
        split: sum.splits prod.splits option.splits)
  then have "(db_api_keys d' = db_api_keys d \<or> (\<exists>k. api_key_ok k \<and> k = new_key hs fr org name \<and>
     key_insertable (key_to_row k) d \<and> db_api_keys d' = db_api_keys d @ [key_to_row k])) \<and> (db_ok d \<longrightarrow> db_ok d')"
  proof cases
    case 2
    have "db_ok d \<longrightarrow> db_ok d1" using key_add_keeps [OF 2(1), of d] 2(3) by simp
    with 2 show ?thesis
      by (auto simp: key_add_def Let_def split: if_splits dest!: key_audit_keys)
  qed simp
  then show "db_api_keys d' = db_api_keys d \<or> (\<exists>k. api_key_ok k \<and> k = new_key hs fr org name \<and>
     key_insertable (key_to_row k) d \<and> db_api_keys d' = db_api_keys d @ [key_to_row k])" and "db_ok d \<longrightarrow> db_ok d'"
    by simp_all
qed


definition revoked_copy :: "api_key \<Rightarrow> datetime \<Rightarrow> api_key" where
  "revoked_copy k ts = k\<lparr>ak_status := KeyRevoked, ak_revoked_at := Some ts, ak_updated_at := ts\<rparr>"

lemma revoke_api_key_effect:
  assumes "revoke_api_key fr i d = (r, d')"
  shows "db_api_keys d' = db_api_keys d \<or> (\<exists>k. api_key_ok k \<and> ak_id k = i \<and> ak_status k = KeyActive \<and>
     key_to_row k \<in> set (db_api_keys d) \<and> api_key_ok (revoked_copy k (fr_now fr)) \<and>
     db_api_keys d' = key_replace (key_to_row (revoked_copy k (fr_now fr))) (db_api_keys d))" and "db_ok d \<longrightarrow> db_ok d'"
proof -
  from assms consider "d' = d"
    | k stored d1 where "key_get i d = Inr (Some k)" "revoke_key k (fr_now fr) = Inr (revoked_copy k (fr_now fr))"
        "ak_status k = KeyActive" "aware (fr_now fr)" "key_save (revoked_copy k (fr_now fr)) d = (stored, d1)"
        "d' = d1 \<or> (\<exists>st q. stored = Inr st \<and> key_audit fr ''api_key.revoked'' (ak_organization_id st) (ak_id st)
           [(''prefix'', ak_prefix st)] d1 = (q, d'))"
    by (auto simp: revoke_api_key_def bind_a_def lift_a_def read_a_def raise_a_def ret_a_def revoked_copy_def
        revoke_key_Inr dest!: key_get_Some split: sum.splits prod.splits option.splits)
  then have "(db_api_keys d' = db_api_keys d \<or> (\<exists>k. api_key_ok k \<and> ak_id k = i \<and> ak_status k = KeyActive \<and>
     key_to_row k \<in> set (db_api_keys d) \<and> api_key_ok (revoked_copy k (fr_now fr)) \<and>
     db_api_keys d' = key_replace (key_to_row (revoked_copy k (fr_now fr))) (db_api_keys d))) \<and> (db_ok d \<longrightarrow> db_ok d')"
  proof cases
    case 2
    have k: "key_to_row k \<in> set (db_api_keys d)" "ak_id k = i" "api_key_ok k" using key_get_Some [OF 2(1)] by auto
    then have ok: "api_key_ok (revoked_copy k (fr_now fr))"
      unfolding revoked_copy_def using 2(4) by (rule_tac api_key_ok_revoked)
    have "db_ok d \<longrightarrow> db_ok d1" using key_save_keeps [OF ok, of d] 2(5) by simp
    moreover have "db_api_keys d1 = db_api_keys d \<or>
        db_api_keys d1 = key_replace (key_to_row (revoked_copy k (fr_now fr))) (db_api_keys d)"
      using 2(5) by (auto simp: key_save_def split: if_splits)
    ultimately show ?thesis using 2(3,6) k ok by (auto dest!: key_audit_keys)
  qed simp
  then show "db_api_keys d' = db_api_keys d \<or> (\<exists>k. api_key_ok k \<and> ak_id k = i \<and> ak_status k = KeyActive \<and>
     key_to_row k \<in> set (db_api_keys d) \<and> api_key_ok (revoked_copy k (fr_now fr)) \<and>
     db_api_keys d' = key_replace (key_to_row (revoked_copy k (fr_now fr))) (db_api_keys d))" and "db_ok d \<longrightarrow> db_ok d'"
    by simp_all
qed

lemma rotate_api_key_effect:
  assumes "rotate_api_key hs fr i d = (r, d')"
  shows "db_api_keys d' = db_api_keys d \<or> (\<exists>k. api_key_ok k \<and> ak_id k = i \<and> ak_status k = KeyActive \<and>
     key_to_row k \<in> set (db_api_keys d) \<and> api_key_ok (revoked_copy k (fr_now fr)) \<and>
     api_key_ok (new_key hs fr (ak_organization_id k) (ak_name k)) \<and>
     key_insertable (key_to_row (new_key hs fr (ak_organization_id k) (ak_name k))) d \<and>
     db_api_keys d' = key_replace (key_to_row (revoked_copy k (fr_now fr))) (db_api_keys d) @
       [key_to_row (new_key hs fr (ak_organization_id k) (ak_name k))])" and "db_ok d \<longrightarrow> db_ok d'"
proof -
  let ?new = "\<lambda>k. new_key hs fr (ak_organization_id k) (ak_name k)"
  from assms consider "d' = d"
    | k stored d1 where "key_get i d = Inr (Some k)" "revoke_key k (fr_now fr) = Inr (revoked_copy k (fr_now fr))"
        "ak_status k = KeyActive" "aware (fr_now fr)" "api_key_ok (?new k)"
        "key_revoke_and_add (revoked_copy k (fr_now fr)) (?new k) d = (stored, d1)"
        "d' = d1 \<or> (\<exists>st q. stored = Inr st \<and> key_audit fr ''api_key.rotated'' (ak_organization_id st) (ak_id st)
           [(''previous_key_id'', uuid_str i), (''prefix'', ak_prefix st)] d1 = (q, d'))"
    by (auto simp: rotate_api_key_def bind_a_def lift_a_def read_a_def raise_a_def ret_a_def revoked_copy_def
        revoke_key_Inr validate_api_key_Inr dest!: key_get_Some split: sum.splits prod.splits option.splits)
  then have "(db_api_keys d' = db_api_keys d \<or> (\<exists>k. api_key_ok k \<and> ak_id k = i \<and> ak_status k = KeyActive \<and>
     key_to_row k \<in> set (db_api_keys d) \<and> api_key_ok (revoked_copy k (fr_now fr)) \<and> api_key_ok (?new k) \<and>
     key_insertable (key_to_row (?new k)) d \<and>
     db_api_keys d' = key_replace (key_to_row (revoked_copy k (fr_now fr))) (db_api_keys d) @ [key_to_row (?new k)])) \<and>
     (db_ok d \<longrightarrow> db_ok d')"
  proof cases
    case 2
    have k: "key_to_row k \<in> set (db_api_keys d)" "ak_id k = i" "api_key_ok k" using key_get_Some [OF 2(1)] by auto
    then have ok: "api_key_ok (revoked_copy k (fr_now fr))"
      unfolding revoked_copy_def using 2(4) by (rule_tac api_key_ok_revoked)
    have "db_ok d \<longrightarrow> db_ok d1" using key_revoke_and_add_keeps [OF ok 2(5), of d] 2(6) by simp
    moreover have "db_api_keys d1 = db_api_keys d \<or> key_insertable (key_to_row (?new k)) d \<and>
        db_api_keys d1 = key_replace (key_to_row (revoked_copy k (fr_now fr))) (db_api_keys d) @ [key_to_row (?new k)]"
      using 2(6) by (auto simp: key_revoke_and_add_def split: if_splits)
    ultimately show ?thesis using 2(3,5,7) k ok by (auto dest!: key_audit_keys)
  qed simp
  then show "db_api_keys d' = db_api_keys d \<or> (\<exists>k. api_key_ok k \<and> ak_id k = i \<and> ak_status k = KeyActive \<and>
     key_to_row k \<in> set (db_api_keys d) \<and> api_key_ok (revoked_copy k (fr_now fr)) \<and> api_key_ok (?new k) \<and>
     key_insertable (key_to_row (?new k)) d \<and>
     db_api_keys d' = key_replace (key_to_row (revoked_copy k (fr_now fr))) (db_api_keys d) @ [key_to_row (?new k)])"
    and "db_ok d \<longrightarrow> db_ok d'" by simp_all
qed

lemma revoked_copy_sel [simp]: "ak_id (revoked_copy k ts) = ak_id k" "ak_status (revoked_copy k ts) = KeyRevoked"
  "ak_organization_id (revoked_copy k ts) = ak_organization_id k"
  by (simp_all add: revoked_copy_def)

lemma key_revoked_same: "db_api_keys d' = db_api_keys d \<Longrightarrow> key_revoked i d' = key_revoked i d"
  by (simp add: key_revoked_def)

lemma key_revoked_append: "db_api_keys d' = db_api_keys d @ extra \<Longrightarrow> key_revoked i d \<Longrightarrow> key_revoked i d'"
  by (auto simp: key_revoked_def)

lemma key_revoked_replace:
  assumes "key_revoked i d" "krow_status row = ''revoked''" "db_api_keys d' = key_replace row (db_api_keys d) @ extra"
  shows "key_revoked i d'"
proof -
  from assms(1) obtain r where r: "r \<in> set (db_api_keys d)" "krow_id r = i" "krow_status r = ''revoked''"
    by (auto simp: key_revoked_def)
  let ?r = "if krow_id r = krow_id row then row else r"
  have "?r \<in> set (db_api_keys d')" using r(1) unfolding assms(3) key_replace_def by auto
  moreover have "krow_id ?r = i" "krow_status ?r = ''revoked''" using r assms(2) by auto
  ultimately show ?thesis unfolding key_revoked_def by blast
qed

text \<open>A step preserves well-formedness, and a revoked key stays revoked.\<close>

lemma admin_step_keeps:
  assumes "admin_step hs d d'"
  shows "db_ok d \<Longrightarrow> db_ok d'" and "key_revoked i d \<Longrightarrow> key_revoked i d'"
proof -
  have "(db_ok d \<longrightarrow> db_ok d') \<and> (key_revoked i d \<longrightarrow> key_revoked i d')" using assms
  proof cases
    case (step_create_organization fr name slug r1)
    from create_organization_effect [OF this] show ?thesis using key_revoked_same by blast
  next
    case (step_create_key fr org kname r2)
    from create_api_key_effect [OF this] show ?thesis using key_revoked_same key_revoked_append by blast
  next
    case (step_revoke_key fr j r3)
    have "key_revoked i d \<longrightarrow> key_revoked i d'"
    proof
      assume rev: "key_revoked i d"
      from revoke_api_key_effect(1) [OF step_revoke_key] show "key_revoked i d'"
      proof (elim disjE exE conjE)
        fix k
        assume "db_api_keys d' = key_replace (key_to_row (revoked_copy k (fr_now fr))) (db_api_keys d)"
        then have "db_api_keys d' = key_replace (key_to_row (revoked_copy k (fr_now fr))) (db_api_keys d) @ []" by simp
        from key_revoked_replace [OF rev _ this] show ?thesis by simp
      qed (use rev key_revoked_same in blast)
    qed
    then show ?thesis using revoke_api_key_effect(2) [OF step_revoke_key] by blast
  next
    case (step_rotate_key fr j r4)
    have "key_revoked i d \<longrightarrow> key_revoked i d'"
    proof
      assume rev: "key_revoked i d"
      from rotate_api_key_effect(1) [OF step_rotate_key] show "key_revoked i d'"
      proof (elim disjE exE conjE)
        fix k
        assume "db_api_keys d' = key_replace (key_to_row (revoked_copy k (fr_now fr))) (db_api_keys d) @
            [key_to_row (new_key hs fr (ak_organization_id k) (ak_name k))]"
        from key_revoked_replace [OF rev _ this] show ?thesis by simp
      qed (use rev key_revoked_same in blast)
    qed
    then show ?thesis using rotate_api_key_effect(2) [OF step_rotate_key] by blast
  qed
  then show "db_ok d \<Longrightarrow> db_ok d'" and "key_revoked i d \<Longrightarrow> key_revoked i d'" by auto
qed

lemma admin_steps_keep:
  "(admin_step hs)\<^sup>*\<^sup>* d d' \<Longrightarrow> (db_ok d \<longrightarrow> db_ok d') \<and> (key_revoked i d \<longrightarrow> key_revoked i d')"
  by (induction rule: rtranclp_induct) (auto dest: admin_step_keeps)

lemma revoked_not_active:
  assumes "db_ok d" "key_revoked i d" "key_to_row k \<in> set (db_api_keys d)" "ak_id k = i"
  shows "ak_status k = KeyRevoked"
proof -
  from assms(2) obtain r where "r \<in> set (db_api_keys d)" "krow_id r = i" "krow_status r = ''revoked''"
    by (auto simp: key_revoked_def)
  moreover from this assms have "r = key_to_row k"
    by (auto simp: db_ok_def distinct_map inj_on_def)
  ultimately show ?thesis by (cases "ak_status k") auto
qed

section \<open>Properties\<close>

lemma create_api_key_success:
  assumes "create_api_key hs fr org name d = (Inr res, d')"
  shows "api_key_ok (new_key hs fr org name)" "db_api_keys d' = db_api_keys d @ [key_to_row (new_key hs fr org name)]"
    "db_organizations d' = db_organizations d" "cr_secret res = KEY_PUBLIC_PREFIX @ fr_token fr"
    "cr_api_key res = to_metadata (new_key hs fr org name)"
proof -
  let ?k = "new_key hs fr org name"
  from assms obtain st d1 ev where a: "api_key_ok ?k" "key_add ?k d = (Inr st, d1)"
    "key_audit fr ''api_key.created'' org (ak_id st) [(''prefix'', ak_prefix st)] d1 = (Inr ev, d')"
    "res = \<lparr>cr_api_key = to_metadata st, cr_secret = fst (generate_secret (fr_token fr))\<rparr>"
    by (auto simp: create_api_key_def bind_a_iffs validate_api_key_Inr split: option.splits)
  moreover have "st = ?k" using api_keys.add_stores [OF a(1,2)] by simp
  ultimately show "api_key_ok ?k" "db_api_keys d' = db_api_keys d @ [key_to_row ?k]"
    "db_organizations d' = db_organizations d" "cr_secret res = KEY_PUBLIC_PREFIX @ fr_token fr"
    "cr_api_key res = to_metadata ?k"
    using key_audit_keys [OF a(3)]
    by (auto simp: key_add_def Let_def generate_secret_def split: if_splits)
qed

lemma new_key_sel [simp]:
  "ak_id (new_key hs fr org name) = fr_id fr" "ak_organization_id (new_key hs fr org name) = org"
  "ak_status (new_key hs fr org name) = KeyActive" "ak_name (new_key hs fr org name) = name"
  "ak_prefix (new_key hs fr org name) = derive_lookup_prefix (KEY_PUBLIC_PREFIX @ fr_token fr)"
  "ak_secret_hash (new_key hs fr org name) = hs_hash hs (fr_salt fr) (KEY_PUBLIC_PREFIX @ fr_token fr)"
  by (simp_all add: new_key_def generate_secret_def Let_def)

text \<open>A small deployment on which the properties are evaluated.\<close>

definition demo_hasher :: hasher where
  "demo_hasher = \<lparr>hs_hash = (\<lambda>salt s. s), hs_verify = (\<lambda>s h. s = h)\<rparr>"

definition demo_org :: organization where
  "demo_org = \<lparr>org_id = 1, org_name = ''Acme'', org_slug = ''acme'', org_status = OrgActive,
     org_created_at = sample_instant, org_updated_at = sample_instant\<rparr>"

definition demo_db :: db where
  "demo_db = empty_db\<lparr>db_organizations := [org_to_row demo_org]\<rparr>"

definition demo_fresh :: "uuid \<Rightarrow> uuid \<Rightarrow> string \<Rightarrow> fresh" where
  "demo_fresh i a token = \<lparr>fr_now = sample_instant, fr_id = i, fr_audit_id = a, fr_token = token, fr_salt = ''s''\<rparr>"

definition demo_key :: api_key where
  "demo_key = \<lparr>ak_id = 5, ak_organization_id = 1, ak_name = None, ak_prefix = ''airt_abcdefgh'',
     ak_secret_hash = ''airt_abcdefgh1'', ak_status = KeyActive, ak_created_at = sample_instant,
     ak_revoked_at = None, ak_updated_at = sample_instant\<rparr>"

definition demo_audit :: "uuid \<Rightarrow> string \<Rightarrow> audit_event" where
  "demo_audit i action = \<lparr>ae_id = i, ae_action = action, ae_occurred_at = sample_instant,
     ae_organization_id = Some 1, ae_actor_api_key_id = None, ae_request_id = None, ae_resource_type = ''api_key'',
     ae_resource_id = Some (uuid_str 5), ae_metadata = [(''prefix'', ''airt_abcdefgh'')]\<rparr>"

definition demo_db1 :: db where
  "demo_db1 = demo_db\<lparr>db_api_keys := [key_to_row demo_key], db_audit := [demo_audit 6 ''api_key.created'']\<rparr>"

definition demo_db2 :: db where
  "demo_db2 = demo_db\<lparr>db_api_keys := [key_to_row (revoked_copy demo_key sample_instant)],
     db_audit := [demo_audit 6 ''api_key.created'', demo_audit 7 ''api_key.revoked'']\<rparr>"

lemma demo_sel [simp]:
  "ak_id demo_key = 5" "ak_organization_id demo_key = 1" "ak_prefix demo_key = ''airt_abcdefgh''"
  "ak_status demo_key = KeyActive" "fr_now (demo_fresh i a t) = sample_instant" "fr_id (demo_fresh i a t) = i"
  "fr_audit_id (demo_fresh i a t) = a" "fr_token (demo_fresh i a t) = t" "org_id demo_org = 1"
  "aware sample_instant" "ak_prefix (revoked_copy demo_key ts) = ''airt_abcdefgh''"
  by (simp_all add: demo_key_def demo_fresh_def demo_org_def aware_def sample_instant_def revoked_copy_def)

lemma demo_org_ok: "organization_ok demo_org"
  by code_simp

lemma demo_key_ok: "api_key_ok demo_key"
  by (simp add: api_key_ok_def demo_key_def aware_def sample_instant_def is_space_def)

lemma demo_audit_valid: "validate_audit_event (demo_audit i ''api_key.created'') = Inr (demo_audit i ''api_key.created'')"
    "validate_audit_event (demo_audit i ''api_key.revoked'') = Inr (demo_audit i ''api_key.revoked'')"
  by (simp_all add: validate_audit_event_Inr audit_event_ok_def metadata_clean_def demo_audit_def aware_def
      sample_instant_def is_space_def) code_simp+

lemma demo_db_ok: "db_ok demo_db" "db_ok demo_db1" "db_ok demo_db2"
  using demo_org_ok demo_key_ok demo_audit_valid api_key_ok_revoked [OF demo_key_ok, of sample_instant]
  by (auto simp: db_ok_def demo_db_def demo_db1_def demo_db2_def empty_db_def fk_organization_def demo_key_def demo_org_def
      demo_audit_def revoked_copy_def validate_audit_event_Inr aware_def sample_instant_def)

lemma demo_org_get: "org_get 1 demo_db = Inr (Some demo_org)" "org_get 1 demo_db1 = Inr (Some demo_org)"
  by code_simp+

lemma demo_new_key: "new_key demo_hasher (demo_fresh 5 6 ''abcdefgh1'') 1 None = demo_key"
  by code_simp

lemma demo_create:
  "create_api_key demo_hasher (demo_fresh 5 6 ''abcdefgh1'') 1 None demo_db =
     (Inr \<lparr>cr_api_key = to_metadata demo_key, cr_secret = ''airt_abcdefgh1''\<rparr>, demo_db1)"
proof -
  have valid: "validate_api_key demo_key = Inr demo_key" by (simp add: validate_api_key_Inr demo_key_ok)
  have add: "key_add demo_key demo_db = (Inr demo_key, demo_db\<lparr>db_api_keys := [key_to_row demo_key]\<rparr>)"
    by (simp add: key_add_def Let_def key_to_domain_row demo_key_ok key_insertable_def fk_api_key_def fk_organization_def)
      (simp add: demo_db_def empty_db_def demo_key_def demo_org_def)
  have audit: "key_audit (demo_fresh 5 6 ''abcdefgh1'') ''api_key.created'' 1 5 [(''prefix'', ''airt_abcdefgh'')]
      (demo_db\<lparr>db_api_keys := [key_to_row demo_key]\<rparr>) = (Inr (demo_audit 6 ''api_key.created''), demo_db1)"
    using demo_audit_valid(1) [of 6]
    by (simp add: key_audit_def demo_audit_def demo_fresh_def bind_a_def lift_a_def audit_add_def demo_db1_def demo_db_def empty_db_def)
  show ?thesis
    by (simp add: create_api_key_def bind_a_def read_a_def lift_a_def ret_a_def demo_org_get demo_new_key valid add)
      (simp add: audit generate_secret_def KEY_PUBLIC_PREFIX_def Let_def)
qed

lemma demo_revoke: "revoke_api_key (demo_fresh 0 7 []) 5 demo_db1 = (Inr (to_metadata (revoked_copy demo_key sample_instant)), demo_db2)"
proof -
  let ?k = "revoked_copy demo_key sample_instant"
  have get: "key_get 5 demo_db1 = Inr (Some demo_key)" by code_simp
  have ok: "api_key_ok ?k"
    using api_key_ok_revoked [OF demo_key_ok, of sample_instant] by (simp add: revoked_copy_def aware_def sample_instant_def)
  have rev: "revoke_key demo_key sample_instant = Inr ?k"
    by (simp add: revoke_key_Inr [OF demo_key_ok] revoked_copy_def)
  have save: "key_save ?k demo_db1 = (Inr ?k, demo_db1\<lparr>db_api_keys := [key_to_row ?k]\<rparr>)"
    by (simp add: key_save_def fk_api_key_def fk_organization_def key_to_domain_row [OF ok])
      (simp add: demo_db1_def demo_db_def empty_db_def demo_key_def demo_org_def key_replace_def)
  have audit: "key_audit (demo_fresh 0 7 []) ''api_key.revoked'' 1 5 [(''prefix'', ''airt_abcdefgh'')]
      (demo_db1\<lparr>db_api_keys := [key_to_row ?k]\<rparr>) = (Inr (demo_audit 7 ''api_key.revoked''), demo_db2)"
    using demo_audit_valid(2) [of 7]
    by (simp add: key_audit_def demo_audit_def demo_fresh_def bind_a_def lift_a_def audit_add_def demo_db1_def demo_db2_def
        demo_db_def empty_db_def)
  show ?thesis
    by (simp add: revoke_api_key_def bind_a_def read_a_def lift_a_def ret_a_def get rev save audit)
qed

lemma demo_authenticates:
  "authenticate demo_hasher (\<lambda>xs. xs) ''airt_abcdefgh1'' demo_db1 =
     Inr \<lparr>pl_api_key_id = 5, pl_organization_id = 1, pl_organization_slug = ''acme'', pl_api_key_prefix = ''airt_abcdefgh''\<rparr>"
proof -
  have "key_find_by_prefix (\<lambda>xs. xs) ''airt_abcdefgh'' demo_db1 = Inr [demo_key]" by code_simp
  then show ?thesis
    by (simp add: authenticate_def derive_lookup_prefix_def LOOKUP_PREFIX_LENGTH_def KEY_PUBLIC_PREFIX_def MIN_SECRET_LENGTH_def
        principal_of_match_def startswith_def) (simp add: demo_hasher_def demo_key_def demo_org_get demo_org_def)
qed

lemma authenticate_accepts:
  assumes "authenticate hs scan secret d = Inr p" and "scan_sound scan"
  shows "startswith secret KEY_PUBLIC_PREFIX \<and> MIN_SECRET_LENGTH \<le> length secret \<and>
    (\<exists>k oz. key_to_row k \<in> set (db_api_keys d) \<and> api_key_ok k \<and> ak_status k = KeyActive \<and>
       ak_prefix k = derive_lookup_prefix secret \<and> hs_verify hs secret (ak_secret_hash k) \<and>
       org_get (ak_organization_id k) d = Inr (Some oz) \<and> org_status oz = OrgActive \<and>
       p = \<lparr>pl_api_key_id = ak_id k, pl_organization_id = ak_organization_id k,
            pl_organization_slug = org_slug oz, pl_api_key_prefix = ak_prefix k\<rparr>)"
proof -
  from authenticate_Inr [OF assms] obtain k oz where k: "key_to_row k \<in> set (db_api_keys d)" "api_key_ok k"
    "ak_status k = KeyActive" "ak_prefix k = derive_lookup_prefix secret" "hs_verify hs secret (ak_secret_hash k)"
    "org_get (ak_organization_id k) d = Inr (Some oz)" "org_status oz = OrgActive"
    "p = \<lparr>pl_api_key_id = ak_id k, pl_organization_id = org_id oz, pl_organization_slug = org_slug oz,
         pl_api_key_prefix = ak_prefix k\<rparr>" by blast
  from org_get_Some [OF k(6)] have "org_id oz = ak_organization_id k" by (auto dest: org_to_domain_sel)
  with k have "\<exists>k oz. key_to_row k \<in> set (db_api_keys d) \<and> api_key_ok k \<and> ak_status k = KeyActive \<and>
       ak_prefix k = derive_lookup_prefix secret \<and> hs_verify hs secret (ak_secret_hash k) \<and>
       org_get (ak_organization_id k) d = Inr (Some oz) \<and> org_status oz = OrgActive \<and>
       p = \<lparr>pl_api_key_id = ak_id k, pl_organization_id = ak_organization_id k,
            pl_organization_slug = org_slug oz, pl_api_key_prefix = ak_prefix k\<rparr>" by metis
  moreover have "startswith secret KEY_PUBLIC_PREFIX" "MIN_SECRET_LENGTH \<le> length secret"
    using assms(1) by (auto simp: authenticate_def split: if_splits)
  ultimately show ?thesis by blast
qed

text \<open>C4: what authentication establishes. A secret is accepted only when its format is right and a stored
  active key has its lookup prefix and verifies it, and the owning organization exists and is not
  suspended; the principal names exactly that key and organization.\<close>

theorem authentication_sound:
  assumes "authenticate hs scan secret d = Inr p" and "scan_sound scan"
  shows "startswith secret KEY_PUBLIC_PREFIX \<and> MIN_SECRET_LENGTH \<le> length secret \<and>
    (\<exists>k oz. key_to_row k \<in> set (db_api_keys d) \<and> api_key_ok k \<and> ak_status k = KeyActive \<and>
       ak_prefix k = derive_lookup_prefix secret \<and> hs_verify hs secret (ak_secret_hash k) \<and>
       org_get (ak_organization_id k) d = Inr (Some oz) \<and> org_status oz = OrgActive \<and>
       p = \<lparr>pl_api_key_id = ak_id k, pl_organization_id = ak_organization_id k,
            pl_organization_slug = org_slug oz, pl_api_key_prefix = ak_prefix k\<rparr>)"
  by (rule authenticate_accepts [OF assms])

lemma authentication_sound_witness:
  "\<exists>k. key_to_row k \<in> set (db_api_keys demo_db1) \<and> ak_status k = KeyActive \<and>
     ak_prefix k = derive_lookup_prefix ''airt_abcdefgh1''"
  using authentication_sound [OF demo_authenticates] by (auto simp: scan_sound_def)

text \<open>A created key authenticates. After a key is created for an organization that is not suspended, the
  one-time secret authenticates as that key and organization, provided the hasher verifies its own
  digests and no earlier key happens to verify the new secret. The scan order is irrelevant.\<close>

theorem created_key_authenticates:
  assumes "create_api_key hs fr org name d = (Inr res, d')" and "db_ok d" and "scan_sound scan"
    and "hs_verify hs (cr_secret res) (hs_hash hs (fr_salt fr) (cr_secret res))"
    and "\<forall>r\<in>set (db_api_keys d). \<not> hs_verify hs (cr_secret res) (krow_secret_hash r)"
    and "8 \<le> length (fr_token fr)" and "org_get org d = Inr (Some oz)" and "org_status oz = OrgActive"
  shows "authenticate hs scan (cr_secret res) d' =
    Inr \<lparr>pl_api_key_id = fr_id fr, pl_organization_id = org, pl_organization_slug = org_slug oz,
         pl_api_key_prefix = derive_lookup_prefix (cr_secret res)\<rparr>"
proof -
  let ?k = "new_key hs fr org name" and ?s = "cr_secret res"
  note c = create_api_key_success [OF assms(1)]
  have "db_ok d'" using create_api_key_effect(2) [OF assms(1)] assms(2) by simp
  from key_find_by_prefix_total [OF this assms(3)] obtain ks where
    ks: "key_find_by_prefix scan (derive_lookup_prefix ?s) d' = Inr ks"
    "\<forall>k. k \<in> set ks \<longleftrightarrow> api_key_ok k \<and> key_to_row k \<in> set (db_api_keys d') \<and> ak_prefix k = derive_lookup_prefix ?s"
    by blast
  have mem: "?k \<in> set ks" using ks(2) c by simp
  have hit: "hs_verify hs ?s (ak_secret_hash k) \<longleftrightarrow> k = ?k" if "k \<in> set ks" for k
  proof
    assume "hs_verify hs ?s (ak_secret_hash k)"
    moreover have "key_to_row k \<in> set (db_api_keys d) \<or> key_to_row k = key_to_row ?k" using ks(2) that c(2) by auto
    ultimately show "k = ?k" using assms(5) by (auto dest: key_to_row_inj)
  next
    assume "k = ?k"
    then show "hs_verify hs ?s (ak_secret_hash k)" using assms(4) c(4) by simp
  qed
  have "find (\<lambda>k. hs_verify hs ?s (ak_secret_hash k)) ks = Some ?k"
  proof (cases "find (\<lambda>k. hs_verify hs ?s (ak_secret_hash k)) ks")
    case None
    then show ?thesis using mem hit by (auto simp: find_None_iff)
  next
    case (Some k)
    with find_SomeD [OF Some] hit show ?thesis by auto
  qed
  moreover have "org_get org d' = Inr (Some oz)" using assms(7) c(3) by (simp add: org_get_def)
  moreover have "org_id oz = org" using org_get_Some [OF assms(7)] by (auto dest: org_to_domain_sel)
  ultimately show ?thesis using ks(1) assms(6,8) c(4)
    by (simp add: authenticate_def principal_of_match_def MIN_SECRET_LENGTH_def startswith_def)
qed

lemma created_key_authenticates_witness:
  "authenticate demo_hasher (\<lambda>xs. xs) ''airt_abcdefgh1'' demo_db1 =
     Inr \<lparr>pl_api_key_id = 5, pl_organization_id = 1, pl_organization_slug = ''acme'', pl_api_key_prefix = ''airt_abcdefgh''\<rparr>"
  using created_key_authenticates [OF demo_create, of "\<lambda>xs. xs" demo_org]
  by (simp add: demo_db_ok demo_org_get scan_sound_def demo_hasher_def demo_fresh_def)
    (simp add: demo_org_def demo_db_def empty_db_def derive_lookup_prefix_def LOOKUP_PREFIX_LENGTH_def KEY_PUBLIC_PREFIX_def)

text \<open>Revocation is final. From a well-formed database in which a key is revoked, no sequence of
  administrative operations leads to a state in which any secret authenticates as that key.\<close>

theorem revoked_never_authenticates:
  assumes "db_ok d" and "key_revoked i d" and "(admin_step hs)\<^sup>*\<^sup>* d d'" and "scan_sound scan"
  shows "db_ok d' \<and> (\<forall>secret p. authenticate hs' scan secret d' = Inr p \<longrightarrow> pl_api_key_id p \<noteq> i)"
proof -
  have d': "db_ok d'" "key_revoked i d'" using admin_steps_keep [OF assms(3)] assms(1,2) by blast+
  have "pl_api_key_id p \<noteq> i" if "authenticate hs' scan secret d' = Inr p" for secret p
  proof
    assume i: "pl_api_key_id p = i"
    from authenticate_Inr [OF that assms(4)] obtain k where "key_to_row k \<in> set (db_api_keys d')"
      "ak_status k = KeyActive" "pl_api_key_id p = ak_id k" by auto
    with revoked_not_active [OF d'] i show False by auto
  qed
  with d'(1) show ?thesis by blast
qed

lemma revoked_never_authenticates_witness:
  "authenticate demo_hasher (\<lambda>xs. xs) ''airt_abcdefgh1''
     (snd (create_organization (demo_fresh 8 9 []) ''B'' ''b'' demo_db2)) \<noteq>
   Inr \<lparr>pl_api_key_id = 5, pl_organization_id = 1, pl_organization_slug = ''acme'', pl_api_key_prefix = ''airt_abcdefgh''\<rparr>"
proof -
  let ?d = "snd (create_organization (demo_fresh 8 9 []) ''B'' ''b'' demo_db2)"
  have "admin_step demo_hasher demo_db1 demo_db2" using demo_revoke by (rule step_revoke_key)
  moreover have "admin_step demo_hasher demo_db2 ?d"
    by (rule step_create_organization) (rule surjective_pairing)
  ultimately have "(admin_step demo_hasher)\<^sup>*\<^sup>* demo_db2 ?d" by blast
  moreover have "key_revoked 5 demo_db2"
    by (simp add: key_revoked_def demo_db2_def)
  ultimately have all: "\<forall>secret p. authenticate demo_hasher (\<lambda>xs. xs) secret ?d = Inr p \<longrightarrow> pl_api_key_id p \<noteq> 5"
    using revoked_never_authenticates [OF demo_db_ok(3), of 5 demo_hasher ?d "\<lambda>xs. xs" demo_hasher]
    by (simp add: scan_sound_def)
  show ?thesis
  proof
    assume "authenticate demo_hasher (\<lambda>xs. xs) ''airt_abcdefgh1'' ?d =
      Inr \<lparr>pl_api_key_id = 5, pl_organization_id = 1, pl_organization_slug = ''acme'', pl_api_key_prefix = ''airt_abcdefgh''\<rparr>"
    with all have "pl_api_key_id \<lparr>pl_api_key_id = 5, pl_organization_id = 1, pl_organization_slug = ''acme'',
        pl_api_key_prefix = ''airt_abcdefgh''\<rparr> \<noteq> 5" by blast
    then show False by simp
  qed
qed

lemma get_row_replace_other:
  "j \<noteq> krow_id row \<Longrightarrow> get_row krow_id dom_of (key_replace row rows) j = get_row krow_id dom_of rows j"
  by (induction rows) (auto simp: get_row_def key_replace_def)

lemma uuid_str_not_blank: "\<not> blank (uuid_str u)"
  by (auto simp: uuid_str_def group_hex_def is_space_def)

lemma key_audit_total:
  assumes "audit_event_ok \<lparr>ae_id = fr_audit_id fr, ae_action = action, ae_occurred_at = fr_now fr,
       ae_organization_id = Some org, ae_actor_api_key_id = None, ae_request_id = None,
       ae_resource_type = ''api_key'', ae_resource_id = Some (uuid_str i), ae_metadata = metadata\<rparr>"
    and "\<forall>e\<in>set (db_audit d). ae_id e \<noteq> fr_audit_id fr"
  shows "\<exists>e d'. key_audit fr action org i metadata d = (Inr e, d') \<and> db_audit d' = db_audit d @ [e] \<and> ae_action e = action"
  using assms by (auto simp: key_audit_def bind_a_def lift_a_def audit_add_def validate_audit_event_Inr
      split: sum.split)
    (metis Inl_Inr_False validate_audit_event_Inr)

text \<open>A rotation that gets as far as storing the new key, and the ways it fails before.\<close>

lemma rotate_api_key_cases:
  assumes "rotate_api_key hs fr i d = (res, d')"
  obtains (fail) e where "res = Inl e" "d' = d"
    | (wrote) k stored d1 where "key_get i d = Inr (Some k)" "ak_status k = KeyActive" "aware (fr_now fr)"
        "api_key_ok (new_key hs fr (ak_organization_id k) (ak_name k))"
        "key_revoke_and_add (revoked_copy k (fr_now fr)) (new_key hs fr (ak_organization_id k) (ak_name k)) d = (Inr stored, d1)"
        "(res, d') = bind_a (key_audit fr ''api_key.rotated'' (ak_organization_id stored) (ak_id stored)
             [(''previous_key_id'', uuid_str i), (''prefix'', ak_prefix stored)]) (\<lambda>_.
         ret_a \<lparr>cr_api_key = to_metadata stored, cr_secret = fst (generate_secret (fr_token fr))\<rparr>) d1"
proof -
  from assms consider e where "res = Inl e" "d' = d"
    | k stored d1 where "key_get i d = Inr (Some k)" "ak_status k = KeyActive" "aware (fr_now fr)"
        "api_key_ok (new_key hs fr (ak_organization_id k) (ak_name k))"
        "key_revoke_and_add (revoked_copy k (fr_now fr)) (new_key hs fr (ak_organization_id k) (ak_name k)) d = (Inr stored, d1)"
        "(res, d') = bind_a (key_audit fr ''api_key.rotated'' (ak_organization_id stored) (ak_id stored)
             [(''previous_key_id'', uuid_str i), (''prefix'', ak_prefix stored)]) (\<lambda>_.
         ret_a \<lparr>cr_api_key = to_metadata stored, cr_secret = fst (generate_secret (fr_token fr))\<rparr>) d1"
    | k e where "key_revoke_and_add (revoked_copy k (fr_now fr)) (new_key hs fr (ak_organization_id k) (ak_name k)) d = (Inl e, d')"
        "res = Inl e" "api_key_ok (new_key hs fr (ak_organization_id k) (ak_name k))"
    by (auto simp: rotate_api_key_def bind_a_def [of "read_a _"] bind_a_def [of "lift_a _"]
        bind_a_def [of "key_revoke_and_add _ _"] lift_a_def read_a_def raise_a_def revoked_copy_def
        revoke_key_Inr validate_api_key_Inr dest!: key_get_Some split: sum.splits prod.splits option.splits)
  then show thesis
  proof cases
    case 3
    then show thesis by (intro fail) (auto simp: key_revoke_and_add_def key_to_domain_row split: if_splits)
  qed (use fail wrote in blast)+
qed

lemma rotation_event_ok:
  assumes "api_key_ok stored" and "aware (fr_now fr)"
  shows "audit_event_ok \<lparr>ae_id = fr_audit_id fr, ae_action = ''api_key.rotated'', ae_occurred_at = fr_now fr,
        ae_organization_id = Some (ak_organization_id stored), ae_actor_api_key_id = None, ae_request_id = None,
        ae_resource_type = ''api_key'', ae_resource_id = Some (uuid_str (ak_id stored)),
        ae_metadata = [(''previous_key_id'', uuid_str i), (''prefix'', ak_prefix stored)]\<rparr>"
  using assms uuid_str_not_blank [of i]
  by (auto simp: api_key_ok_def audit_event_ok_def metadata_clean_def FORBIDDEN_METADATA_KEYS_def lower_def lower_char_def is_space_def)

text \<open>C21: rotation is all or nothing. When the audit identifier is fresh, a rotation that raises leaves the
  database as it was; one that returns has revoked exactly the key it was given, which was active, added
  exactly one active key of the same organization and name, written one audit event, and touched no
  other key.\<close>

theorem rotation_atomic:
  assumes "rotate_api_key hs fr i d = (res, d')" and "db_ok d"
    and "\<forall>e\<in>set (db_audit d). ae_id e \<noteq> fr_audit_id fr"
  shows "case res of Inl e \<Rightarrow> d' = d
    | Inr cr \<Rightarrow> \<exists>k e. key_get i d = Inr (Some k) \<and> ak_status k = KeyActive \<and>
        key_get i d' = Inr (Some (revoked_copy k (fr_now fr))) \<and>
        key_get (fr_id fr) d' = Inr (Some (new_key hs fr (ak_organization_id k) (ak_name k))) \<and>
        (\<forall>j. j \<noteq> i \<longrightarrow> j \<noteq> fr_id fr \<longrightarrow> key_get j d' = key_get j d) \<and>
        db_audit d' = db_audit d @ [e] \<and> ae_action e = ''api_key.rotated'' \<and>
        cr_secret cr = KEY_PUBLIC_PREFIX @ fr_token fr"
proof -
  let ?new = "\<lambda>k. new_key hs fr (ak_organization_id k) (ak_name k)"
  let ?rev = "\<lambda>k. revoked_copy k (fr_now fr)"
  from assms(1) show ?thesis
  proof (cases rule: rotate_api_key_cases)
    case fail
    then show ?thesis by simp
  next
    case (wrote k stored d1)
    have k: "key_to_row k \<in> set (db_api_keys d)" "ak_id k = i" "api_key_ok k" using key_get_Some [OF wrote(1)] by auto
    then have ok: "api_key_ok (?rev k)"
      unfolding revoked_copy_def using wrote(3) by (rule_tac api_key_ok_revoked)
    have ins: "key_insertable (key_to_row (?new k)) d" "stored = ?new k"
      and d1: "d1 = d\<lparr>db_api_keys := key_replace (key_to_row (?rev k)) (db_api_keys d) @ [key_to_row (?new k)]\<rparr>"
      using wrote(5) by (auto simp: key_revoke_and_add_def key_to_domain_row [OF wrote(4)] split: if_splits)
    have stored: "api_key_ok stored" using wrote(4) ins(2) by simp
    obtain e where a: "key_audit fr ''api_key.rotated'' (ak_organization_id stored) (ak_id stored)
        [(''previous_key_id'', uuid_str i), (''prefix'', ak_prefix stored)] d1 = (Inr e, d')"
      "db_audit d' = db_audit d1 @ [e]" "ae_action e = ''api_key.rotated''"
      and res: "res = Inr \<lparr>cr_api_key = to_metadata stored, cr_secret = fst (generate_secret (fr_token fr))\<rparr>"
      using key_audit_total [OF rotation_event_ok [OF stored wrote(3), of i], of d1] wrote(6) assms(3) by (auto simp: d1 bind_a_def ret_a_def)
    have keys: "db_api_keys d' = db_api_keys d1" using key_audit_keys [OF a(1)] by simp
    have "db_ok d'" using rotate_api_key_effect(2) [OF assms(1)] assms(2) by simp
    moreover have "key_to_row (?rev k) \<in> set (db_api_keys d')" "key_to_row (?new k) \<in> set (db_api_keys d')"
      using k(1,2) by (force simp: keys d1 key_replace_def)+
    ultimately have "key_get i d' = Inr (Some (?rev k))" "key_get (fr_id fr) d' = Inr (Some (?new k))"
      using key_get_found [of d' "?rev k"] key_get_found [of d' "?new k"] ok wrote(4) k(2) by auto
    moreover have "key_get j d' = key_get j d" if "j \<noteq> i" "j \<noteq> fr_id fr" for j
      using that k(2) by (simp add: key_get_def keys d1 get_row_other get_row_replace_other)
    moreover have "db_audit d1 = db_audit d" by (simp add: d1)
    ultimately show ?thesis using res a(2,3) wrote(1,2) by (simp add: generate_secret_def Let_def)
  qed
qed

lemma rotation_atomic_witness:
  "\<exists>k. key_get 5 demo_db1 = Inr (Some k) \<and>
     key_get 9 (snd (rotate_api_key demo_hasher (demo_fresh 9 8 ''zzzzzzzzz'') 5 demo_db1)) =
       Inr (Some (new_key demo_hasher (demo_fresh 9 8 ''zzzzzzzzz'') (ak_organization_id k) (ak_name k)))"
proof -
  let ?fr = "demo_fresh 9 8 ''zzzzzzzzz''"
  let ?k = "revoked_copy demo_key sample_instant" and ?n = "new_key demo_hasher ?fr 1 None"
  have get: "key_get 5 demo_db1 = Inr (Some demo_key)" by code_simp
  have rev: "revoke_key demo_key sample_instant = Inr ?k"
    by (simp add: revoke_key_Inr [OF demo_key_ok] revoked_copy_def)
  have ok: "api_key_ok ?k" using api_key_ok_revoked [OF demo_key_ok, of sample_instant] by (simp add: revoked_copy_def)
  have new: "api_key_ok ?n"
    by (simp add: api_key_ok_def new_key_def demo_fresh_def generate_secret_def Let_def KEY_PUBLIC_PREFIX_def
        derive_lookup_prefix_def LOOKUP_PREFIX_LENGTH_def demo_hasher_def is_space_def)
  have save: "\<exists>d1. key_revoke_and_add ?k ?n demo_db1 = (Inr ?n, d1) \<and> db_audit d1 = db_audit demo_db1"
    by (simp add: key_revoke_and_add_def fk_api_key_def fk_organization_def key_insertable_def key_to_domain_row [OF new])
      (simp add: demo_db1_def demo_db_def empty_db_def)
  have name: "ak_name demo_key = None" by (simp add: demo_key_def)
  have ev: "audit_event_ok \<lparr>ae_id = 8, ae_action = ''api_key.rotated'', ae_occurred_at = sample_instant,
        ae_organization_id = Some 1, ae_actor_api_key_id = None, ae_request_id = None,
        ae_resource_type = ''api_key'', ae_resource_id = Some (uuid_str 9),
        ae_metadata = [(''previous_key_id'', uuid_str 5), (''prefix'', ak_prefix ?n)]\<rparr>"
    using uuid_str_not_blank [of 5] new
    by (auto simp: audit_event_ok_def metadata_clean_def FORBIDDEN_METADATA_KEYS_def lower_def lower_char_def is_space_def
        api_key_ok_def)
  from save obtain d1 where d1: "key_revoke_and_add ?k ?n demo_db1 = (Inr ?n, d1)" "db_audit d1 = db_audit demo_db1" by blast
  have fresh: "\<forall>e\<in>set (db_audit demo_db1). ae_id e \<noteq> fr_audit_id ?fr"
    by (simp add: demo_db1_def demo_audit_def)
  have aud: "\<exists>e d'. key_audit ?fr ''api_key.rotated'' 1 9 [(''previous_key_id'', uuid_str 5), (''prefix'', ak_prefix ?n)] d1 = (Inr e, d')"
    using key_audit_total [of ?fr "''api_key.rotated''" 1 9 "[(''previous_key_id'', uuid_str 5), (''prefix'', ak_prefix ?n)]" d1]
      ev fresh d1(2) by auto
  then obtain e d' where a: "key_audit ?fr ''api_key.rotated'' 1 9 [(''previous_key_id'', uuid_str 5), (''prefix'', ak_prefix ?n)] d1 = (Inr e, d')"
    by blast
  have "\<exists>cr. rotate_api_key demo_hasher ?fr 5 demo_db1 = (Inr cr, d')"
    using a by (simp add: rotate_api_key_def bind_a_def read_a_def lift_a_def ret_a_def get rev name validate_api_key_Inr [THEN iffD2, OF conjI [OF refl new]] d1)
  then obtain cr where rot: "rotate_api_key demo_hasher ?fr 5 demo_db1 = (Inr cr, d')" by blast
  from rotation_atomic [OF rot demo_db_ok(2) fresh] rot show ?thesis by auto
qed

end
