(* ===== verification/Http.thy ===== *)
theory Http
  imports ApiKeys Metrics
begin

text \<open>
  The HTTP edge: the error envelope and the handler of every exception (\<open>api/exception_handlers.py\<close>),
  bearer credentials, tenant authentication and operator authorization (\<open>api/dependencies.py\<close>), and the
  request correlation middleware (\<open>api/middleware/request_context.py\<close>). FastAPI and Starlette choose the
  handler by the class of the exception; the headers the framework adds itself are left out.
\<close>

section \<open>The error envelope\<close>

record api_response =
  ar_status :: int
  ar_headers :: "(string, string) dict"
  ar_body :: json

definition REQUEST_ID_HEADER :: string where
  "REQUEST_ID_HEADER = ''X-Request-ID''"

definition error_detail_json :: "error_code \<Rightarrow> string \<Rightarrow> string option \<Rightarrow> json" where
  "error_detail_json code message request_id =
     JObj [(''error'', JObj ([(''code'', JStr (error_code_value code)), (''message'', JStr message)] @
       (case request_id of None \<Rightarrow> [] | Some r \<Rightarrow> [(''request_id'', JStr r)])))]"

text \<open>The schema of the envelope refuses an empty message. Header names are stored in lower case.\<close>

definition error_response ::
    "int \<Rightarrow> error_code \<Rightarrow> string \<Rightarrow> string option \<Rightarrow> (string \<times> string) list \<Rightarrow> exn + api_response" where
  "error_response status code message request_id headers =
     (if message = [] then Inl (ValueError ''String should have at least 1 character'')
      else Inr \<lparr>ar_status = status,
        ar_headers = foldl (\<lambda>h (k, v). dict_set (lower k) v h)
          (case request_id of None \<Rightarrow> [] | Some r \<Rightarrow> [(lower REQUEST_ID_HEADER, r)]) headers,
        ar_body = error_detail_json code message request_id\<rparr>)"

definition format_validation_message :: "(string list \<times> string) list \<Rightarrow> string" where
  "format_validation_message errors = (case errors of
     [] \<Rightarrow> ''The request is invalid.''
   | (loc, msg) # _ \<Rightarrow>
      (let location = join ''.'' (filter (\<lambda>part. part \<noteq> ''body'') loc) in
       if location \<noteq> [] then ''Invalid value for '' @ [CHR 0x27] @ location @ [CHR 0x27] @ '': '' @ msg @ ''.''
       else ''Invalid request: '' @ msg @ ''.''))"

section \<open>Exception handlers\<close>

text \<open>What a handler makes of its exception: status, code, message and extra headers.\<close>

record handling =
  hd_status :: int
  hd_code :: error_code
  hd_message :: string
  hd_headers :: "(string \<times> string) list"

definition reply :: "int \<Rightarrow> error_code \<Rightarrow> string \<Rightarrow> handling" where
  "reply status code message = \<lparr>hd_status = status, hd_code = code, hd_message = message, hd_headers = []\<rparr>"

definition reply_retry :: "error_code \<Rightarrow> string \<Rightarrow> int \<Rightarrow> handling" where
  "reply_retry code message seconds =
     \<lparr>hd_status = 429, hd_code = code, hd_message = message, hd_headers = [(''Retry-After'', str_of_int seconds)]\<rparr>"

text \<open>One definition per handler; where the message is fixed by the class of the exception, it is written out.\<close>

definition api_error_handler :: "api_error \<Rightarrow> handling" where
  "api_error_handler err = (reply (ae_status err) (ae_code err) (ae_message err))\<lparr>hd_headers := ae_headers err\<rparr>"

definition validation_error_handler :: "(string list \<times> string) list \<Rightarrow> handling" where
  "validation_error_handler errors = reply 422 INVALID_REQUEST (format_validation_message errors)"

definition domain_validation_error_handler :: "string \<Rightarrow> handling" where
  "domain_validation_error_handler message = reply 422 INVALID_REQUEST message"

definition rate_limit_exceeded_handler :: "int \<Rightarrow> handling" where
  "rate_limit_exceeded_handler retry_after = reply_retry RATE_LIMITED ''Rate limit exceeded.'' retry_after"

definition quota_exceeded_handler :: "int \<Rightarrow> handling" where
  "quota_exceeded_handler retry_after = reply_retry QUOTA_EXCEEDED ''Monthly token quota exceeded.'' retry_after"

definition model_not_available_handler :: handling where
  "model_not_available_handler = reply 403 MODEL_NOT_AVAILABLE ''The requested model is not available for this organization.''"

definition unsupported_model_handler :: handling where
  "unsupported_model_handler = reply 400 UNSUPPORTED_MODEL ''The requested model is not supported.''"

definition idempotency_conflict_handler :: handling where
  "idempotency_conflict_handler = reply 409 CONFLICT ''A request with this Idempotency-Key is already in progress.''"

definition organization_not_found_handler :: handling where
  "organization_not_found_handler = reply 404 ORGANIZATION_NOT_FOUND ''Organization not found.''"

definition organization_slug_conflict_handler :: "string \<Rightarrow> handling" where
  "organization_slug_conflict_handler slug = reply 409 CONFLICT (''organization slug already exists: '' @ slug)"

definition api_key_not_found_handler :: handling where
  "api_key_not_found_handler = reply 404 API_KEY_NOT_FOUND ''API key not found.''"

definition api_key_already_revoked_handler :: "uuid \<Rightarrow> handling" where
  "api_key_already_revoked_handler i = reply 409 CONFLICT (''api key already revoked: '' @ uuid_str i)"

definition mcp_server_not_found_handler :: "string \<Rightarrow> handling" where
  "mcp_server_not_found_handler name = reply 404 MCP_SERVER_NOT_FOUND (''MCP server not found: '' @ name)"

definition mcp_server_name_conflict_handler :: "string \<Rightarrow> handling" where
  "mcp_server_name_conflict_handler name = reply 409 CONFLICT (''MCP server name already registered: '' @ name)"

definition mcp_error_handler :: "string \<Rightarrow> handling" where
  "mcp_error_handler message = reply 502 MCP_ERROR message"

definition prompt_not_found_handler :: handling where
  "prompt_not_found_handler = reply 404 PROMPT_NOT_FOUND ''The requested prompt was not found.''"

definition prompt_version_conflict_handler :: handling where
  "prompt_version_conflict_handler = reply 409 CONFLICT ''A prompt version was created concurrently; retry the request.''"

definition context_limit_exceeded_handler :: handling where
  "context_limit_exceeded_handler = reply 422 CONTEXT_LENGTH_EXCEEDED ''The request does not fit the model context window.''"

definition provider_not_registered_handler :: handling where
  "provider_not_registered_handler = reply 503 PROVIDER_ERROR ''The selected provider is not registered.''"

definition provider_error_handler :: "provider_error \<Rightarrow> handling" where
  "provider_error_handler err = reply 502 PROVIDER_ERROR (pe_message err)"

definition unhandled_error_handler :: handling where
  "unhandled_error_handler = reply 500 INTERNAL_ERROR ''An unexpected error occurred.''"

lemmas handler_defs =
  api_error_handler_def validation_error_handler_def domain_validation_error_handler_def rate_limit_exceeded_handler_def quota_exceeded_handler_def model_not_available_handler_def unsupported_model_handler_def
  idempotency_conflict_handler_def organization_not_found_handler_def organization_slug_conflict_handler_def api_key_not_found_handler_def api_key_already_revoked_handler_def
  mcp_server_not_found_handler_def mcp_server_name_conflict_handler_def mcp_error_handler_def prompt_not_found_handler_def prompt_version_conflict_handler_def
  context_limit_exceeded_handler_def provider_not_registered_handler_def provider_error_handler_def unhandled_error_handler_def reply_def reply_retry_def

text \<open>\<open>register_exception_handlers\<close>: the handler of the class of the exception.\<close>

fun handler :: "exn \<Rightarrow> handling" where
  "handler (APIError err) = api_error_handler err"
| "handler (RequestValidationError errors) = validation_error_handler errors"
| "handler (DomainValidationError message) = domain_validation_error_handler message"
| "handler (RateLimitExceededError retry_after) = rate_limit_exceeded_handler retry_after"
| "handler (QuotaExceededError retry_after) = quota_exceeded_handler retry_after"
| "handler (ModelNotAvailableError _) = model_not_available_handler"
| "handler (UnsupportedModelError _) = unsupported_model_handler"
| "handler IdempotencyConflictError = idempotency_conflict_handler"
| "handler (OrganizationNotFoundError _) = organization_not_found_handler"
| "handler (OrganizationSlugConflictError slug) = organization_slug_conflict_handler slug"
| "handler (ApiKeyNotFoundError _) = api_key_not_found_handler"
| "handler (ApiKeyAlreadyRevokedError i) = api_key_already_revoked_handler i"
| "handler (McpServerNotFoundError name) = mcp_server_not_found_handler name"
| "handler (McpServerNameConflictError name) = mcp_server_name_conflict_handler name"
| "handler (McpError message) = mcp_error_handler message"
| "handler (PromptNotFoundError _ _) = prompt_not_found_handler"
| "handler PromptVersionConflictError = prompt_version_conflict_handler"
| "handler ContextLimitExceededError = context_limit_exceeded_handler"
| "handler (ProviderNotRegisteredError _) = provider_not_registered_handler"
| "handler (ProviderErr err) = provider_error_handler err"
| "handler _ = unhandled_error_handler"

definition handle_exception :: "string option \<Rightarrow> exn \<Rightarrow> exn + api_response" where
  "handle_exception request_id err =
     (let h = handler err in error_response (hd_status h) (hd_code h) (hd_message h) request_id (hd_headers h))"

section \<open>Credentials\<close>

definition unauthorized :: "string \<Rightarrow> exn" where
  "unauthorized message = APIError \<lparr>ae_code = UNAUTHORIZED, ae_message = message, ae_status = 401, ae_headers = []\<rparr>"

definition forbidden :: "string \<Rightarrow> exn" where
  "forbidden message = APIError \<lparr>ae_code = FORBIDDEN, ae_message = message, ae_status = 403, ae_headers = []\<rparr>"

definition UNAUTHORIZED_MESSAGE :: string where
  "UNAUTHORIZED_MESSAGE = ''Invalid or missing API key.''"

definition FORBIDDEN_SUSPENDED_MESSAGE :: string where
  "FORBIDDEN_SUSPENDED_MESSAGE = ''Organization is suspended.''"

definition OPERATOR_UNAUTHORIZED_MESSAGE :: string where
  "OPERATOR_UNAUTHORIZED_MESSAGE = ''Invalid or missing operator credentials.''"

definition OPERATOR_FORBIDDEN_MESSAGE :: string where
  "OPERATOR_FORBIDDEN_MESSAGE = ''This endpoint is restricted to platform operators.''"

definition OPERATOR_NOT_CONFIGURED_MESSAGE :: string where
  "OPERATOR_NOT_CONFIGURED_MESSAGE = ''Operator API is not configured.''"

definition extract_bearer_credentials :: "string option \<Rightarrow> string \<Rightarrow> exn + string" where
  "extract_bearer_credentials authorization unauthorized_message = (case authorization of
     None \<Rightarrow> Inl (unauthorized unauthorized_message)
   | Some header \<Rightarrow>
      (if blank header then Inl (unauthorized unauthorized_message)
       else case partition_at (CHR '' '') header of (scheme, _, credentials) \<Rightarrow>
         if lower scheme \<noteq> ''bearer'' \<or> blank credentials then Inl (unauthorized unauthorized_message)
         else Inr (strip credentials)))"

definition extract_bearer_token :: "string option \<Rightarrow> exn + string" where
  "extract_bearer_token authorization = extract_bearer_credentials authorization UNAUTHORIZED_MESSAGE"

definition extract_operator_bearer_token :: "string option \<Rightarrow> exn + string" where
  "extract_operator_bearer_token authorization = extract_bearer_credentials authorization OPERATOR_UNAUTHORIZED_MESSAGE"

definition get_authenticated_principal ::
    "hasher \<Rightarrow> (api_key_row list \<Rightarrow> api_key_row list) \<Rightarrow> string option \<Rightarrow> db \<Rightarrow> exn + principal" where
  "get_authenticated_principal hs scan authorization d =
     bind_r (extract_bearer_token authorization) (\<lambda>secret.
     case authenticate hs scan secret d of
       Inl InvalidApiKeyCredentialsError \<Rightarrow> Inl (unauthorized UNAUTHORIZED_MESSAGE)
     | Inl (OrganizationSuspendedError _) \<Rightarrow> Inl (forbidden FORBIDDEN_SUSPENDED_MESSAGE)
     | res \<Rightarrow> res)"

text \<open>\<open>secrets.compare_digest\<close> on strings raises \<open>TypeError\<close> unless both are ASCII.\<close>

definition is_ascii :: "string \<Rightarrow> bool" where
  "is_ascii s = list_all (\<lambda>c. ord_of c < 128) s"

definition compare_digest :: "string \<Rightarrow> string \<Rightarrow> exn + bool" where
  "compare_digest a b = (if is_ascii a \<and> is_ascii b then Inr (a = b) else Inl PyTypeError)"

definition require_operator ::
    "hasher \<Rightarrow> (api_key_row list \<Rightarrow> api_key_row list) \<Rightarrow> string \<Rightarrow> string option \<Rightarrow> db \<Rightarrow> exn + unit" where
  "require_operator hs scan operator_token authorization d =
     (let configured_operator_token = strip operator_token in
      if configured_operator_token = [] then
        Inl (APIError \<lparr>ae_code = PROVIDER_ERROR, ae_message = OPERATOR_NOT_CONFIGURED_MESSAGE, ae_status = 503, ae_headers = []\<rparr>)
      else bind_r (extract_operator_bearer_token authorization) (\<lambda>secret.
        bind_r (compare_digest secret configured_operator_token) (\<lambda>same.
        if same then Inr ()
        else case authenticate hs scan secret d of
            Inl (OrganizationSuspendedError _) \<Rightarrow> Inl (forbidden OPERATOR_FORBIDDEN_MESSAGE)
          | Inl InvalidApiKeyCredentialsError \<Rightarrow> Inl (unauthorized OPERATOR_UNAUTHORIZED_MESSAGE)
          | Inl e \<Rightarrow> Inl e
          | Inr _ \<Rightarrow> Inl (forbidden OPERATOR_FORBIDDEN_MESSAGE))))"

section \<open>Request correlation\<close>

definition is_request_id_char :: "char \<Rightarrow> bool" where
  "is_request_id_char c = (let n = ord_of c in (65 \<le> n \<and> n \<le> 90) \<or> (97 \<le> n \<and> n \<le> 122) \<or> is_digit c \<or> c \<in> set ''._:-'')"

definition valid_client_request_id :: "string \<Rightarrow> bool" where
  "valid_client_request_id s = (1 \<le> length s \<and> length s \<le> 128 \<and> list_all is_request_id_char s)"

definition generate_request_id :: "uuid \<Rightarrow> string" where
  "generate_request_id i = ''req_'' @ uuid_str i"

definition resolve_request_id :: "string option \<Rightarrow> uuid \<Rightarrow> string" where
  "resolve_request_id header i = (case header of
     None \<Rightarrow> generate_request_id i
   | Some h \<Rightarrow> (let candidate = strip h in
       if candidate \<noteq> [] \<and> valid_client_request_id candidate then candidate else generate_request_id i))"

text \<open>The first header of that name, in any case.\<close>

definition header_value :: "(string \<times> string) list \<Rightarrow> string \<Rightarrow> string option" where
  "header_value headers name = map_option snd (find (\<lambda>h. lower (fst h) = name) headers)"

definition require_request_id :: "string option \<Rightarrow> exn + string" where
  "require_request_id request_id = (case request_id of
     Some r \<Rightarrow> if blank r then Inl (APIError \<lparr>ae_code = INTERNAL_ERROR, ae_message = ''Request correlation identifier is missing.'', ae_status = 500, ae_headers = []\<rparr>)
       else Inr r
   | None \<Rightarrow> Inl (APIError \<lparr>ae_code = INTERNAL_ERROR, ae_message = ''Request correlation identifier is missing.'', ae_status = 500, ae_headers = []\<rparr>))"

text \<open>
  What the application sends through the middleware, and the middleware's state: the status last
  started, the completion records of the log, and the metrics. \<open>duration\<close> is the measured time in
  milliseconds.
\<close>

datatype asgi_message =
    ResponseStart int "(string \<times> string) list"
  | ResponseBody string bool  \<comment> \<open>the chunk, and whether more follow\<close>

record request_context =
  rq_request_id :: string
  rq_method :: string
  rq_path :: string
  rq_duration_ms :: rat

record middleware_state =
  mw_status :: int
  mw_completed :: "int list"
  mw_metrics :: metrics

definition log_request_completed :: "request_context \<Rightarrow> middleware_state \<Rightarrow> middleware_state" where
  "log_request_completed ctx s =
     (if mw_completed s \<noteq> [] then s
      else s\<lparr>mw_completed := [mw_status s],
        mw_metrics := observe ''http_request_duration_seconds'' (float_of_rat (rq_duration_ms ctx / 1000))
            [(''method'', rq_method ctx), (''path'', rq_path ctx)]
          (increment ''http_requests_total''
            [(''method'', rq_method ctx), (''path'', rq_path ctx), (''status'', str_of_int (mw_status s))] (Fin 1) (mw_metrics s))\<rparr>)"

definition with_request_id :: "string \<Rightarrow> (string \<times> string) list \<Rightarrow> (string \<times> string) list" where
  "with_request_id request_id headers =
     (if list_ex (\<lambda>h. lower (fst h) = ''x-request-id'') headers then headers else headers @ [(''x-request-id'', request_id)])"

definition send_with_request_id :: "request_context \<Rightarrow> asgi_message \<Rightarrow> middleware_state \<Rightarrow> asgi_message \<times> middleware_state" where
  "send_with_request_id ctx m s = (case m of
     ResponseStart status headers \<Rightarrow> (ResponseStart status (with_request_id (rq_request_id ctx) headers), s\<lparr>mw_status := status\<rparr>)
   | ResponseBody chunk more_body \<Rightarrow> (m, if more_body then s else log_request_completed ctx s))"

fun send_all :: "request_context \<Rightarrow> asgi_message list \<Rightarrow> middleware_state \<Rightarrow> asgi_message list \<times> middleware_state" where
  "send_all ctx [] s = ([], s)"
| "send_all ctx (m # ms) s = (case send_with_request_id ctx m s of
     (m', s1) \<Rightarrow> (case send_all ctx ms s1 of (ms', s2) \<Rightarrow> (m' # ms', s2)))"

text \<open>An application run: the messages it sends, and the exception it ends with, if any.\<close>

definition request_context_middleware ::
    "request_context \<Rightarrow> asgi_message list \<times> exn option \<Rightarrow> metrics \<Rightarrow> (asgi_message list \<times> exn option) \<times> middleware_state" where
  "request_context_middleware ctx run m0 = (case run of (msgs, failure) \<Rightarrow>
     (case send_all ctx msgs \<lparr>mw_status = 500, mw_completed = [], mw_metrics = m0\<rparr> of
        (sent, s) \<Rightarrow> ((sent, failure), if failure = None then s else log_request_completed ctx s)))"

section \<open>The error envelope, read by a client\<close>

text \<open>The classes \<open>register_exception_handlers\<close> names; everything else is unexpected.\<close>

definition registered :: "exn \<Rightarrow> bool" where
  "registered e = (case e of
     APIError _ \<Rightarrow> True | RequestValidationError _ \<Rightarrow> True | DomainValidationError _ \<Rightarrow> True | RateLimitExceededError _ \<Rightarrow> True
   | QuotaExceededError _ \<Rightarrow> True | ModelNotAvailableError _ \<Rightarrow> True | UnsupportedModelError _ \<Rightarrow> True
   | OrganizationNotFoundError _ \<Rightarrow> True | OrganizationSlugConflictError _ \<Rightarrow> True | ApiKeyNotFoundError _ \<Rightarrow> True
   | ApiKeyAlreadyRevokedError _ \<Rightarrow> True | McpServerNotFoundError _ \<Rightarrow> True | McpServerNameConflictError _ \<Rightarrow> True
   | McpError _ \<Rightarrow> True | PromptNotFoundError _ _ \<Rightarrow> True | PromptVersionConflictError \<Rightarrow> True | ContextLimitExceededError \<Rightarrow> True
   | ProviderNotRegisteredError _ \<Rightarrow> True | IdempotencyConflictError \<Rightarrow> True | ProviderErr _ \<Rightarrow> True | _ \<Rightarrow> False)"

text \<open>The statuses under which a client meets each code when no route raised an \<open>APIError\<close> of its own.\<close>

fun statuses_of :: "error_code \<Rightarrow> int list" where
  "statuses_of INVALID_REQUEST = [422]"
| "statuses_of UNAUTHORIZED = []"
| "statuses_of FORBIDDEN = []"
| "statuses_of RATE_LIMITED = [429]"
| "statuses_of QUOTA_EXCEEDED = [429]"
| "statuses_of MODEL_NOT_AVAILABLE = [403]"
| "statuses_of UNSUPPORTED_MODEL = [400]"
| "statuses_of CONFLICT = [409]"
| "statuses_of PROMPT_NOT_FOUND = [404]"
| "statuses_of MCP_SERVER_NOT_FOUND = [404]"
| "statuses_of MCP_ERROR = [502]"
| "statuses_of ORGANIZATION_NOT_FOUND = [404]"
| "statuses_of API_KEY_NOT_FOUND = [404]"
| "statuses_of CONTEXT_LENGTH_EXCEEDED = [422]"
| "statuses_of PROVIDER_ERROR = [502, 503]"
| "statuses_of INTERNAL_ERROR = [500]"

lemma handler_status:
  assumes "\<And>err. e \<noteq> APIError err"
  shows "hd_status (handler e) \<in> set (statuses_of (hd_code (handler e)))"
  using assms by (cases e) (auto simp: handler_defs)

lemma handler_headers:
  assumes "\<And>err. e \<noteq> APIError err"
  shows "hd_headers (handler e) = (case e of RateLimitExceededError n \<Rightarrow> [(''Retry-After'', str_of_int n)]
    | QuotaExceededError n \<Rightarrow> [(''Retry-After'', str_of_int n)] | _ \<Rightarrow> [])"
  using assms by (cases e) (auto simp: handler_defs)

lemma handler_unregistered:
  "\<not> registered e \<Longrightarrow> handler e = unhandled_error_handler"
  by (cases e) (auto simp: registered_def)

lemma header_names: "lower REQUEST_ID_HEADER = ''x-request-id''" "lower ''Retry-After'' = ''retry-after''"
  by code_simp+

lemma error_response_Inr:
  assumes "error_response status code message rid headers = Inr r"
  shows "ar_status r = status \<and> ar_body r = error_detail_json code message rid \<and> message \<noteq> [] \<and>
    ar_headers r = foldl (\<lambda>h (k, v). dict_set (lower k) v h) (case rid of None \<Rightarrow> [] | Some i \<Rightarrow> [(lower REQUEST_ID_HEADER, i)]) headers"
  using assms by (auto simp: error_response_def split: if_splits)



section \<open>The operator gate\<close>

lemma takeWhile_until: "c \<notin> set a \<Longrightarrow> takeWhile (\<lambda>x. x \<noteq> c) (a @ c # r) = a"
  and dropWhile_until: "c \<notin> set a \<Longrightarrow> dropWhile (\<lambda>x. x \<noteq> c) (a @ c # r) = c # r"
  by (induction a) auto

lemma partition_at_append: "c \<notin> set a \<Longrightarrow> partition_at c (a @ c # r) = (a, [c], r)"
  by (simp add: partition_at_def Let_def takeWhile_until dropWhile_until)

lemma partition_at_absent: "c \<notin> set s \<Longrightarrow> partition_at c s = (s, [], [])"
proof -
  assume c: "c \<notin> set s"
  then have "takeWhile (\<lambda>x. x \<noteq> c) s = s" "dropWhile (\<lambda>x. x \<noteq> c) s = []"
    by (auto simp: takeWhile_eq_all_conv dropWhile_eq_Nil_conv)
  then show ?thesis unfolding partition_at_def Let_def by (simp only: list.case)
qed

lemma partition_at_split: "partition_at c s = (a, b, r) \<Longrightarrow> r \<noteq> [] \<Longrightarrow> s = a @ c # r \<and> c \<notin> set a"
proof -
  assume p: "partition_at c s = (a, b, r)" and r: "r \<noteq> []"
  then have "c \<in> set s" using partition_at_absent [of c s] by auto
  then obtain x y where "s = x @ c # y" "c \<notin> set x" by (meson split_list_first)
  with p show ?thesis by (simp add: partition_at_append)
qed

lemma extract_bearer_Inr:
  "extract_bearer_credentials auth msg = Inr s \<longleftrightarrow>
     (\<exists>scheme credentials. auth = Some (scheme @ CHR '' '' # credentials) \<and> CHR '' '' \<notin> set scheme \<and>
        lower scheme = ''bearer'' \<and> strip credentials = s \<and> s \<noteq> [])" (is "?L \<longleftrightarrow> ?R")
proof
  assume ?L
  then obtain h where h: "auth = Some h" "\<not> blank h" by (auto simp: extract_bearer_credentials_def split: option.splits if_splits)
  obtain a b r where p: "partition_at (CHR '' '') h = (a, b, r)" by (cases "partition_at (CHR '' '') h")
  with \<open>?L\<close> h have x: "lower a = ''bearer''" "\<not> blank r" "s = strip r"
    by (auto simp: extract_bearer_credentials_def split: if_splits)
  from x have "r \<noteq> []" by auto
  from partition_at_split [OF p this] x h show ?R by (auto simp: blank_def)
next
  assume ?R
  then obtain a r where a: "auth = Some (a @ CHR '' '' # r)" "CHR '' '' \<notin> set a" "lower a = ''bearer''" "strip r = s" "s \<noteq> []"
    by auto
  then have "\<not> blank r" by (simp add: blank_def)
  then show ?L using a by (simp add: extract_bearer_credentials_def partition_at_append)
qed

lemma require_operator_Inr:
  "require_operator hs scan operator_token authorization d = Inr () \<longleftrightarrow>
     strip operator_token \<noteq> [] \<and> extract_operator_bearer_token authorization = Inr (strip operator_token) \<and>
     is_ascii (strip operator_token)"
proof (cases "extract_operator_bearer_token authorization")
  case (Inl e)
  then show ?thesis by (simp add: require_operator_def Let_def)
next
  case (Inr secret)
  have "(case r of Inl (OrganizationSuspendedError _) \<Rightarrow> Inl (forbidden OPERATOR_FORBIDDEN_MESSAGE)
      | Inl InvalidApiKeyCredentialsError \<Rightarrow> Inl (unauthorized OPERATOR_UNAUTHORIZED_MESSAGE)
      | Inl e \<Rightarrow> Inl e | Inr _ \<Rightarrow> Inl (forbidden OPERATOR_FORBIDDEN_MESSAGE)) \<noteq> Inr ()" for r :: "exn + principal"
    by (auto split: sum.split exn.split)
  with Inr show ?thesis by (auto simp: require_operator_def Let_def compare_digest_def)
qed



section \<open>Every request is accounted for once\<close>

definition account :: "request_context \<Rightarrow> int \<Rightarrow> metrics \<Rightarrow> metrics" where
  "account ctx status m = observe ''http_request_duration_seconds'' (float_of_rat (rq_duration_ms ctx / 1000))
     [(''method'', rq_method ctx), (''path'', rq_path ctx)]
     (increment ''http_requests_total''
       [(''method'', rq_method ctx), (''path'', rq_path ctx), (''status'', str_of_int status)] (Fin 1) m)"

definition accounted :: "request_context \<Rightarrow> metrics \<Rightarrow> int \<Rightarrow> middleware_state \<Rightarrow> bool" where
  "accounted ctx m0 status s \<longleftrightarrow> mw_completed s = [status] \<and> mw_metrics s = account ctx status m0"

definition running :: "metrics \<Rightarrow> int \<Rightarrow> middleware_state \<Rightarrow> bool" where
  "running m0 status s \<longleftrightarrow> mw_completed s = [] \<and> mw_metrics s = m0 \<and> mw_status s = status"

lemma log_running: "running m0 status s \<Longrightarrow> accounted ctx m0 status (log_request_completed ctx s)"
  by (simp add: running_def accounted_def log_request_completed_def account_def)

lemma log_accounted: "accounted ctx m0 status s \<Longrightarrow> log_request_completed ctx s = s"
  by (simp add: accounted_def log_request_completed_def)

abbreviation body_messages :: "(string \<times> bool) list \<Rightarrow> asgi_message list" where
  "body_messages bodies \<equiv> map (\<lambda>(c, m). ResponseBody c m) bodies"

lemma send_bodies:
  "\<exists>s'. send_all ctx (body_messages bodies) s = (body_messages bodies, s') \<and>
     (accounted ctx m0 status s \<longrightarrow> accounted ctx m0 status s') \<and>
     (running m0 status s \<longrightarrow> (if \<exists>(c, m)\<in>set bodies. \<not> m then accounted ctx m0 status s' else running m0 status s'))"
proof (induction bodies arbitrary: s)
  case Nil
  then show ?case by simp
next
  case (Cons b bodies)
  obtain c m where b: "b = (c, m)" by (cases b)
  let ?s1 = "if m then s else log_request_completed ctx s"
  from Cons.IH [of ?s1] obtain s' where s': "send_all ctx (body_messages bodies) ?s1 = (body_messages bodies, s')"
    "accounted ctx m0 status ?s1 \<Longrightarrow> accounted ctx m0 status s'"
    "running m0 status ?s1 \<Longrightarrow> if \<exists>(c, m)\<in>set bodies. \<not> m then accounted ctx m0 status s' else running m0 status s'"
    by blast
  have "send_all ctx (body_messages (b # bodies)) s = (body_messages (b # bodies), s')"
    using s'(1) by (simp add: b send_with_request_id_def)
  moreover have "accounted ctx m0 status s'" if "accounted ctx m0 status s"
    using s'(2) that by (simp add: log_accounted split: if_splits)
  moreover have "if \<exists>(c, m)\<in>set (b # bodies). \<not> m then accounted ctx m0 status s' else running m0 status s'"
    if "running m0 status s"
    using s'(2,3) that log_running [OF that, of ctx] by (cases m) (simp_all add: b)
  ultimately show ?case by blast
qed

lemma counter_account:
  "counter (account ctx status m) n ls =
     (if n = ''http_requests_total'' \<and> freeze ls = freeze [(''method'', rq_method ctx), (''path'', rq_path ctx), (''status'', str_of_int status)]
      then float_add (counter m n ls) (Fin 1) else counter m n ls)"
  by (auto simp: account_def counter_increment) (simp add: counter_def)

text \<open>Every request is accounted for once. Whether the application completes its response, or raises before
  it has started one, or in the middle of it, the client gets the messages with the correlation identifier
  added to the start, one completion is recorded with the status that was started, 500 when none was, and
  the request counter of that method, path and status goes up by one while no other counter changes.\<close>

theorem request_accounted:
  fixes start :: "(int \<times> (string \<times> string) list) option"
  assumes "failure \<noteq> None \<or> (\<exists>(c, more_body)\<in>set bodies. \<not> more_body)"
  defines "status \<equiv> (case start of None \<Rightarrow> 500 | Some (st, headers) \<Rightarrow> st)"
  shows "\<exists>s. request_context_middleware ctx
      ((case start of None \<Rightarrow> [] | Some (st, headers) \<Rightarrow> [ResponseStart st headers]) @ body_messages bodies, failure) m0 =
      (((case start of None \<Rightarrow> [] | Some (st, headers) \<Rightarrow> [ResponseStart st (with_request_id (rq_request_id ctx) headers)]) @
        body_messages bodies, failure), s) \<and>
    mw_completed s = [status] \<and>
    (\<forall>n ls. counter (mw_metrics s) n ls =
       (if n = ''http_requests_total'' \<and>
           freeze ls = freeze [(''method'', rq_method ctx), (''path'', rq_path ctx), (''status'', str_of_int status)]
        then float_add (counter m0 n ls) (Fin 1) else counter m0 n ls))"
proof -
  let ?pre = "case start of None \<Rightarrow> [] | Some (st, headers) \<Rightarrow> [ResponseStart st headers]"
  let ?pre' = "case start of None \<Rightarrow> [] | Some (st, headers) \<Rightarrow> [ResponseStart st (with_request_id (rq_request_id ctx) headers)]"
  let ?s0 = "\<lparr>mw_status = 500, mw_completed = [], mw_metrics = m0\<rparr>"
  let ?s1 = "?s0\<lparr>mw_status := status\<rparr>"
  obtain s' where s': "send_all ctx (body_messages bodies) ?s1 = (body_messages bodies, s')"
    "running m0 status ?s1 \<Longrightarrow> if \<exists>(c, m)\<in>set bodies. \<not> m then accounted ctx m0 status s' else running m0 status s'"
    using send_bodies [of ctx bodies ?s1 m0 status] by blast
  have "running m0 status ?s1" by (simp add: running_def)
  note s'2 = s'(2) [OF this]
  have sent: "send_all ctx (?pre @ body_messages bodies) ?s0 = (?pre' @ body_messages bodies, s')"
    using s'(1) by (cases start) (auto simp: status_def send_with_request_id_def)
  let ?s = "if failure = None then s' else log_request_completed ctx s'"
  have run: "request_context_middleware ctx (?pre @ body_messages bodies, failure) m0 = ((?pre' @ body_messages bodies, failure), ?s)"
    by (simp add: request_context_middleware_def sent)
  have acc: "accounted ctx m0 status ?s"
    using s'2 assms(1) log_running [of m0 status s' ctx] log_accounted [of ctx m0 status s'] by (auto split: if_splits)
  then show ?thesis using run counter_account [of ctx status m0] by (intro exI [of _ ?s]) (simp add: accounted_def)
qed

lemma request_accounted_witness:
  "\<exists>s. request_context_middleware \<lparr>rq_request_id = ''req_1'', rq_method = ''POST'', rq_path = ''/v1/responses'', rq_duration_ms = 5\<rparr>
      ([ResponseStart 200 [], ResponseBody ''a'' True], Some IntegrityError) new_metrics =
      (([ResponseStart 200 [(''x-request-id'', ''req_1'')], ResponseBody ''a'' True], Some IntegrityError), s) \<and> mw_completed s = [200]"
  using request_accounted [of "Some IntegrityError" "[(''a'', True)]"
    "\<lparr>rq_request_id = ''req_1'', rq_method = ''POST'', rq_path = ''/v1/responses'', rq_duration_ms = 5\<rparr>" "Some (200, [])" new_metrics]
  by (auto simp: with_request_id_def)

section \<open>Correlation identifiers\<close>

lemma set_group_hex: "set (group_hex h) \<subseteq> insert (CHR ''-'') (set h)"
  by (auto simp: group_hex_def dest: in_set_takeD in_set_dropD)

lemma hex_digits_chars: "c \<in> set (hex_digits k n) \<Longrightarrow> \<exists>d<16. c = hex_char d"
proof (induction k arbitrary: n)
  case 0
  then show ?case by simp
next
  case (Suc k)
  then consider "c \<in> set (hex_digits k (n div 16))" | "c = hex_char (n mod 16)" by auto
  then show ?case
  proof cases
    case 1
    then show ?thesis by (rule Suc.IH)
  next
    case 2
    then show ?thesis by (intro exI [of _ "n mod 16"]) simp
  qed
qed

lemma hex_char_request_id: "d < 16 \<Longrightarrow> is_request_id_char (hex_char d)"
  by (simp add: is_request_id_char_def Let_def ord_of_hex_char is_digit_def)

lemma uuid_str_chars: "c \<in> set (uuid_str u) \<Longrightarrow> is_request_id_char c"
proof -
  assume "c \<in> set (uuid_str u)"
  then have "c = CHR ''-'' \<or> (\<exists>d<16. c = hex_char d)"
    using set_group_hex hex_digits_chars unfolding uuid_str_def by blast
  moreover have "is_request_id_char (CHR ''-'')" by code_simp
  ultimately show ?thesis using hex_char_request_id by blast
qed

text \<open>Correlation identifiers are safe to log and to send. Whatever the client sends, the identifier of the
  request has 1 to 128 characters of the safe alphabet, so no white space, line end or quote; a client
  identifier of that form is kept but for white space around it, and no two generated ones are alike.\<close>

theorem request_id_safe:
  "valid_client_request_id (resolve_request_id header i) \<and>
   (\<forall>h. header = Some h \<longrightarrow> valid_client_request_id (strip h) \<longrightarrow> resolve_request_id header i = strip h) \<and>
   (\<forall>j. resolve_request_id None i = resolve_request_id None j \<longrightarrow> i = j) \<and>
   (\<forall>c\<in>set (resolve_request_id header i). \<not> is_space c \<and> 32 < ord_of c \<and> ord_of c < 127 \<and> c \<noteq> CHR 0x22)"
proof -
  have "list_all is_request_id_char ''req_''" by code_simp
  then have gen: "valid_client_request_id (generate_request_id i)"
    using uuid_str_chars [of _ i] by (auto simp: valid_client_request_id_def generate_request_id_def list_all_iff)
  then have valid: "valid_client_request_id (resolve_request_id header i)"
    by (simp add: resolve_request_id_def Let_def split: option.splits)
  have chars: "\<not> is_space c \<and> 32 < ord_of c \<and> ord_of c < 127 \<and> c \<noteq> CHR 0x22" if "is_request_id_char c" for c
  proof -
    have "\<forall>c\<in>set ''._:-''. \<not> is_space c \<and> 32 < ord_of c \<and> ord_of c < 127 \<and> c \<noteq> CHR 0x22" by code_simp
    moreover have "\<not> is_space c \<and> 32 < ord_of c \<and> ord_of c < 127 \<and> c \<noteq> CHR 0x22"
      if "(65 \<le> ord_of c \<and> ord_of c \<le> 90) \<or> (97 \<le> ord_of c \<and> ord_of c \<le> 122) \<or> (48 \<le> ord_of c \<and> ord_of c \<le> 57)"
      using that by (auto simp: is_space_def Let_def)
    ultimately show ?thesis using that unfolding is_request_id_char_def Let_def is_digit_def by blast
  qed
  have "\<forall>c\<in>set (resolve_request_id header i). is_request_id_char c"
    using valid by (simp add: valid_client_request_id_def list_all_iff)
  with chars have "\<forall>c\<in>set (resolve_request_id header i). \<not> is_space c \<and> 32 < ord_of c \<and> ord_of c < 127 \<and> c \<noteq> CHR 0x22"
    by blast
  moreover have "resolve_request_id (Some h) i = strip h" if "valid_client_request_id (strip h)" for h
  proof -
    from that have "strip h \<noteq> []" by (auto simp: valid_client_request_id_def)
    with that show ?thesis by (simp add: resolve_request_id_def)
  qed
  moreover have "i = j" if "resolve_request_id None i = resolve_request_id None j" for j
    using that by (simp add: resolve_request_id_def generate_request_id_def)
  ultimately show ?thesis using valid by blast
qed

lemma request_id_safe_witness:
  "resolve_request_id (Some '' abc-1 '') 7 = ''abc-1'' \<and> valid_client_request_id (resolve_request_id (Some [CHR 0x0A]) 7)"
proof -
  have "strip '' abc-1 '' = ''abc-1''" "valid_client_request_id ''abc-1''" by code_simp+
  with request_id_safe [of "Some '' abc-1 ''" 7] request_id_safe [of "Some [CHR 0x0A]" 7] show ?thesis by simp
qed

end
