(* ===== verification/Mcp.thy ===== *)
theory Mcp
  imports CreateResponse Prompt Upstream
begin

text \<open>
  MCP tool servers: \<open>domain/mcp.py\<close>, the repository, the JSON-RPC client, and the use cases of
  \<open>application/mcp\<close>. The property says what tools a generation request gets: the inline ones and, under
  names of their own, those of the organization's servers.
\<close>

section \<open>URLs\<close>

text \<open>
  \<open>urlparse\<close> as far as scheme and authority. What \<open>urllib\<close> accepts between brackets differs between patch
  releases of Python 3.13, so \<open>bracketed_ok\<close> is a parameter; a host it rejects raises \<open>ValueError\<close>.
\<close>

definition is_scheme_char :: "char \<Rightarrow> bool" where
  "is_scheme_char c = (let n = ord_of c in (97 \<le> n \<and> n \<le> 122) \<or> (65 \<le> n \<and> n \<le> 90) \<or> is_digit c \<or> c \<in> set ''+-.'')"

definition is_ascii_letter :: "char \<Rightarrow> bool" where
  "is_ascii_letter c = (let n = ord_of c in (97 \<le> n \<and> n \<le> 122) \<or> (65 \<le> n \<and> n \<le> 90))"

definition split_scheme :: "string \<Rightarrow> string \<times> string" where
  "split_scheme url = (case partition_at (CHR '':'') url of (before, colon, after) \<Rightarrow>
     if colon \<noteq> [] \<and> before \<noteq> [] \<and> is_ascii_letter (hd before) \<and> list_all is_scheme_char before
     then (lower before, after) else ([], url))"

definition url_authority :: "(string \<Rightarrow> bool) \<Rightarrow> string \<Rightarrow> exn + string" where
  "url_authority bracketed_ok rest =
     (if startswith rest ''//'' then
        (let netloc = takeWhile (\<lambda>c. c \<notin> set ''/?#'') (drop 2 rest) in
         if (CHR ''['' \<in> set netloc) \<noteq> (CHR '']'' \<in> set netloc) then Inl (ValueError ''Invalid IPv6 URL'')
         else if CHR ''['' \<in> set netloc \<and> \<not> bracketed_ok netloc then Inl (ValueError ''Invalid IPv6 URL'')
         else Inr netloc)
      else Inr [])"

definition urlparse :: "(string \<Rightarrow> bool) \<Rightarrow> string \<Rightarrow> exn + (string \<times> string)" where
  "urlparse bracketed_ok url =
     (let url = filter (\<lambda>c. c \<notin> {CHR 0x09, CHR 0x0A, CHR 0x0D}) (dropWhile (\<lambda>c. ord_of c \<le> 32) url) in
      case split_scheme url of (scheme, rest) \<Rightarrow> map_r (\<lambda>netloc. (scheme, netloc)) (url_authority bracketed_ok rest))"

section \<open>Servers\<close>

definition validate_mcp_server_name :: "string \<Rightarrow> exn + unit" where
  "validate_mcp_server_name name = validate_prompt_name name"

definition validate_mcp_server_url :: "(string \<Rightarrow> bool) \<Rightarrow> string \<Rightarrow> exn + unit" where
  "validate_mcp_server_url bracketed_ok url =
     bind_r (reject_if (blank url) ''url must not be empty or blank'') (\<lambda>_.
     bind_r (urlparse bracketed_ok (strip url)) (\<lambda>(scheme, netloc).
     reject_if (scheme \<noteq> ''https'' \<or> netloc = []) ''url must use https with a valid host''))"

record mcp_server =
  ms_id :: uuid
  ms_organization_id :: uuid
  ms_name :: string
  ms_url :: string
  ms_headers :: "(string, string) dict"
  ms_created_at :: "datetime option"

definition mk_mcp_server :: "(string \<Rightarrow> bool) \<Rightarrow> mcp_server \<Rightarrow> exn + mcp_server" where
  "mk_mcp_server bracketed_ok s =
     bind_r (validate_mcp_server_name (ms_name s)) (\<lambda>_.
     bind_r (validate_mcp_server_url bracketed_ok (ms_url s)) (\<lambda>_. Inr s))"

record mcp_server_summary =
  mss_name :: string
  mss_created_at :: datetime

definition mk_mcp_server_summary :: "string \<Rightarrow> datetime \<Rightarrow> exn + mcp_server_summary" where
  "mk_mcp_server_summary name created_at =
     bind_r (validate_mcp_server_name name) (\<lambda>_. Inr \<lparr>mss_name = name, mss_created_at = created_at\<rparr>)"

definition namespaced_mcp_tool_name :: "string \<Rightarrow> string \<Rightarrow> exn + string" where
  "namespaced_mcp_tool_name server_name tool_name =
     bind_r (validate_mcp_server_name server_name) (\<lambda>_.
     bind_r (reject_if (blank tool_name) ''tool name must not be empty or blank'') (\<lambda>_.
     bind_r (reject_if (\<exists>c\<in>set tool_name. is_space c \<or> c = CHR ''/'') ''tool name must not contain whitespace or slashes'') (\<lambda>_.
     Inr (server_name @ ''.'' @ tool_name))))"

section \<open>Repository\<close>

definition mcp_to_domain :: "(string \<Rightarrow> bool) \<Rightarrow> mcp_server_row \<Rightarrow> exn + mcp_server" where
  "mcp_to_domain bracketed_ok row = mk_mcp_server bracketed_ok \<lparr>
     ms_id = mrow_id row, ms_organization_id = mrow_organization_id row, ms_name = mrow_name row,
     ms_url = mrow_url row, ms_headers = mrow_headers row, ms_created_at = Some (mrow_created_at row)\<rparr>"

definition mcp_row :: "mcp_server \<Rightarrow> datetime \<Rightarrow> mcp_server_row" where
  "mcp_row s created_at = \<lparr>mrow_id = ms_id s, mrow_organization_id = ms_organization_id s, mrow_name = ms_name s,
     mrow_url = ms_url s, mrow_headers = ms_headers s, mrow_created_at = created_at\<rparr>"

text \<open>Every integrity error of the insert is reported as a conflict of names.\<close>

definition mcp_add :: "(string \<Rightarrow> bool) \<Rightarrow> mcp_server \<Rightarrow> (db, exn, mcp_server) act" where
  "mcp_add bracketed_ok s d = (case ms_created_at s of
     None \<Rightarrow> (Inl (ValueError ''McpServer.created_at is required for persistence''), d)
   | Some created_at \<Rightarrow>
      (let row = mcp_row s created_at in
       if (\<exists>r\<in>set (db_mcp_servers d). mrow_id r = mrow_id row \<or>
            mrow_organization_id r = mrow_organization_id row \<and> mrow_name r = mrow_name row) \<or>
          \<not> fk_organization d (mrow_organization_id row)
       then (Inl (McpServerNameConflictError (ms_name s)), d)
       else (mcp_to_domain bracketed_ok row, d\<lparr>db_mcp_servers := db_mcp_servers d @ [row]\<rparr>)))"

definition mcp_get_by_name :: "(string \<Rightarrow> bool) \<Rightarrow> uuid \<Rightarrow> string \<Rightarrow> db \<Rightarrow> exn + mcp_server option" where
  "mcp_get_by_name bracketed_ok org name d =
     (case find (\<lambda>r. mrow_organization_id r = org \<and> mrow_name r = name) (db_mcp_servers d) of
        None \<Rightarrow> Inr None | Some row \<Rightarrow> map_r Some (mcp_to_domain bracketed_ok row))"

definition mcp_list_by_organization :: "(string \<Rightarrow> bool) \<Rightarrow> uuid \<Rightarrow> db \<Rightarrow> exn + mcp_server list" where
  "mcp_list_by_organization bracketed_ok org d = traverse (mcp_to_domain bracketed_ok)
     (sort_key mrow_name (filter (\<lambda>r. mrow_organization_id r = org) (db_mcp_servers d)))"

section \<open>The JSON-RPC client\<close>

text \<open>The truth value of a decoded JSON value.\<close>

fun json_truthy :: "json \<Rightarrow> bool" where
  "json_truthy JNull = False"
| "json_truthy (JBool b) = b"
| "json_truthy (JInt i) = (i \<noteq> 0)"
| "json_truthy (JFloat x) = (x \<noteq> Fin 0)"
| "json_truthy (JStr s) = (s \<noteq> [])"
| "json_truthy (JArr xs) = (xs \<noteq> [])"
| "json_truthy (JObj kvs) = (kvs \<noteq> [])"

definition map_tool :: "json \<Rightarrow> exn + tool_definition" where
  "map_tool item = (case item of
     JObj it \<Rightarrow>
       (case get_str it ''name'' of
          None \<Rightarrow> Inl (McpError ''MCP tool entry is missing a name.'')
        | Some name \<Rightarrow>
           bind_r (if get_none it ''description'' then Inr [] else
                   case get_str it ''description'' of Some t \<Rightarrow> Inr t
                   | None \<Rightarrow> Inl (McpError ''MCP tool description must be a string.'')) (\<lambda>description.
           bind_r (case (if get_none it ''inputSchema''
                         then (case dict_get it ''parameters'' of None \<Rightarrow> Some (JObj []) | Some p \<Rightarrow> Some p)
                         else dict_get it ''inputSchema'') of
                     Some (JObj p) \<Rightarrow> Inr (JObj p)
                   | _ \<Rightarrow> Inl (McpError ''MCP tool parameters must be a JSON object.'')) (\<lambda>parameters.
           mk_tool_definition name description parameters)))
   | _ \<Rightarrow> Inl (McpError ''MCP tool entry must be an object.''))"

text \<open>What is made of the reply; \<open>raise_for_status\<close> accepts the statuses 200 to 299.\<close>

definition tools_of_reply :: "http_reply \<Rightarrow> exn + tool_definition list" where
  "tools_of_reply reply =
     (if \<not> (200 \<le> hp_status reply \<and> hp_status reply \<le> 299) then Inl (McpError ''MCP server request failed.'')
      else case loads (hp_text reply) of
        None \<Rightarrow> Inl (McpError ''MCP server returned invalid JSON.'')
      | Some (JObj body) \<Rightarrow>
         (if (case dict_get body ''error'' of None \<Rightarrow> False | Some e \<Rightarrow> json_truthy e)
          then Inl (McpError ''MCP server returned an error response.'')
          else case get_obj body ''result'' of
            None \<Rightarrow> Inl (McpError ''MCP tools/list result is missing.'')
          | Some res \<Rightarrow> (case get_list res ''tools'' of
              None \<Rightarrow> Inl (McpError ''MCP tools/list did not return a tools array.'')
            | Some raw_tools \<Rightarrow> traverse map_tool raw_tools))
      | Some _ \<Rightarrow> Inl (McpError ''MCP server returned an invalid response envelope.''))"

definition mcp_request :: "mcp_server \<Rightarrow> uuid \<Rightarrow> http_request" where
  "mcp_request server i = \<lparr>
     hq_url = ms_url server, hq_params = [],
     hq_headers = foldl (\<lambda>h (k, v). dict_set k v h) [(''Content-Type'', ''application/json'')] (ms_headers server),
     hq_json = JObj [(''jsonrpc'', JStr ''2.0''), (''id'', JStr (uuid_str i)), (''method'', JStr ''tools/list''), (''params'', JObj [])]\<rparr>"

definition upstream_a :: "('u \<Rightarrow> (exn + 'a) \<times> 'u) \<Rightarrow> ('r, 'u, 'a) service" where
  "upstream_a m w = (case m (w_upstream w) of (res, u) \<Rightarrow> (res, w\<lparr>w_upstream := u\<rparr>))"

definition list_tools :: "'u http_client \<Rightarrow> mcp_server \<Rightarrow> ('r, 'u, tool_definition list) service" where
  "list_tools client server = bind_a uuid4_a (\<lambda>i. upstream_a (\<lambda>u. case hc_post client (mcp_request server i) u of
     (Inl _, u') \<Rightarrow> (Inl (McpError ''MCP server request failed.''), u')
   | (Inr reply, u') \<Rightarrow> (tools_of_reply reply, u')))"

section \<open>Use cases\<close>

definition register_mcp_server ::
    "(string \<Rightarrow> bool) \<Rightarrow> uuid \<Rightarrow> string \<Rightarrow> string \<Rightarrow> (string, string) dict option \<Rightarrow> ('r, 'u, mcp_server) service" where
  "register_mcp_server bracketed_ok org name url headers =
     bind_a (lift_a (validate_mcp_server_name name)) (\<lambda>_.
     bind_a (lift_a (validate_mcp_server_url bracketed_ok url)) (\<lambda>_.
     bind_a now_a (\<lambda>now. bind_a uuid4_a (\<lambda>i.
     bind_a (lift_a (mk_mcp_server bracketed_ok \<lparr>ms_id = i, ms_organization_id = org, ms_name = name, ms_url = strip url,
        ms_headers = (case headers of None \<Rightarrow> [] | Some h \<Rightarrow> h), ms_created_at = Some now\<rparr>)) (\<lambda>server.
     db_a (mcp_add bracketed_ok server))))))"

definition list_mcp_servers :: "(string \<Rightarrow> bool) \<Rightarrow> uuid \<Rightarrow> ('r, 'u, mcp_server_summary list) service" where
  "list_mcp_servers bracketed_ok org =
     bind_a (db_a (read_a (mcp_list_by_organization bracketed_ok org))) (\<lambda>servers.
     lift_a (traverse (\<lambda>(n, t). mk_mcp_server_summary n t)
       (List.map_filter (\<lambda>s. map_option (\<lambda>t. (ms_name s, t)) (ms_created_at s)) servers)))"

definition namespaced :: "string \<Rightarrow> tool_definition \<Rightarrow> exn + tool_definition" where
  "namespaced name tool =
     bind_r (namespaced_mcp_tool_name name (td_name tool)) (\<lambda>full.
     mk_tool_definition full (td_description tool) (td_parameters tool))"

definition list_mcp_server_tools ::
    "(string \<Rightarrow> bool) \<Rightarrow> 'u http_client \<Rightarrow> uuid \<Rightarrow> string \<Rightarrow> ('r, 'u, tool_definition list) service" where
  "list_mcp_server_tools bracketed_ok client org name =
     bind_a (lift_a (validate_mcp_server_name name)) (\<lambda>_.
     bind_a (db_a (read_a (mcp_get_by_name bracketed_ok org name))) (\<lambda>found. case found of
       None \<Rightarrow> raise_a (McpServerNotFoundError name)
     | Some server \<Rightarrow> bind_a (list_tools client server) (\<lambda>tools. lift_a (traverse (namespaced name) tools))))"

text \<open>The inner loop of \<open>ResolveToolsForGeneration\<close>: a name already seen is an error.\<close>

fun merge_tools :: "tool_definition list \<Rightarrow> string set \<Rightarrow> tool_definition list \<Rightarrow> exn + (tool_definition list \<times> string set)" where
  "merge_tools [] seen merged = Inr (merged, seen)"
| "merge_tools (tool # discovered) seen merged =
     (if td_name tool \<in> seen then Inl (DomainValidationError (''duplicate tool name: '' @ td_name tool))
      else merge_tools discovered (insert (td_name tool) seen) (merged @ [tool]))"

fun resolve_servers ::
    "(string \<Rightarrow> bool) \<Rightarrow> 'u http_client \<Rightarrow> uuid \<Rightarrow> string list \<Rightarrow> string set \<Rightarrow> tool_definition list \<Rightarrow>
     ('r, 'u, tool_definition list) service" where
  "resolve_servers bracketed_ok client org [] seen merged = ret_a merged"
| "resolve_servers bracketed_ok client org (raw_name # names) seen merged =
     bind_a (lift_a (validate_mcp_server_name raw_name)) (\<lambda>_.
     bind_a (list_mcp_server_tools bracketed_ok client org raw_name) (\<lambda>discovered.
     bind_a (lift_a (merge_tools discovered seen merged)) (\<lambda>(merged', seen').
     resolve_servers bracketed_ok client org names seen' merged')))"

definition resolve_tools_for_generation ::
    "(string \<Rightarrow> bool) \<Rightarrow> 'u http_client \<Rightarrow> uuid \<Rightarrow> tool_definition list \<Rightarrow> string list \<Rightarrow> ('r, 'u, tool_definition list) service" where
  "resolve_tools_for_generation bracketed_ok client org inline_tools server_names =
     resolve_servers bracketed_ok client org server_names (set (map td_name inline_tools)) inline_tools"

section \<open>What a request gets\<close>

lemma merge_tools_Inr:
  "merge_tools ts seen merged = Inr (m, seen') \<longleftrightarrow>
     m = merged @ ts \<and> seen' = seen \<union> td_name ` set ts \<and> distinct (map td_name ts) \<and> td_name ` set ts \<inter> seen = {}"
  by (induction ts seen merged rule: merge_tools.induct) auto

lemma namespaced_Inr:
  "namespaced name tool = Inr t \<Longrightarrow> td_name t = name @ ''.'' @ td_name tool \<and> \<not> blank (td_name tool) \<and>
    (\<forall>c\<in>set (td_name tool). \<not> is_space c \<and> c \<noteq> CHR ''/'') \<and> tool_definition_ok t"
  by (auto simp: namespaced_def namespaced_mcp_tool_name_def bind_r_eq_Inr mk_tool_definition_Inr)

text \<open>A tool of a registered server of the organization, under the server's name.\<close>

definition server_tool :: "uuid \<Rightarrow> db \<Rightarrow> string list \<Rightarrow> tool_definition \<Rightarrow> bool" where
  "server_tool org d names t \<longleftrightarrow> tool_definition_ok t \<and> (\<exists>row\<in>set (db_mcp_servers d). \<exists>tool_name.
     mrow_organization_id row = org \<and> mrow_name row \<in> set names \<and> td_name t = mrow_name row @ ''.'' @ tool_name \<and>
     \<not> blank tool_name \<and> (\<forall>c\<in>set tool_name. \<not> is_space c \<and> c \<noteq> CHR ''/''))"

lemma list_tools_db: "list_tools client server w = (res, w') \<Longrightarrow> w_db w' = w_db w"
  by (auto simp: list_tools_def bind_a_def uuid4_a_def upstream_a_def split: prod.splits sum.splits)

lemma mcp_get_by_name_row:
  "mcp_get_by_name ok org name d = Inr (Some server) \<Longrightarrow>
     \<exists>row\<in>set (db_mcp_servers d). mrow_organization_id row = org \<and> mrow_name row = name"
  by (auto simp: mcp_get_by_name_def dest!: find_SomeD split: option.splits)

lemma list_server_tools_Inr:
  assumes "list_mcp_server_tools ok client org name w = (Inr tools, w')"
  shows "w_db w' = w_db w \<and> (\<forall>t\<in>set tools. server_tool org (w_db w) [name] t)"
proof -
  obtain server w1 raw where g: "mcp_get_by_name ok org name (w_db w) = Inr (Some server)"
    and l: "list_tools client server w = (Inr raw, w1)" and t: "traverse (namespaced name) raw = Inr tools" "w' = w1"
    using assms
    by (auto simp: list_mcp_server_tools_def bind_a_eq_Inr db_a_def read_a_def split: option.splits prod.splits)
  obtain row where row: "row \<in> set (db_mcp_servers (w_db w))" "mrow_organization_id row = org" "mrow_name row = name"
    using mcp_get_by_name_row [OF g] by auto
  have "server_tool org (w_db w) [name] t" if "t \<in> set tools" for t
  proof -
    from traverse_mem [OF t(1) that] obtain tool where "namespaced name tool = Inr t" by auto
    from namespaced_Inr [OF this] row show ?thesis unfolding server_tool_def by auto
  qed
  with list_tools_db [OF l] t(2) show ?thesis by simp
qed

lemma server_tool_mono: "server_tool org d names t \<Longrightarrow> set names \<subseteq> set names' \<Longrightarrow> server_tool org d names' t"
proof -
  assume "server_tool org d names t" and sub: "set names \<subseteq> set names'"
  then obtain row n where "tool_definition_ok t" "row \<in> set (db_mcp_servers d)" "mrow_organization_id row = org"
    "mrow_name row \<in> set names" "td_name t = mrow_name row @ ''.'' @ n" "\<not> blank n" "\<forall>c\<in>set n. \<not> is_space c \<and> c \<noteq> CHR ''/''"
    by (auto simp: server_tool_def)
  with sub show ?thesis unfolding server_tool_def by (intro conjI bexI [of _ row] exI [of _ n]) auto
qed

lemma resolve_servers_Inr:
  "resolve_servers ok client org names seen merged w = (Inr tools, w') \<Longrightarrow> seen = td_name ` set merged \<Longrightarrow>
     \<exists>found. tools = merged @ found \<and> w_db w' = w_db w \<and> distinct (map td_name found) \<and>
       td_name ` set found \<inter> td_name ` set merged = {} \<and> (\<forall>t\<in>set found. server_tool org (w_db w) names t)"
proof (induction names arbitrary: seen merged w)
  case Nil
  then show ?case by auto
next
  case (Cons name names)
  then obtain discovered w1 m1 seen1 where d: "list_mcp_server_tools ok client org name w = (Inr discovered, w1)"
    and m: "merge_tools discovered seen merged = Inr (m1, seen1)"
    and rest: "resolve_servers ok client org names seen1 m1 w1 = (Inr tools, w')"
    by (auto simp: bind_a_eq_Inr)
  note here = list_server_tools_Inr [OF d]
  from m have m1: "m1 = merged @ discovered" "seen1 = seen \<union> td_name ` set discovered"
    "distinct (map td_name discovered)" "td_name ` set discovered \<inter> seen = {}" by (simp_all add: merge_tools_Inr)
  with Cons.prems(2) have "seen1 = td_name ` set m1" by auto
  from Cons.IH [OF rest this] obtain found where f: "tools = m1 @ found" "w_db w' = w_db w1" "distinct (map td_name found)"
    "td_name ` set found \<inter> td_name ` set m1 = {}" "\<forall>t\<in>set found. server_tool org (w_db w1) names t" by blast
  have "\<forall>t\<in>set (discovered @ found). server_tool org (w_db w) (name # names) t"
    using here f(5) by (auto intro: server_tool_mono)
  moreover have "distinct (map td_name (discovered @ found))" using m1 f(3,4) by auto
  moreover have "td_name ` set (discovered @ found) \<inter> td_name ` set merged = {}"
    using m1 f(4) Cons.prems(2) by auto
  ultimately show ?case using f(1,2) m1(1) here by (intro exI [of _ "discovered @ found"]) simp
qed


section \<open>A sample server\<close>

definition demo_mcp_world :: "(unit, unit) world" where
  "demo_mcp_world = \<lparr>w_db = empty_db\<lparr>db_mcp_servers := [\<lparr>mrow_id = 1, mrow_organization_id = 7, mrow_name = ''s'',
       mrow_url = ''https://h/'', mrow_headers = [], mrow_created_at = sample_instant\<rparr>]\<rparr>,
     w_redis = (), w_metrics = new_metrics, w_upstream = (), w_now = (\<lambda>_. sample_instant), w_seconds = (\<lambda>_. 0),
     w_uuid = (\<lambda>n. of_nat n), w_ticks = 0, w_uuids = 0\<rparr>"

definition demo_tools_reply :: http_reply where
  "demo_tools_reply = \<lparr>hp_status = 200, hp_text = dumps_compact (JObj [(''result'', JObj [(''tools'',
     JArr [JObj [(''name'', JStr ''t''), (''inputSchema'', JObj [])]])])])\<rparr>"

definition demo_mcp_client :: "unit http_client" where
  "demo_mcp_client = \<lparr>hc_post = (\<lambda>req u. (Inr demo_tools_reply, u)), hc_stream = (\<lambda>req u. (Inl (), u))\<rparr>"

lemma demo_tools: "tools_of_reply demo_tools_reply = Inr [\<lparr>td_name = ''t'', td_description = [], td_parameters = JObj []\<rparr>]"
proof -
  have "loads (hp_text demo_tools_reply) = Some (JObj [(''result'', JObj [(''tools'',
     JArr [JObj [(''name'', JStr ''t''), (''inputSchema'', JObj [])]])])])"
    unfolding demo_tools_reply_def by (simp add: loads_dumps del: dumps_with.simps)
  then show ?thesis
    by (simp add: tools_of_reply_def demo_tools_reply_def get_simps map_tool_def mk_tool_definition_def require_non_blank_def is_space_def
        del: dumps_with.simps)
qed

lemma demo_resolve_tools: "resolve_tools_for_generation (\<lambda>_. True) demo_mcp_client 7 [] [''s''] demo_mcp_world =
    (Inr [\<lparr>td_name = ''s.t'', td_description = [], td_parameters = JObj []\<rparr>], demo_mcp_world\<lparr>w_uuids := 1\<rparr>)"
proof -
  have name: "validate_prompt_name ''s'' = Inr ()" by code_simp
  have url: "validate_mcp_server_url (\<lambda>_. True) ''https://h/'' = Inr ()" by code_simp
  have ns: "namespaced ''s'' \<lparr>td_name = ''t'', td_description = [], td_parameters = JObj []\<rparr> =
      Inr \<lparr>td_name = ''s.t'', td_description = [], td_parameters = JObj []\<rparr>"
    by code_simp
  have "list_mcp_server_tools (\<lambda>_. True) demo_mcp_client 7 ''s'' demo_mcp_world =
      (Inr [\<lparr>td_name = ''s.t'', td_description = [], td_parameters = JObj []\<rparr>], demo_mcp_world\<lparr>w_uuids := 1\<rparr>)"
    by (simp add: list_mcp_server_tools_def bind_a_def lift_a_def validate_mcp_server_name_def name db_a_def read_a_def
        mcp_get_by_name_def demo_mcp_world_def mcp_to_domain_def mk_mcp_server_def url list_tools_def uuid4_a_def upstream_a_def
        demo_mcp_client_def demo_tools ns)
  then show ?thesis
    by (simp add: resolve_tools_for_generation_def bind_a_def lift_a_def validate_mcp_server_name_def name ret_a_def)
qed


end
