(* ===== verification/Guarantees.thy ===== *)
theory Guarantees
  imports CreateResponse ApiKeys
begin

text \<open>
  What \<open>CreateResponse\<close> guarantees end to end: what a request may write, when an idempotency lease is
  settled, and that a replay costs nothing. The Redis client is any client that satisfies the contract
  \<open>healthy_redis\<close>; the reference store of theory \<open>Redis\<close> shows the contract can be met.
\<close>

section \<open>Key spaces\<close>

context redis_client
begin

lemma idem_view_cache_set [simp]: "idem_view val (cache_set rc ttl org f p s) o' k = idem_view val s o' k"
  using set_val [of "cache_key org f" p False ttl s] by (auto simp: cache_set_def idem_view_def)

lemma val_cache_get: "cache_get rc org f s = (x, s') \<Longrightarrow> val s' = val s"
  using get_state [of "cache_key org f" s] by (auto simp: cache_get_def split: sum.splits prod.splits)

lemma val_rate_consume: "rate_consume rc rl now org s = (d, s') \<Longrightarrow> val s' = val s"
  using eval_answer [of "rate_key org" _ s] eval_error [of "rate_key org" _ s]
  by (auto simp: rate_consume_def split: sum.splits prod.splits)

lemma begin_keeps_cache: "idem_begin rc ttl org k s = (b, s') \<Longrightarrow> val s' (cache_key o' f) = val s (cache_key o' f)"
  using begin_val [of ttl org k s] set_val [of "idem_key org k" STATUS_IN_PROGRESS True ttl s] by auto

lemma idem_view_cong: "val s = val s' \<Longrightarrow> idem_view val s = idem_view val s'"
  by (simp add: idem_view_def fun_eq_iff)

end

context healthy_redis
begin

lemma cache_get_exact: "cache_get rc org f s = (x, s') \<Longrightarrow> x = cache_view val s org f"
  using get_ok [of "cache_key org f" s] get_answer [of "cache_key org f" s]
  by (auto simp: cache_get_def cache_view_def split: sum.splits prod.splits)

lemma after_generation_view:
  assumes "sv_redis sv = rc" "cc_idempotency_key cmd = Some k"
  shows "idem_view val (after_generation sv cmd True r s) (cc_organization_id cmd) k = Done (serialize_response r)"
  using assms exact.complete_stores by (simp add: after_generation_def Let_def)

lemma guarded_lease:
  assumes "generate_guarded sv cmd True w = (res, w')" and "sv_redis sv = rc" "cc_idempotency_key cmd = Some k"
    and "idem_view val (w_redis w) (cc_organization_id cmd) k = Busy"
  shows "(case res of Inr r \<Rightarrow> idem_view val (w_redis w') (cc_organization_id cmd) k = Done (serialize_response r)
    | Inl e \<Rightarrow> idem_view val (w_redis w') (cc_organization_id cmd) k = Free \<and> w_db w' = w_db w \<or>
        (\<exists>r us. idem_view val (w_redis w') (cc_organization_id cmd) k = Done (serialize_response r) \<and>
           billed cmd r us \<and> w_db w' = with_usage us (w_db w)))"
proof -
  note view = after_generation_view [OF assms(2,3)]
  from guarded_effect [OF assms(1)] show ?thesis
  proof (elim disjE exE conjE)
    fix r us es assume "res = Inr r" "w_redis w' = after_generation sv cmd True r (w_redis w)"
    then show ?thesis using view by simp
  next
    fix e red assume r: "res = Inl e" "w_redis w' = (case cc_idempotency_key cmd of
        Some k \<Rightarrow> if True then idem_release (sv_redis sv) (cc_organization_id cmd) k red else red | None \<Rightarrow> red)"
    { assume "red = w_redis w" "w_db w' = w_db w"
      then show ?thesis using r assms(2-4) exact.release_frees by simp }
    { fix q us assume "red = after_generation sv cmd True q (w_redis w)" "billed cmd q us" "w_db w' = with_usage us (w_db w)"
      then show ?thesis using r assms(2,3) idem.done_kept(2) [OF view] by auto }
  qed
qed

lemma answer_lease:
  assumes "answer sv cmd True w = (res, w')" "\<not> gr_cache (cc_request cmd)" and "sv_redis sv = rc"
    "cc_idempotency_key cmd = Some k" and "idem_view val (w_redis w) (cc_organization_id cmd) k = Busy"
  shows "(case res of Inr r \<Rightarrow> idem_view val (w_redis w') (cc_organization_id cmd) k = Done (serialize_response r)
    | Inl e \<Rightarrow> idem_view val (w_redis w') (cc_organization_id cmd) k = Free \<and> w_db w' = w_db w \<or>
        (\<exists>r us. idem_view val (w_redis w') (cc_organization_id cmd) k = Done (serialize_response r) \<and>
           billed cmd r us \<and> w_db w' = with_usage us (w_db w)))"
proof -
  have "generate_guarded sv cmd True w = (res, w')"
    using assms(1,2) by (simp add: answer_def cache_lookup_a_def bind_a_def ret_a_def)
  from guarded_lease [OF this assms(3-5)] show ?thesis .
qed

lemma begin_view:
  assumes "rate_consume rc rl now org s = (d, red)" and "idem_begin rc ttl org k red = (b, red2)"
  shows "b = (case idem_view val s org k of Free \<Rightarrow> IdempotencyMiss | Busy \<Rightarrow> IdempotencyInProgress
      | Done p \<Rightarrow> IdempotencyCompleted p | Unknown \<Rightarrow> IdempotencyInProgress)"
    and "idem_view val s org k = Free \<Longrightarrow> idem_view val red2 org k = Busy"
proof -
  have v: "idem_view val red = idem_view val s" using val_rate_consume [OF assms(1)] by (rule idem_view_cong)
  show "b = (case idem_view val s org k of Free \<Rightarrow> IdempotencyMiss | Busy \<Rightarrow> IdempotencyInProgress
      | Done p \<Rightarrow> IdempotencyCompleted p | Unknown \<Rightarrow> IdempotencyInProgress)"
    using exact.begin_exact [of ttl org k red] assms(2) v by simp
  show "idem_view val s org k = Free \<Longrightarrow> idem_view val red2 org k = Busy"
    using exact.begin_claims [of red org k ttl] assms(2) v by simp
qed

lemma settled:
  assumes "sv_redis sv = rc" and "cc_idempotency_key cmd = Some k"
    and "\<not> gr_cache (cc_request cmd)" and "idem_view val (w_redis w) (cc_organization_id cmd) k = Free"
    and "create_response_execute sv cmd w = (res, w')"
  shows "case res of
      Inr r \<Rightarrow> idem_view val (w_redis w') (cc_organization_id cmd) k = Done (serialize_response r)
    | Inl e \<Rightarrow> idem_view val (w_redis w') (cc_organization_id cmd) k = Free \<and> w_db w' = w_db w \<or>
        (\<exists>r us. idem_view val (w_redis w') (cc_organization_id cmd) k = Done (serialize_response r) \<and>
           billed cmd r us \<and> w_db w' = with_usage us (w_db w))"
  using assms(5)
proof (cases rule: execute_cases)
  case (limited d red)
  with val_rate_consume assms(1,4) show ?thesis by (simp add: idem_view_def)
next
  case (miss d red j red2)
  with assms begin_view(2) [OF miss(1) [unfolded assms(1)] miss(4) [unfolded assms(1)]] have "idem_view val red2 (cc_organization_id cmd) k = Busy" by auto
  with answer_lease [OF miss(5) assms(3,1,2)] show ?thesis by (cases res) simp_all
next
  case (busy d red j red2)
  with begin_view(1) [OF busy(1) [unfolded assms(1)] busy(4) [unfolded assms(1)]] assms(1,2,4) show ?thesis by auto
next
  case (replay d red j p red2)
  with begin_view(1) [OF replay(1) [unfolded assms(1)] replay(4) [unfolded assms(1)]] assms(1,2,4) show ?thesis by auto
qed (use assms(2) in simp)

lemma replayed:
  assumes "sv_redis sv = rc" and "cc_idempotency_key cmd = Some k"
    and "idem_view val (w_redis w) (cc_organization_id cmd) k = Done p"
    and "create_response_execute sv cmd w = (res, w')"
    and "rate_consume (sv_redis sv) (sv_limiter sv) (w_seconds w (w_ticks w)) (cc_organization_id cmd) (w_redis w) = (d0, red0)"
    and "rd_allowed d0"
  shows "w_upstream w' = w_upstream w \<and> db_usage (w_db w') = db_usage (w_db w) \<and>
    (\<forall>r. res = Inr r \<longrightarrow> deserialize_response p = Inr r)"
  using assms(4)
proof (cases rule: execute_cases)
  case (miss d red j red2)
  with begin_view(1) [OF miss(1) [unfolded assms(1)] miss(4) [unfolded assms(1)]] assms(1,2,3) show ?thesis by auto
next
  case (busy d red j red2)
  with begin_view(1) [OF busy(1) [unfolded assms(1)] busy(4) [unfolded assms(1)]] assms(1,2,3) show ?thesis by auto
next
  case (replay d red j q red2)
  with begin_view(1) [OF replay(1) [unfolded assms(1)] replay(4) [unfolded assms(1)]] assms(1,2,3) have "q = p" by auto
  with replay_effect [OF replay(5)] show ?thesis by (cases res) (auto simp: with_audit_def)
qed (use assms in \<open>simp_all add: rate_limited_def\<close>)

end

section \<open>Streams\<close>

definition completed :: "stream_event list \<Rightarrow> generation_response list" where
  "completed evs = List.map_filter (\<lambda>ev. case ev of Completed r \<Rightarrow> Some r | Delta _ \<Rightarrow> None) evs"

lemma completed_simps [simp]: "completed [] = []" "completed (Delta d # evs) = completed evs"
    "completed (Completed r # evs) = r # completed evs"
  by (simp_all add: completed_def map_filter_simps)

text \<open>The rows \<open>us\<close> bill the responses one by one; \<open>extra\<close> is a row whose response was not delivered.\<close>

definition billed_each :: "create_command \<Rightarrow> generation_response list \<Rightarrow> usage_record list \<Rightarrow> bool" where
  "billed_each cmd rs us \<longleftrightarrow> list_all2 (\<lambda>r u. billed cmd r [u]) rs us"

lemma with_usage_db [simp]: "db_usage (with_usage us d) = db_usage d @ us" "db_usage (with_audit es d) = db_usage d"
  by (simp_all add: with_usage_def with_audit_def)

lemma billed_single: "billed cmd r us \<Longrightarrow> \<exists>u. us = [u]"
  by (auto simp: billed_def)

definition billing :: "create_command \<Rightarrow> stream_event list \<Rightarrow> exn option \<Rightarrow> db \<Rightarrow> db \<Rightarrow> bool" where
  "billing cmd evs eo d d' \<longleftrightarrow> (\<exists>us extra. db_usage d' = db_usage d @ us @ extra \<and>
     billed_each cmd (completed evs) us \<and> length extra \<le> 1 \<and> (eo = None \<longrightarrow> extra = []))"

lemma billing_Cons:
  assumes "billing cmd evs eo d2 d'" and "billed cmd r [row]" and "db_usage d2 = db_usage d @ [row]"
  shows "billing cmd (Completed r # evs) eo d d'"
proof -
  from assms(1) obtain us extra where "db_usage d' = db_usage d2 @ us @ extra" "billed_each cmd (completed evs) us"
      "length extra \<le> 1" "eo = None \<longrightarrow> extra = []" unfolding billing_def by blast
  with assms(2,3) show ?thesis
    unfolding billing_def by (intro exI [of _ "row # us"] exI [of _ extra]) (simp add: billed_each_def)
qed

lemma billing_stop: "db_usage d' = db_usage d @ extra \<Longrightarrow> length extra \<le> 1 \<Longrightarrow> billing cmd [] (Some e) d d'"
  unfolding billing_def by (intro exI [of _ "[]"] exI [of _ extra]) (simp add: billed_each_def)

lemma billing_weaken: "billing cmd evs None d d' \<Longrightarrow> billing cmd evs eo d d'"
  unfolding billing_def by blast

lemma deliver_billing:
  assumes "deliver cmd items w = ((evs, eo), w')"
  shows "evs = take (length evs) (map se_payload items) \<and> (eo = None \<longrightarrow> evs = map se_payload items) \<and>
    w_redis w' = w_redis w \<and> w_upstream w' = w_upstream w \<and> billing cmd evs eo (w_db w) (w_db w')"
  using assms
proof (induction items arbitrary: evs w)
  case Nil
  then show ?case by (simp add: billing_def billed_each_def)
next
  case (Cons item items)
  show ?case
  proof (cases "se_payload item")
    case (Delta d)
    with Cons.prems obtain evs' where "deliver cmd items w = ((evs', eo), w')" "evs = Delta d # evs'"
      by (auto split: prod.splits)
    with Cons.IH [of w evs'] Delta show ?thesis by (auto simp: billing_def)
  next
    case (Completed r)
    obtain a w1 where u: "record_usage cmd (se_provider_name item) r w = (a, w1)"
      by (cases "record_usage cmd (se_provider_name item) r w")
    note ue = usage_effect [OF u]
    show ?thesis
    proof (cases a)
      case (Inl e)
      with Cons.prems Completed u have "evs = []" "eo = Some e" "w' = w1" by (auto simp: bind_a_def)
      with ue Inl show ?thesis by (simp add: billing_stop [of _ _ "[]"])
    next
      case (Inr x)
      obtain us where us: "billed cmd r us" "w_db w1 = with_usage us (w_db w)" using usage_billed u Inr by blast
      then obtain row where row: "us = [row]" using billed_single by blast
      obtain b w2 where s: "record_generation_success cmd r ''provider'' (se_provider_name item) True w1 = (b, w2)"
        by (cases "record_generation_success cmd r ''provider'' (se_provider_name item) True w1")
      note se = success_effect [OF s]
      show ?thesis
      proof (cases b)
        case (Inl e)
        with Cons.prems Completed u Inr s have "evs = []" "eo = Some e" "w' = w2" by (auto simp: bind_a_def)
        with se ue us row Inl show ?thesis by (simp add: billing_stop [of _ _ us])
      next
        case (Inr y)
        have usage2: "db_usage (w_db w2) = db_usage (w_db w) @ [row]"
          using success_audited s Inr us row by fastforce
        obtain evs' where d: "deliver cmd items w2 = ((evs', eo), w')" "evs = Completed r # evs'"
          using Cons.prems Completed u \<open>a = Inr x\<close> s Inr by (auto simp: bind_a_def split: prod.splits)
        from billing_Cons [of cmd evs' eo "w_db w2" "w_db w'" r row "w_db w"] Cons.IH [OF d(1)] us(1) row usage2
        show ?thesis using d(2) Completed se ue by simp
      qed
    qed
  qed
qed

lemma stream_cases:
  assumes "create_response_stream sv cmd w = ((evs, eo), w')" and "cc_idempotency_key cmd = None"
  obtains (limited) d red where
      "rate_consume (sv_redis sv) (sv_limiter sv) (w_seconds w (w_ticks w)) (cc_organization_id cmd) (w_redis w) = (d, red)"
      "\<not> rd_allowed d" "evs = []" "eo = Some (rate_limited d)" "w' = w\<lparr>w_ticks := Suc (w_ticks w), w_redis := red\<rparr>"
    | (served) d red items eo1 w2 eo2 where
      "rate_consume (sv_redis sv) (sv_limiter sv) (w_seconds w (w_ticks w)) (cc_organization_id cmd) (w_redis w) = (d, red)"
      "rd_allowed d"
      "stream (lift_executor (sv_executor sv)) (gr_model (cc_request cmd)) (cc_request cmd) (Some (before_route cmd))
         (w\<lparr>w_ticks := Suc (w_ticks w), w_redis := red\<rparr>) = ((items, eo1), w2)"
      "deliver cmd items w2 = ((evs, eo2), w')" "eo = (case eo2 of Some e \<Rightarrow> Some e | None \<Rightarrow> eo1)"
proof -
  obtain a w1 where c: "consume_a sv cmd w = (a, w1)" by (cases "consume_a sv cmd w")
  from consume_effect [OF c] obtain d red where d:
    "rate_consume (sv_redis sv) (sv_limiter sv) (w_seconds w (w_ticks w)) (cc_organization_id cmd) (w_redis w) = (d, red)"
    "a = Inr d" "w1 = w\<lparr>w_ticks := Suc (w_ticks w), w_redis := red\<rparr>" by blast
  show thesis
  proof (cases "rd_allowed d")
    case False
    with assms c d show thesis by (intro limited [OF d(1) False]) (auto simp: create_response_stream_def)
  next
    case True
    obtain items eo1 w2 where s: "stream (lift_executor (sv_executor sv)) (gr_model (cc_request cmd)) (cc_request cmd)
        (Some (before_route cmd)) w1 = ((items, eo1), w2)" by (metis surj_pair)
    obtain evs2 eo2 w3 where dl: "deliver cmd items w2 = ((evs2, eo2), w3)" by (metis surj_pair)
    have "evs = evs2 \<and> w' = w3 \<and> eo = (case eo2 of Some e \<Rightarrow> Some e | None \<Rightarrow> eo1)"
      using assms c d(2) True s dl by (auto simp: create_response_stream_def split: option.splits)
    with d True s dl show thesis by (intro served [OF d(1) True]) auto
  qed
qed

section \<open>A sample deployment\<close>

definition demo_service :: "(map_redis_state, demo_state) create_response" where
  "demo_service = \<lparr>sv_executor = demo_executor 0, sv_redis = map_redis, sv_limiter = mk_rate_limiter 60 10,
     sv_idem_ttl = 60, sv_cache_ttl = 60\<rparr>"

definition demo_world :: "nat \<Rightarrow> (map_redis_state, demo_state) world" where
  "demo_world failures = \<lparr>w_db = demo_db1, w_redis = \<lparr>ms_strings = [], ms_hashes = []\<rparr>, w_metrics = new_metrics,
     w_upstream = demo_state0 failures, w_now = (\<lambda>_. sample_instant), w_seconds = (\<lambda>_. 0),
     w_uuid = (\<lambda>n. of_nat (100 + n)), w_ticks = 0, w_uuids = 0\<rparr>"

definition demo_command :: "string option \<Rightarrow> bool \<Rightarrow> create_command" where
  "demo_command key cache = \<lparr>cc_request = (sample_request ''m'')\<lparr>gr_cache := cache\<rparr>, cc_request_id = ''req_1'',
     cc_organization_id = 1, cc_api_key_id = 5, cc_idempotency_key = key\<rparr>"

lemma demo_world_sel [simp]:
  "sv_redis demo_service = map_redis" "sv_idem_ttl demo_service = 60" "sv_executor demo_service = demo_executor 0"
  "sv_cache_ttl demo_service = 60"
  "cc_organization_id (demo_command key c) = 1" "cc_idempotency_key (demo_command key c) = key"
  "cc_request_id (demo_command key c) = ''req_1''" "cc_api_key_id (demo_command key c) = 5"
  "gr_model (cc_request (demo_command key c)) = ''m''" "gr_cache (cc_request (demo_command key c)) = c"
  "gr_max_output_tokens (cc_request (demo_command key c)) = None"
  "w_redis (demo_world n) = \<lparr>ms_strings = [], ms_hashes = []\<rparr>"
  by (simp_all add: demo_service_def demo_command_def demo_world_def sample_request_def)

lemma demo_healthy: "healthy_redis (sv_redis demo_service) ms_val ms_bkt"
  using reference.healthy_redis_axioms by simp

lemma demo_free: "idem_view ms_val (w_redis (demo_world n)) org k = Free"
  by (simp add: idem_view_def ms_val_def dict_get_def)

definition demo_redis :: "map_redis_state" where
  "demo_redis = \<lparr>ms_strings = [], ms_hashes = [(rate_key 1, (9, 0))]\<rparr>"

definition demo_redis2 :: "map_redis_state" where
  "demo_redis2 = \<lparr>ms_strings = [(idem_key 1 ''k'', STATUS_IN_PROGRESS)], ms_hashes = [(rate_key 1, (9, 0))]\<rparr>"

lemma demo_consume: "consume_a demo_service (demo_command key c) (demo_world n) =
    (Inr \<lparr>rd_allowed = True, rd_retry_after_seconds = None\<rparr>, (demo_world n)\<lparr>w_ticks := 1, w_redis := demo_redis\<rparr>)"
  by (simp add: consume_a_def seconds_a_def redis_a_def bind_a_def rate_consume_def map_redis_def demo_redis_def)
    (simp add: demo_world_def demo_service_def mk_rate_limiter_def token_bucket_def dict_get_def)

lemma demo_begin: "begin_a demo_service (demo_command (Some ''k'') c) ((demo_world n)\<lparr>w_ticks := 1, w_redis := demo_redis\<rparr>) =
    (Inr (Some IdempotencyMiss), (demo_world n)\<lparr>w_ticks := 1, w_redis := demo_redis2\<rparr>)"
  by (simp add: begin_a_def redis_a_def bind_a_def ret_a_def idem_begin_def map_redis_def demo_redis_def demo_redis2_def
      dict_get_def Let_def)

lemma demo_enforce: "enforce_policy 1 m None now demo_db1 = Inr ()"
  by (simp add: enforce_policy_def policy_list_entitlements_def policy_get_def demo_db1_def demo_db_def empty_db_def
      is_model_allowed_def mk_organization_policy_def)

lemma demo_route: "resolve_model_route ''m'' [(''m'', ''p''), (''n'', ''q'')] = Inr \<lparr>mr_model = ''m'', mr_provider = ''p''\<rparr>"
  by code_simp

lemma demo_resolve: "router_resolve (px_router (lift_executor (demo_executor k))) ''m'' =
    Inr (\<lparr>mr_model = ''m'', mr_provider = ''p''\<rparr>, lift_provider (demo_provider ''m''))"
  by (simp add: router_resolve_def lift_executor_def demo_executor_def demo_route dict_get_def)

lemma routes_for_lifted: "routes_for (lift_executor x) m = routes_for x m"
  by (simp add: routes_for_def lift_executor_def Let_def)

lemma demo_lift_routes: "routes_for (lift_executor (demo_executor k)) ''m'' =
    Inr [\<lparr>mr_model = ''m'', mr_provider = ''p''\<rparr>, \<lparr>mr_model = ''n'', mr_provider = ''q''\<rparr>]"
  using demo_routes [of k] by (simp add: routes_for_lifted)

lemma demo_execute:
  assumes "w_db w = demo_db1" and "w_upstream w = demo_state0 0"
  shows "execute (lift_executor (demo_executor 0)) ''m'' (cc_request (demo_command key c)) (Some (before_route (demo_command key c))) w =
    (Inr \<lparr>er_response = sample_response ''m'', er_route = \<lparr>mr_model = ''m'', mr_provider = ''p''\<rparr>\<rparr>,
     w\<lparr>w_ticks := Suc (w_ticks w), w_upstream := (demo_state0 0)\<lparr>ds_calls := 1\<rparr>\<rparr>)"
proof -
  have hook: "run_hook (Some (before_route (demo_command key c))) \<lparr>mr_model = ''m'', mr_provider = ''p''\<rparr> w =
      (Inr (), w\<lparr>w_ticks := Suc (w_ticks w)\<rparr>)"
    using assms(1) by (simp add: run_hook_def before_route_def enforce_a_def now_a_def db_a_def bind_a_def read_a_def ret_a_def demo_enforce)
  have "mp_generate (lift_provider (demo_provider ''m'')) req (w\<lparr>w_ticks := Suc (w_ticks w)\<rparr>) =
      (Inr (sample_response ''m''), w\<lparr>w_ticks := Suc (w_ticks w), w_upstream := (demo_state0 0)\<lparr>ds_calls := 1\<rparr>\<rparr>)" for req
    using assms(2) by (simp add: lift_provider_def demo_provider_def demo_state0_def)
  then have gen: "generate_with_retries (lift_executor (demo_executor 0)) (lift_provider (demo_provider ''m'')) req 0
      (w\<lparr>w_ticks := Suc (w_ticks w)\<rparr>) =
      (Inr (sample_response ''m''), w\<lparr>w_ticks := Suc (w_ticks w), w_upstream := (demo_state0 0)\<lparr>ds_calls := 1\<rparr>\<rparr>)" for req
    by (rule gwr_unfold_Inr)
  show ?thesis
    by (simp add: execute_def demo_lift_routes hook demo_resolve route_request_def gen)
qed

lemma demo_estimate: "static_estimate ''p'' ''m'' u = None"
proof -
  have "dict_get PROVIDER_PRICING (lower (strip ''p'')) = None" by code_simp
  then show ?thesis by (simp add: static_estimate_def split: option.split)
qed

definition demo_usage :: usage_record where
  "demo_usage = usage_of_response (demo_command None False) ''p'' (sample_response ''m'') 100 sample_instant"

lemma demo_usage_ok: "usage_record_ok demo_usage"
  by (simp add: demo_usage_def usage_of_response_def usage_record_ok_def sample_response_def demo_estimate
      negative_opt_def aware_def sample_instant_def is_space_def) 

lemma demo_record_usage:
  assumes "w_db w = demo_db1" and "w_uuids w = 0" and "w_uuid w = (\<lambda>n. of_nat (100 + n))" and "w_now w = (\<lambda>_. sample_instant)"
  shows "record_usage (demo_command key c) ''p'' (sample_response ''m'') w =
    (Inr (), w\<lparr>w_uuids := 1, w_ticks := Suc (w_ticks w), w_db := with_usage [demo_usage] demo_db1\<rparr>)"
proof -
  have u: "usage_of_response (demo_command key c) ''p'' (sample_response ''m'') 100 sample_instant = demo_usage"
    by (simp add: demo_usage_def usage_of_response_def)
  have fits: "usage_fits demo_usage" by (simp add: demo_usage_def usage_of_response_def usage_fits_def sample_response_def
      int4_opt_def int4_def demo_estimate)
  have "usage_add demo_usage demo_db1 = (Inr demo_usage, with_usage [demo_usage] demo_db1)"
    by (simp add: usage_add_valid [OF demo_usage_ok] fits)
      (simp add: demo_usage_def usage_of_response_def demo_db1_def demo_db_def empty_db_def fk_organization_def fk_api_key_def
        demo_org_def org_to_row_def key_to_row_def)
  moreover have "validate_usage_record demo_usage = Inr demo_usage" using demo_usage_ok by (simp add: validate_usage_record_Inr)
  ultimately show ?thesis
    by (simp add: record_usage_def bind_a_def uuid4_a_def now_a_def lift_a_def db_a_def ret_a_def assms u)
qed

definition demo_audit_event :: audit_event where
  "demo_audit_event = response_audit (demo_command None False) (sample_response ''m'') ''provider'' ''p'' 101 sample_instant"

lemma demo_audit_ok: "audit_event_ok demo_audit_event"
  by code_simp

lemma demo_record_success:
  assumes "w_db w = with_usage [demo_usage] demo_db1" and "w_uuids w = 1" and "w_uuid w = (\<lambda>n. of_nat (100 + n))"
    and "w_now w = (\<lambda>_. sample_instant)"
  shows "fst (record_generation_success (demo_command key c) (sample_response ''m'') ''provider'' ''p'' True w) = Inr ()"
proof -
  have e: "response_audit (demo_command key c) (sample_response ''m'') ''provider'' ''p'' 101 sample_instant = demo_audit_event"
    by (simp add: demo_audit_event_def response_audit_def)
  have add: "audit_add demo_audit_event (with_usage [demo_usage] demo_db1) =
      (Inr demo_audit_event, with_audit [demo_audit_event] (with_usage [demo_usage] demo_db1))"
    by (simp add: audit_add_valid [OF demo_audit_ok]) (simp add: demo_audit_event_def response_audit_def with_usage_def demo_db1_def demo_audit_def)
  have val: "validate_audit_event demo_audit_event = Inr demo_audit_event" using demo_audit_ok by (simp add: validate_audit_event_Inr)
  obtain m where m: "success_metrics (sample_response ''m'') ''provider'' True w = (Inr (), w\<lparr>w_metrics := m\<rparr>)"
    using count_effect [of "sample_response ''m''" "''provider''" True w]
    by (cases "success_metrics (sample_response ''m'') ''provider'' True w") auto
  show ?thesis
    by (simp add: record_generation_success_def bind_a_def m uuid4_a_def now_a_def lift_a_def db_a_def ret_a_def assms e val add)
qed

lemma demo_generate:
  "fst (generate_and_record demo_service (demo_command (Some ''k'') False) True
     ((demo_world 0)\<lparr>w_ticks := 1, w_redis := demo_redis2\<rparr>)) = Inr (sample_response ''m'')"
proof -
  let ?w = "(demo_world 0)\<lparr>w_ticks := 1, w_redis := demo_redis2\<rparr>" and ?c = "demo_command (Some ''k'') False"
  have w: "w_db ?w = demo_db1" "w_upstream ?w = demo_state0 0" by (simp_all add: demo_world_def)
  let ?w1 = "?w\<lparr>w_ticks := Suc (w_ticks ?w), w_upstream := (demo_state0 0)\<lparr>ds_calls := 1\<rparr>\<rparr>"
  have w1: "w_db ?w1 = demo_db1" "w_uuids ?w1 = 0" "w_uuid ?w1 = (\<lambda>n. of_nat (100 + n))" "w_now ?w1 = (\<lambda>_. sample_instant)"
    by (simp_all add: demo_world_def)
  let ?w2 = "?w1\<lparr>w_uuids := 1, w_ticks := Suc (w_ticks ?w1), w_db := with_usage [demo_usage] demo_db1\<rparr>"
  obtain w3 where k: "complete_a demo_service ?c True (sample_response ''m'') ?w2 = (Inr (), w3)"
      and w3: "w_db w3 = with_usage [demo_usage] demo_db1" "w_uuids w3 = 1" "w_uuid w3 = (\<lambda>n. of_nat (100 + n))" "w_now w3 = (\<lambda>_. sample_instant)"
    using complete_effect [of demo_service ?c True "sample_response ''m''" ?w2] w1
    by (cases "complete_a demo_service ?c True (sample_response ''m'') ?w2") auto
  obtain w4 where s: "record_generation_success ?c (sample_response ''m'') ''provider'' ''p'' True w3 = (Inr (), w4)"
    using demo_record_success [OF w3] by (metis prod.collapse)
  show ?thesis
    using demo_execute [OF w, of "Some ''k''" False] demo_record_usage [OF w1, of "Some ''k''" False] k s
    by (simp add: generate_and_record_def bind_a_def [of "execute _ _ _ _"] bind_a_def [of "record_usage _ _ _"] Let_def
        er_provider_name_def)
      (simp add: bind_a_def cache_store_a_def ret_a_def)
qed

lemma demo_bucket:
  assumes "ms_hashes r = [(rate_key 1, (9, 0))]"
  shows "rd_allowed (fst (rate_consume map_redis (sv_limiter demo_service) t 1 r))"
  using assms
  by (simp add: rate_consume_def map_redis_def demo_service_def mk_rate_limiter_def token_bucket_alt Let_def
      available_def dict_get_def)

lemma demo_run: "\<exists>w1. create_response_execute demo_service (demo_command (Some ''k'') False) (demo_world 0) =
    (Inr (sample_response ''m''), w1) \<and> ms_hashes (w_redis w1) = [(rate_key 1, (9, 0))]"
proof -
  let ?w = "(demo_world 0)\<lparr>w_ticks := 1, w_redis := demo_redis2\<rparr>" and ?c = "demo_command (Some ''k'') False"
  obtain w1 where g: "generate_and_record demo_service ?c True ?w = (Inr (sample_response ''m''), w1)"
    using demo_generate by (metis prod.collapse)
  from generate_effect [OF g] have "w_redis w1 = after_generation demo_service ?c True (sample_response ''m'') demo_redis2"
    by auto
  then have "ms_hashes (w_redis w1) = [(rate_key 1, (9, 0))]"
    by (simp add: after_generation_def Let_def idem_complete_def map_redis_def demo_redis2_def)
  moreover from g have "answer demo_service ?c True ?w = (Inr (sample_response ''m''), w1)"
    by (simp add: answer_def generate_guarded_def on_exception_def cache_lookup_a_def bind_a_def ret_a_def)
  ultimately show ?thesis
    using demo_consume [of "Some ''k''" False 0] demo_begin [of False 0]
    by (simp add: create_response_execute_def bind_a_def [of "consume_a _ _"] bind_a_def [of "begin_a _ _"])
qed

section \<open>Properties\<close>

text \<open>C10: one request, at most one bill. Whatever a request does, and however it ends, the database gains at most one
  usage row and one audit event, both valid, of the request's own organization, key and request id; a successful
  request is always audited, its usage row carries the tokens of the response it returns, and a response
  without a usage row (a replay or a cache hit) made no provider call. A failed request leaves no audit event.\<close>

theorem request_records:
  assumes "create_response_execute sv cmd w = (res, w')"
  shows "case res of
      Inl e \<Rightarrow> w_db w' = w_db w \<or> (\<exists>r us. billed cmd r us \<and> w_db w' = with_usage us (w_db w))
    | Inr r \<Rightarrow> \<exists>us es. audited cmd r es \<and> w_db w' = with_audit es (with_usage us (w_db w)) \<and>
        (billed cmd r us \<or> us = [] \<and> w_upstream w' = w_upstream w)"
  using execute_recorded [OF assms] unfolding recorded_def .

lemma request_records_witness:
  "\<exists>w1 us es. create_response_execute demo_service (demo_command (Some ''k'') False) (demo_world 0) = (Inr (sample_response ''m''), w1) \<and>
     w_db w1 = with_audit es (with_usage us demo_db1) \<and>
     (billed (demo_command (Some ''k'') False) (sample_response ''m'') us \<or> us = [])"
proof -
  from demo_run obtain w1 where r: "create_response_execute demo_service (demo_command (Some ''k'') False) (demo_world 0) =
    (Inr (sample_response ''m''), w1)" by blast
  from request_records [OF r] r show ?thesis by (auto simp: demo_world_def)
qed

text \<open>C8: a lease is always settled. When Redis answers and the caches are not in play, a request that claimed a free
  idempotency key leaves it completed with its own response when it succeeds; when it fails, the key is free again
  and nothing was written, or the failure came after the usage was recorded and the key holds that response.\<close>

theorem lease_settled:
  assumes "healthy_redis (sv_redis sv) val bkt" and "cc_idempotency_key cmd = Some k"
    and "\<not> gr_cache (cc_request cmd)" and "idem_view val (w_redis w) (cc_organization_id cmd) k = Free"
    and "create_response_execute sv cmd w = (res, w')"
  shows "case res of
      Inr r \<Rightarrow> idem_view val (w_redis w') (cc_organization_id cmd) k = Done (serialize_response r)
    | Inl e \<Rightarrow> idem_view val (w_redis w') (cc_organization_id cmd) k = Free \<and> w_db w' = w_db w \<or>
        (\<exists>r us. idem_view val (w_redis w') (cc_organization_id cmd) k = Done (serialize_response r) \<and>
           billed cmd r us \<and> w_db w' = with_usage us (w_db w))"
  using healthy_redis.settled [OF assms(1) refl assms(2-5)] .

lemma lease_settled_witness:
  "\<exists>w1. create_response_execute demo_service (demo_command (Some ''k'') False) (demo_world 0) = (Inr (sample_response ''m''), w1) \<and>
     idem_view ms_val (w_redis w1) 1 ''k'' = Done (serialize_response (sample_response ''m''))"
proof -
  from demo_run obtain w1 where r: "create_response_execute demo_service (demo_command (Some ''k'') False) (demo_world 0) =
    (Inr (sample_response ''m''), w1)" by blast
  have "idem_view ms_val (w_redis (demo_world 0)) (cc_organization_id (demo_command (Some ''k'') False)) ''k'' = Free"
    by (rule demo_free)
  from lease_settled [OF demo_healthy _ _ this r] r show ?thesis by auto
qed


lemma sample_response_built: "response_built (sample_response m) \<longleftrightarrow> \<not> blank m"
  by (auto simp: response_built_def sample_response_def assistant_message_def generation_response_ok_def message_ok_def
      token_usage_ok_def is_space_def)


text \<open>The rate limit comes first. A denied request raises with a wait of at least one second, counts one error, and
  does nothing else: no lease, no cache, no provider call, no row; only the bucket and the clock have moved.\<close>

theorem rate_limit_first:
  assumes "rate_consume (sv_redis sv) (sv_limiter sv) (w_seconds w (w_ticks w)) (cc_organization_id cmd) (w_redis w) = (d, red)"
    and "\<not> rd_allowed d"
  shows "\<exists>n. 1 \<le> n \<and> create_response_execute sv cmd w = (Inl (RateLimitExceededError n),
    metered_error (w\<lparr>w_ticks := Suc (w_ticks w), w_redis := red\<rparr>))"
proof -
  obtain res w' where r: "create_response_execute sv cmd w = (res, w')" by (metis surj_pair)
  from r show ?thesis
    by (cases rule: execute_cases) (use assms r in \<open>auto simp: rate_limited_def\<close>)
qed

lemma rate_limit_first_witness:
  "\<exists>n w'. 1 \<le> n \<and> create_response_execute (demo_service\<lparr>sv_limiter := mk_rate_limiter 60 0\<rparr>) (demo_command None False) (demo_world 0) =
     (Inl (RateLimitExceededError n), w')"
proof -
  have "rate_consume map_redis (mk_rate_limiter 60 0) 0 1 \<lparr>ms_strings = [], ms_hashes = []\<rparr> =
      (\<lparr>rd_allowed = False, rd_retry_after_seconds = Some 1\<rparr>, \<lparr>ms_strings = [], ms_hashes = [(rate_key 1, (0, 0))]\<rparr>)"
    by (simp add: rate_consume_def map_redis_def mk_rate_limiter_def token_bucket_def dict_get_def)
  then show ?thesis
    using rate_limit_first [of "demo_service\<lparr>sv_limiter := mk_rate_limiter 60 0\<rparr>" "demo_world 0" "demo_command None False"]
    by (auto simp: demo_world_def demo_service_def demo_command_def)
qed



section \<open>The database stays well-formed\<close>

lemma keeps_bind_lift: "(\<And>x. r = Inr x \<Longrightarrow> keeps P (f x)) \<Longrightarrow> keeps P (bind_a (lift_a r) f)"
  by (auto simp: keeps_def bind_a_def lift_a_def split: sum.split)

lemma keeps_db_a: "keeps Q m \<Longrightarrow> keeps (\<lambda>w. Q (w_db w)) (db_a m)"
  by (auto simp: keeps_def db_a_def split: prod.splits)

lemma keeps_world [simp]:
  "keeps (\<lambda>w. Q (w_db w)) now_a" "keeps (\<lambda>w. Q (w_db w)) seconds_a" "keeps (\<lambda>w. Q (w_db w)) uuid4_a"
  "keeps (\<lambda>w. Q (w_db w)) (redis_a m)" "keeps (\<lambda>w. Q (w_db w)) (redis_do f)" "keeps (\<lambda>w. Q (w_db w)) (count_a n ls a)"
  by (auto simp: keeps_def now_a_def seconds_a_def uuid4_a_def redis_a_def redis_do_def count_a_def split: prod.split)

lemma on_exception_keeps: "keeps P body \<Longrightarrow> keeps P handler \<Longrightarrow> keeps P (on_exception body handler)"
  by (auto simp: keeps_def on_exception_def bind_a_def raise_a_def split: prod.splits sum.splits)

text \<open>
  The use case writes two tables. What those writes preserve of the database, every run of it preserves, however it ends.
\<close>

locale ledger_invariant =
  fixes Q :: "db \<Rightarrow> bool"
  assumes Q_usage: "usage_record_ok u \<Longrightarrow> Q d \<Longrightarrow> Q (snd (usage_add u d))"
    and Q_audit: "audit_event_ok e \<Longrightarrow> Q d \<Longrightarrow> Q (snd (audit_add e d))"
begin

abbreviation kept :: "('r, 'u) world \<Rightarrow> bool" where
  "kept \<equiv> \<lambda>w. Q (w_db w)"

lemma record_usage_keeps: "keeps kept (record_usage cmd pv r)"
  unfolding record_usage_def
  by (intro keeps_bind_a keeps_bind_lift keeps_db_a keeps_world keeps_ret_a)
    (auto simp: keeps_def validate_usage_record_Inr Q_usage)

lemma record_success_keeps: "keeps kept (record_generation_success cmd r oc pv ct)"
proof -
  have "keeps kept (success_metrics r oc ct)"
    unfolding success_metrics_def by (intro keeps_bind_a keeps_world) (auto split: option.split)
  then show ?thesis
    unfolding record_generation_success_def
    by (intro keeps_bind_a keeps_bind_lift keeps_db_a keeps_world keeps_ret_a)
      (auto simp: keeps_def validate_audit_event_Inr Q_audit)
qed

lemma execute_keeps_db: "keeps kept (execute (lift_executor x) m req (Some (before_route cmd)))"
  unfolding keeps_def using execute_effect [of x m req cmd] by (metis core_eq prod.collapse)

lemma enforce_keeps_db: "keeps kept (enforce_a cmd m)"
  unfolding enforce_a_def by (intro keeps_bind_a keeps_db_a keeps_world keeps_ret_a keeps_read_a)

lemma option_steps_keep:
  "keeps kept (complete_a sv cmd c r)" "keeps kept (release_a sv cmd c)"
  "keeps kept (cache_lookup_a sv cmd)" "keeps kept (cache_store_a sv cmd r)"
  "keeps kept record_generation_error" "keeps kept (consume_a sv cmd)" "keeps kept (begin_a sv cmd)"
  by (auto simp: complete_a_def release_a_def cache_lookup_a_def cache_store_a_def record_generation_error_def
      consume_a_def begin_a_def split: option.split)

lemmas service_keeps = record_usage_keeps record_success_keeps execute_keeps_db enforce_keeps_db option_steps_keep

lemma answer_keeps: "keeps kept (answer sv cmd claimed)"
  unfolding answer_def answer_from_cache_def generate_guarded_def generate_and_record_def Let_def
  by (intro keeps_bind_a service_keeps)
    (auto split: option.split intro!: keeps_bind_a on_exception_keeps service_keeps)

lemma create_response_keeps: "keeps kept (create_response_execute sv cmd)"
  unfolding create_response_execute_def
  by (intro keeps_bind_a service_keeps)
    (auto split: option.split idempotency_begin_result.split intro!: keeps_bind_a answer_keeps service_keeps)

lemma deliver_keeps:
  fixes w :: "('r, 'u) world"
  shows "deliver cmd items w = (res, w') \<Longrightarrow> kept w \<Longrightarrow> kept w'"
proof (induction items arbitrary: res w)
  case (Cons item items)
  define first where "first = (case se_payload item of Delta _ \<Rightarrow> (Inr (), w)
    | Completed response \<Rightarrow> bind_a (record_usage cmd (se_provider_name item) response) (\<lambda>_.
        record_generation_success cmd response ''provider'' (se_provider_name item) True) w)"
  obtain a w1 where a: "first = (a, w1)" by (cases first)
  have "kept w1" using a Cons.prems(2) unfolding first_def
    by (cases "se_payload item") (auto dest: keepsD [OF keeps_bind_a [OF record_usage_keeps record_success_keeps]])
  moreover from Cons.prems(1) a have "w' = w1 \<or> (\<exists>res'. deliver cmd items w1 = (res', w'))"
    unfolding first_def by (auto split: sum.splits prod.splits)
  ultimately show ?case using Cons.IH by blast
qed simp

lemma create_response_stream_keeps:
  fixes w :: "('r, 'u) world"
  assumes "create_response_stream sv cmd w = ((evs, eo), w')" and "kept w"
  shows "kept w'"
proof (cases "cc_idempotency_key cmd")
  case (Some k)
  with assms show ?thesis by (simp add: create_response_stream_def)
next
  case None
  from assms(1) None show ?thesis
  proof (cases rule: stream_cases)
    case (served d red items eo1 w2 eo2)
    from stream_effect [OF served(3)] have "w_db w2 = w_db w" by (simp add: core_eq)
    with deliver_keeps [OF served(4)] assms(2) show ?thesis by simp
  qed (use assms(2) in simp)
qed

end

interpretation well_formed: ledger_invariant db_ok
  by unfold_locales (fact usage_add_keeps, fact audit_add_keeps)

lemma request_keeps_database: "db_ok (w_db w) \<Longrightarrow> db_ok (w_db (snd (create_response_execute sv cmd w)))"
  using well_formed.create_response_keeps unfolding keeps_def by blast

text \<open>C40: a cached answer that is refused leaks the lease. When the answer is in the cache but the policy refuses it, the
  exception leaves through the branch outside the \<open>try\<close> statement: the claimed idempotency key stays in progress
  until it expires, and no error is counted.\<close>

theorem cached_denial_leaks_lease:
  assumes "healthy_redis (sv_redis sv) val bkt" and "cc_idempotency_key cmd = Some k"
    and "idem_view val (w_redis w) (cc_organization_id cmd) k = Free"
    and "gr_cache (cc_request cmd)"
    and "cache_view val (w_redis w) (cc_organization_id cmd) (fingerprint_generation_request (cc_request cmd)) = Some p"
    and "rate_consume (sv_redis sv) (sv_limiter sv) (w_seconds w (w_ticks w)) (cc_organization_id cmd) (w_redis w) = (d, red)"
    and "rd_allowed d"
    and "enforce_policy (cc_organization_id cmd) (gr_model (cc_request cmd)) (gr_max_output_tokens (cc_request cmd))
           (w_now w (Suc (w_ticks w))) (w_db w) = Inl e"
  shows "\<exists>w'. create_response_execute sv cmd w = (Inl e, w') \<and>
    idem_view val (w_redis w') (cc_organization_id cmd) k = Busy \<and> w_metrics w' = w_metrics w"
proof -
  note h = assms(1)
  note rc = healthy_redis.axioms(1) [OF h]
  let ?org = "cc_organization_id cmd" and ?f = "fingerprint_generation_request (cc_request cmd)"
  obtain b red2 where b: "idem_begin (sv_redis sv) (sv_idem_ttl sv) ?org k red = (b, red2)"
    by (cases "idem_begin (sv_redis sv) (sv_idem_ttl sv) ?org k red")
  have bm: "b = IdempotencyMiss" and busy: "idem_view val red2 ?org k = Busy"
    using healthy_redis.begin_view [OF h assms(6) b] assms(3) by simp_all
  have keep: "cache_view val red2 ?org ?f = Some p"
    using redis_client.begin_keeps_cache [OF rc b] redis_client.val_rate_consume [OF rc assms(6)] assms(5)
    by (simp add: cache_view_def)
  obtain x red3 where g: "cache_get (sv_redis sv) ?org ?f red2 = (x, red3)" by (cases "cache_get (sv_redis sv) ?org ?f red2")
  have x: "x = Some p" using healthy_redis.cache_get_exact [OF h g] keep by simp
  have busy3: "idem_view val red3 ?org k = Busy"
    using redis_client.val_cache_get [OF rc g] busy by (simp add: idem_view_def)
  let ?w2 = "w\<lparr>w_ticks := Suc (w_ticks w), w_redis := red2\<rparr>"
  have "answer sv cmd True ?w2 = (Inl e, w\<lparr>w_ticks := Suc (Suc (w_ticks w)), w_redis := red3\<rparr>)"
    using assms(4,8) g x
    by (simp add: answer_def cache_lookup_a_def redis_a_def bind_a_def answer_from_cache_def enforce_a_def now_a_def db_a_def read_a_def)
  moreover obtain res w' where r: "create_response_execute sv cmd w = (res, w')" by (metis surj_pair)
  ultimately have "res = Inl e \<and> w' = w\<lparr>w_ticks := Suc (Suc (w_ticks w)), w_redis := red3\<rparr>"
    by (cases rule: execute_cases [OF r]) (use assms(2,6,7) b bm in auto)
  with r busy3 show ?thesis by simp
qed

lemma cached_denial_leaks_lease_witness:
  "\<exists>w'. create_response_execute demo_service (demo_command (Some ''k'') True)
       ((demo_world 0)\<lparr>w_db := demo_db1\<lparr>db_entitlements := [\<lparr>erow_id = 9, erow_organization_id = 1, erow_model = ''x''\<rparr>]\<rparr>,
          w_redis := \<lparr>ms_strings = [(cache_key 1 (fingerprint_generation_request (cc_request (demo_command (Some ''k'') True))), ''p'')],
                      ms_hashes = []\<rparr>\<rparr>) = (Inl (ModelNotAvailableError ''m''), w') \<and>
     idem_view ms_val (w_redis w') 1 ''k'' = Busy"
proof -
  let ?c = "demo_command (Some ''k'') True"
  let ?r = "\<lparr>ms_strings = [(cache_key 1 (fingerprint_generation_request (cc_request ?c)), ''p'')], ms_hashes = []\<rparr>"
  let ?d = "demo_db1\<lparr>db_entitlements := [\<lparr>erow_id = 9, erow_organization_id = 1, erow_model = ''x''\<rparr>]\<rparr>"
  let ?w = "(demo_world 0)\<lparr>w_db := ?d, w_redis := ?r\<rparr>"
  have free: "idem_view ms_val (w_redis ?w) (cc_organization_id ?c) ''k'' = Free"
    by (simp add: idem_view_def ms_val_def dict_get_def)
  have hit: "cache_view ms_val (w_redis ?w) (cc_organization_id ?c) (fingerprint_generation_request (cc_request ?c)) = Some ''p''"
    by (simp add: cache_view_def ms_val_def dict_get_def)
  have rate: "rate_consume (sv_redis demo_service) (sv_limiter demo_service) (w_seconds ?w (w_ticks ?w)) (cc_organization_id ?c) (w_redis ?w) =
      (\<lparr>rd_allowed = True, rd_retry_after_seconds = None\<rparr>, ?r\<lparr>ms_hashes := [(rate_key 1, (9, 0))]\<rparr>)"
    by (simp add: rate_consume_def map_redis_def) (simp add: demo_world_def demo_service_def mk_rate_limiter_def token_bucket_def dict_get_def)
  have deny: "enforce_policy (cc_organization_id ?c) (gr_model (cc_request ?c)) (gr_max_output_tokens (cc_request ?c))
      (w_now ?w (Suc (w_ticks ?w))) (w_db ?w) = Inl (ModelNotAvailableError ''m'')"
    by (simp add: enforce_policy_def policy_list_entitlements_def mk_model_entitlement_def require_non_blank_def
        is_model_allowed_def is_space_def)
  from cached_denial_leaks_lease [OF demo_healthy _ free _ hit rate _ deny] show ?thesis by auto
qed

end
