(* ===== verification/OpenAI.thy ===== *)
theory OpenAI
  imports Upstream
begin

text \<open>
  The OpenAI Chat Completions adapter, \<open>providers/openai/adapter.py\<close>: the request body, the reading
  of a response and of a streamed reply, and the two calls. \<open>openai_provider\<close> is the adapter as the
  executor sees it, and is shown to meet the contract \<open>sound_provider\<close>.
\<close>

abbreviation openai_err :: "string \<Rightarrow> exn" where
  "openai_err \<equiv> provider_err OpenAIProviderError"

definition DEFAULT_OPENAI_API_URL :: string where
  "DEFAULT_OPENAI_API_URL = ''https://api.openai.com/v1''"

definition mk_openai :: "string \<Rightarrow> 'u http_client \<Rightarrow> string option \<Rightarrow> exn + 'u adapter" where
  "mk_openai api_key client base_url =
     mk_adapter OpenAIProviderError api_key client (case base_url of None \<Rightarrow> DEFAULT_OPENAI_API_URL | Some b \<Rightarrow> b)"

section \<open>The request\<close>

definition openai_call :: "tool_call \<Rightarrow> json" where
  "openai_call call = JObj [(''id'', JStr (tc_id call)), (''type'', JStr ''function''),
     (''function'', JObj [(''name'', JStr (tc_name call)), (''arguments'', JStr (tc_arguments call))])]"

definition to_openai_message :: "message \<Rightarrow> json" where
  "to_openai_message m =
     (if msg_role m = TOOL then
        JObj [(''role'', JStr ''tool''), (''tool_call_id'', opt_json JStr (msg_tool_call_id m)), (''content'', JStr (msg_content m))]
      else if msg_tool_calls m \<noteq> [] then
        JObj [(''role'', JStr (role_value (msg_role m))),
              (''content'', if \<not> blank (msg_content m) then JStr (msg_content m) else JNull),
              (''tool_calls'', JArr (map openai_call (msg_tool_calls m)))]
      else JObj [(''role'', JStr (role_value (msg_role m))), (''content'', JStr (msg_content m))])"

definition openai_tool :: "tool_definition \<Rightarrow> json" where
  "openai_tool t = JObj [(''type'', JStr ''function''), (''function'', JObj [(''name'', JStr (td_name t)),
     (''description'', JStr (td_description t)), (''parameters'', td_parameters t)])]"

definition to_openai_body :: "generation_request \<Rightarrow> bool \<Rightarrow> json" where
  "to_openai_body req streaming = JObj
     ([(''model'', JStr (gr_model req)), (''messages'', JArr (map to_openai_message (gr_messages req)))] @
      opt_field ''temperature'' JFloat (gr_temperature req) @
      opt_field ''max_tokens'' JInt (gr_max_output_tokens req) @
      (if gr_tools req \<noteq> [] then [(''tools'', JArr (map openai_tool (gr_tools req)))] else []) @
      (if streaming then [(''stream'', JBool True), (''stream_options'', JObj [(''include_usage'', JBool True)])] else []))"

definition openai_request :: "'u adapter \<Rightarrow> generation_request \<Rightarrow> bool \<Rightarrow> http_request" where
  "openai_request a req streaming = \<lparr>
     hq_url = ad_base_url a @ ''/chat/completions'', hq_params = [],
     hq_headers = [(''Authorization'', ''Bearer '' @ ad_api_key a), (''Content-Type'', ''application/json'')],
     hq_json = to_openai_body req streaming\<rparr>"

section \<open>The response\<close>

definition call_from_openai :: "json \<Rightarrow> exn + tool_call" where
  "call_from_openai item = (let invalid = openai_err ''OpenAI response tool_calls is invalid'' in
     case item of JObj it \<Rightarrow>
       (case (get_str it ''id'', get_obj it ''function'') of
          (Some call_id, Some function) \<Rightarrow>
            (if blank call_id then Inl invalid
             else case (get_str function ''name'', get_str function ''arguments'') of
               (Some name, Some arguments) \<Rightarrow> mk_tool_call call_id name arguments
             | _ \<Rightarrow> Inl invalid)
        | _ \<Rightarrow> Inl invalid)
     | _ \<Rightarrow> Inl invalid)"

definition tool_calls_from_openai :: "json option \<Rightarrow> exn + tool_call list" where
  "tool_calls_from_openai raw_calls = (case raw_calls of
     None \<Rightarrow> Inr [] | Some JNull \<Rightarrow> Inr []
   | Some (JArr items) \<Rightarrow> traverse call_from_openai items
   | Some _ \<Rightarrow> Inl (openai_err ''OpenAI response tool_calls is invalid''))"

definition usage_from_openai_payload :: "json option \<Rightarrow> exn + token_usage option" where
  "usage_from_openai_payload usage_payload = (case usage_payload of
     Some (JObj u) \<Rightarrow>
       (case (get_int u ''prompt_tokens'', get_int u ''completion_tokens'') of
          (Some prompt_tokens, Some completion_tokens) \<Rightarrow> map_r Some (mk_token_usage prompt_tokens completion_tokens)
        | _ \<Rightarrow> Inl (openai_err ''OpenAI response usage is invalid''))
   | _ \<Rightarrow> Inr None)"

text \<open>\<open>message.get("content")\<close>, None read as the empty string.\<close>

definition openai_content :: "(string, json) dict \<Rightarrow> exn + string" where
  "openai_content m = (if get_none m ''content'' then Inr [] else
     case get_str m ''content'' of Some c \<Rightarrow> Inr c
     | None \<Rightarrow> Inl (openai_err ''OpenAI response message is missing content''))"

definition openai_message :: "(string, json) dict \<Rightarrow> exn + (string, json) dict" where
  "openai_message payload = (case get_list payload ''choices'' of
     Some (JObj first_choice # _) \<Rightarrow>
       (case get_obj first_choice ''message'' of Some m \<Rightarrow> Inr m
        | None \<Rightarrow> Inl (openai_err ''OpenAI response choice is missing message''))
   | Some (_ # _) \<Rightarrow> Inl (openai_err ''OpenAI response choice is invalid'')
   | _ \<Rightarrow> Inl (openai_err ''OpenAI response is missing choices''))"

definition from_openai_payload :: "(string, json) dict \<Rightarrow> generation_request \<Rightarrow> exn + generation_response" where
  "from_openai_payload payload req = except_malformed OpenAIProviderError ''OpenAI''
     (case dict_get payload ''id'' of None \<Rightarrow> Inl (PyKeyError ''id'') | Some _ \<Rightarrow>
      (case get_str payload ''id'' of None \<Rightarrow> Inl (openai_err ''OpenAI response is missing a valid id'') | Some response_id \<Rightarrow>
        bind_r (err_unless OpenAIProviderError (\<not> blank response_id) ''OpenAI response is missing a valid id'') (\<lambda>_.
        bind_r (openai_message payload) (\<lambda>m.
        bind_r (openai_content m) (\<lambda>content.
        bind_r (tool_calls_from_openai (dict_get m ''tool_calls'')) (\<lambda>tool_calls.
        bind_r (err_unless OpenAIProviderError (\<not> blank content \<or> tool_calls \<noteq> []) ''OpenAI response message is missing content'') (\<lambda>_.
        bind_r (usage_from_openai_payload (dict_get payload ''usage'')) (\<lambda>usage.
        bind_r (mk_message ASSISTANT content None None tool_calls) (\<lambda>output.
        mk_generation_response response_id (str_or payload ''model'' (gr_model req)) output usage False)))))))))"

definition openai_generate :: "'u adapter \<Rightarrow> generation_request \<Rightarrow> 'u \<Rightarrow> (exn + generation_response) \<times> 'u" where
  "openai_generate a req u =
     (case post_json OpenAIProviderError ''OpenAI'' (ad_http_client a) (openai_request a req False) u of
        (Inl e, u') \<Rightarrow> (Inl e, u')
      | (Inr payload, u') \<Rightarrow> (from_openai_payload payload req, u'))"

section \<open>The stream\<close>

text \<open>The text of the first choice's delta, if the chunk has one.\<close>

definition openai_delta :: "(string, json) dict \<Rightarrow> exn + string option" where
  "openai_delta payload = (case get_list payload ''choices'' of
     Some (JObj first_choice # _) \<Rightarrow>
       Inr (case get_obj first_choice ''delta'' of Some delta \<Rightarrow> get_str delta ''content'' | None \<Rightarrow> None)
   | Some (_ # _) \<Rightarrow> Inl (openai_err ''OpenAI stream choice is invalid'')
   | _ \<Rightarrow> Inr None)"

definition openai_usage_step :: "(string, json) dict \<Rightarrow> stream_state \<Rightarrow> stream_state flow" where
  "openai_usage_step payload st = (case dict_get payload ''usage'' of None \<Rightarrow> Go st
     | Some j \<Rightarrow> (case usage_from_openai_payload (Some j) of Inl e \<Rightarrow> Fail e | Inr usage \<Rightarrow> Go (st\<lparr>ss_usage := usage\<rparr>)))"

definition openai_step :: "stream_state event_step" where
  "openai_step ev st = (case ev of (_, data) \<Rightarrow>
     if data = ''[DONE]'' then ([], Stop st)
     else case chunk_payload OpenAIProviderError ''OpenAI'' data of
       Inl e \<Rightarrow> ([], Fail e)
     | Inr payload \<Rightarrow>
        (let st1 = st\<lparr>ss_id := str_or payload ''id'' (ss_id st), ss_model := str_or payload ''model'' (ss_model st)\<rparr> in
         case openai_delta payload of
           Inl e \<Rightarrow> ([], Fail e)
         | Inr content \<Rightarrow> then_flow (emit_text OpenAIProviderError ''OpenAI'' content st1) (openai_usage_step payload)))"

definition openai_finish :: "stream_state \<Rightarrow> exn + generation_response" where
  "openai_finish st =
     bind_r (err_unless OpenAIProviderError (\<not> blank (ss_id st)) ''OpenAI stream is missing a valid id'') (\<lambda>_. complete_stream st)"

definition openai_stream :: "'u adapter \<Rightarrow> generation_request \<Rightarrow> 'u \<Rightarrow> (stream_event list \<times> exn option) \<times> 'u" where
  "openai_stream a req u = stream_json OpenAIProviderError ''OpenAI'' (ad_http_client a) (openai_request a req True)
     openai_step (stream_start req) openai_finish u"

definition openai_provider :: "'u adapter \<Rightarrow> 'u model_provider" where
  "openai_provider a = \<lparr>mp_generate = openai_generate a, mp_stream = openai_stream a\<rparr>"

section \<open>The adapter meets the contract\<close>

lemma call_from_openai_raises: "raises_only (own_or_malformed OpenAIProviderError) (call_from_openai item)"
  by (auto simp: call_from_openai_def Let_def raising split: json.split option.split)

lemma tool_calls_from_openai_raises: "raises_only (own_or_malformed OpenAIProviderError) (tool_calls_from_openai j)"
  by (auto simp: tool_calls_from_openai_def split: json.split option.split intro!: raises_only_traverse call_from_openai_raises)

lemma usage_from_openai_raises:
  "raises_only (own_or_malformed OpenAIProviderError) (usage_from_openai_payload j)"
  "raises_only (own_or_validation OpenAIProviderError) (usage_from_openai_payload j)"
  by (auto simp: usage_from_openai_payload_def raising split: json.split option.split intro!: raises_only_map)

lemma openai_message_raises: "raises_only (own_or_malformed OpenAIProviderError) (openai_message payload)"
  by (auto simp: openai_message_def split: json.split option.split list.split)

lemma openai_content_raises: "raises_only (own_or_malformed OpenAIProviderError) (openai_content m)"
  by (auto simp: openai_content_def split: option.split)

lemma openai_delta_raises: "raises_only (own_or_validation OpenAIProviderError) (openai_delta payload)"
  by (auto simp: openai_delta_def split: json.split option.split list.split)

lemma openai_calls_ok: "tool_calls_from_openai j = Inr calls \<Longrightarrow> \<forall>c\<in>set calls. tool_call_ok c"
  by (auto simp: tool_calls_from_openai_def call_from_openai_def Let_def mk_tool_call_Inr
      dest!: traverse_mem split: option.splits json.splits if_splits)

lemma openai_usage_ok: "usage_from_openai_payload j = Inr (Some u) \<Longrightarrow> token_usage_ok u"
  by (auto simp: usage_from_openai_payload_def map_r_eq_Inr mk_token_usage_Inr split: option.splits json.splits)

lemma from_openai_payload_raises: "raises_only (own_error OpenAIProviderError) (from_openai_payload payload req)"
  unfolding from_openai_payload_def
  by (auto intro!: except_malformed_raises raises_only_bind raising openai_message_raises openai_content_raises
      tool_calls_from_openai_raises usage_from_openai_raises split: option.split simp: own_or_malformed_def is_malformed_payload_def)

lemma from_openai_payload_built: "from_openai_payload payload req = Inr r \<Longrightarrow> built_here r"
  by (auto simp: from_openai_payload_def bind_r_eq_Inr split: option.splits
      intro: built_hereI dest: openai_calls_ok openai_usage_ok)

lemma openai_generate_ok: "generate_outcome_ok OpenAIProviderError (fst (openai_generate a req u))"
proof (rule generate_outcome_of)
  show "raises_only (own_error OpenAIProviderError) (fst (openai_generate a req u))"
    using post_json_raises [of OpenAIProviderError "''OpenAI''" "ad_http_client a" "openai_request a req False" u]
      from_openai_payload_raises [of _ req]
    by (auto simp: openai_generate_def split: prod.split sum.split)
qed (auto simp: openai_generate_def from_openai_payload_built split: prod.splits sum.splits)

lemma openai_usage_step_late: "late_ok OpenAIProviderError st (openai_usage_step payload st)"
  using usage_from_openai_raises(2)
  by (auto simp: late_ok_def openai_usage_step_def state_ok_def openai_usage_ok raises_only_def split: option.split sum.split)

lemma openai_step_round: "round_ok OpenAIProviderError st (openai_step ev st)"
proof -
  have "round_ok OpenAIProviderError st (case openai_delta payload of Inl e \<Rightarrow> ([], Fail e)
      | Inr content \<Rightarrow> then_flow (emit_text OpenAIProviderError ''OpenAI'' content (st\<lparr>ss_id := i, ss_model := m\<rparr>)) (openai_usage_step payload))"
    for payload i m
    using openai_delta_raises [of payload]
    by (cases "openai_delta payload") (auto intro!: then_flow_round emit_text_round openai_usage_step_late)
  then show ?thesis
    using chunk_payload_raises [of OpenAIProviderError "''OpenAI''" "snd ev"]
    by (cases "chunk_payload OpenAIProviderError ''OpenAI'' (snd ev)") (auto simp: openai_step_def Let_def split: prod.split)
qed

lemma openai_finish_raises: "raises_only (own_or_validation OpenAIProviderError) (openai_finish st)"
  unfolding openai_finish_def by (intro raises_only_bind raising)

interpretation openai_loop: event_loop OpenAIProviderError openai_step "stream_start req" openai_finish
    "\<lambda>st. concat (ss_assembled st)" state_ok for req
  by (intro state_loop openai_step_round openai_finish_raises) (simp add: openai_finish_def bind_r_eq_Inr)

lemma openai_stream_ok:
  "fst (openai_stream a req u) = (evs, failure) \<Longrightarrow> stream_outcome_ok OpenAIProviderError evs failure"
  by (cases "openai_stream a req u") (auto simp: openai_stream_def dest: openai_loop.stream_json_ok)

interpretation openai: sound_provider OpenAIProviderError "openai_provider a" messages_ok for a :: "'u adapter"
  by unfold_locales (auto simp: openai_provider_def openai_generate_ok dest: openai_stream_ok)

end
