(* ===== verification/Anthropic.thy ===== *)
theory Anthropic
  imports Upstream
begin

text \<open>
  The Anthropic Messages adapter, \<open>providers/anthropic/adapter.py\<close>: the request body with its split
  of the system messages, the reading of a response and of a streamed reply, and the two calls.
  \<open>anthropic_provider\<close> meets the contract \<open>sound_provider\<close>.
\<close>

abbreviation anthropic_err :: "string \<Rightarrow> exn" where
  "anthropic_err \<equiv> provider_err AnthropicProviderError"

definition DEFAULT_ANTHROPIC_BASE_URL :: string where
  "DEFAULT_ANTHROPIC_BASE_URL = ''https://api.anthropic.com''"

definition ANTHROPIC_API_VERSION :: string where
  "ANTHROPIC_API_VERSION = ''2023-06-01''"

definition DEFAULT_MAX_OUTPUT_TOKENS :: int where
  "DEFAULT_MAX_OUTPUT_TOKENS = 1024"

definition mk_anthropic :: "string \<Rightarrow> 'u http_client \<Rightarrow> string option \<Rightarrow> exn + 'u adapter" where
  "mk_anthropic api_key client base_url =
     mk_adapter AnthropicProviderError api_key client (case base_url of None \<Rightarrow> DEFAULT_ANTHROPIC_BASE_URL | Some b \<Rightarrow> b)"

section \<open>The request\<close>

definition anthropic_tool_use :: "tool_call \<Rightarrow> exn + json" where
  "anthropic_tool_use call = (case loads (tc_arguments call) of
     None \<Rightarrow> Inl (anthropic_err ''tool call arguments must be valid JSON'')
   | Some (JObj tool_input) \<Rightarrow> Inr (JObj [(''type'', JStr ''tool_use''), (''id'', JStr (tc_id call)),
       (''name'', JStr (tc_name call)), (''input'', JObj tool_input)])
   | Some _ \<Rightarrow> Inl (anthropic_err ''tool call arguments must be a JSON object''))"

definition to_anthropic_message :: "message \<Rightarrow> exn + json" where
  "to_anthropic_message m =
     (if msg_role m = TOOL then
        Inr (JObj [(''role'', JStr ''user''), (''content'', JArr [JObj [(''type'', JStr ''tool_result''),
          (''tool_use_id'', opt_json JStr (msg_tool_call_id m)), (''content'', JStr (msg_content m))]])])
      else if msg_role m = ASSISTANT \<and> msg_tool_calls m \<noteq> [] then
        map_r (\<lambda>uses. JObj [(''role'', JStr ''assistant''), (''content'', JArr
            ((if \<not> blank (msg_content m) then [JObj [(''type'', JStr ''text''), (''text'', JStr (msg_content m))]] else []) @ uses))])
          (traverse anthropic_tool_use (msg_tool_calls m))
      else Inr (JObj [(''role'', JStr (role_value (msg_role m))), (''content'', JStr (msg_content m))]))"

definition anthropic_tool :: "tool_definition \<Rightarrow> json" where
  "anthropic_tool t = JObj [(''name'', JStr (td_name t)), (''description'', JStr (td_description t)),
     (''input_schema'', td_parameters t)]"

definition to_anthropic_body :: "generation_request \<Rightarrow> bool \<Rightarrow> exn + json" where
  "to_anthropic_body req streaming = (case split_system_messages req of (system, conversation) \<Rightarrow>
     bind_r (err_unless AnthropicProviderError (conversation \<noteq> []) ''messages must contain at least one non-system message'') (\<lambda>_.
     map_r (\<lambda>messages. JObj
       ([(''model'', JStr (gr_model req)),
         (''max_tokens'', JInt (case gr_max_output_tokens req of Some n \<Rightarrow> n | None \<Rightarrow> DEFAULT_MAX_OUTPUT_TOKENS)),
         (''messages'', JArr messages)] @
        opt_field ''system'' JStr system @
        opt_field ''temperature'' JFloat (gr_temperature req) @
        (if gr_tools req \<noteq> [] then [(''tools'', JArr (map anthropic_tool (gr_tools req)))] else []) @
        (if streaming then [(''stream'', JBool True)] else [])))
       (traverse to_anthropic_message conversation)))"

definition anthropic_request :: "'u adapter \<Rightarrow> generation_request \<Rightarrow> bool \<Rightarrow> exn + http_request" where
  "anthropic_request a req streaming = map_r (\<lambda>body. \<lparr>
     hq_url = ad_base_url a @ ''/v1/messages'', hq_params = [],
     hq_headers = [(''x-api-key'', ad_api_key a), (''anthropic-version'', ANTHROPIC_API_VERSION),
       (''Content-Type'', ''application/json'')],
     hq_json = body\<rparr>) (to_anthropic_body req streaming)"

section \<open>The response\<close>

definition usage_from_anthropic_payload :: "json option \<Rightarrow> exn + token_usage option" where
  "usage_from_anthropic_payload usage_payload = (case usage_payload of
     Some (JObj u) \<Rightarrow>
       (case (get_int u ''input_tokens'', get_int u ''output_tokens'') of
          (Some input_tokens, Some output_tokens) \<Rightarrow> map_r Some (mk_token_usage input_tokens output_tokens)
        | _ \<Rightarrow> Inl (anthropic_err ''Anthropic response usage is invalid''))
   | _ \<Rightarrow> Inr None)"

text \<open>\<open>block.get("type") == name\<close>.\<close>

definition block_type_is :: "(string, json) dict \<Rightarrow> string \<Rightarrow> bool" where
  "block_type_is block name = (dict_get block ''type'' = Some (JStr name))"

definition anthropic_block_text :: "json \<Rightarrow> exn + string" where
  "anthropic_block_text j = (case j of
     JObj block \<Rightarrow> (if \<not> block_type_is block ''text'' then Inr []
       else case get_str block ''text'' of Some t \<Rightarrow> Inr t
         | None \<Rightarrow> Inl (anthropic_err ''Anthropic response text block is missing text''))
   | _ \<Rightarrow> Inl (anthropic_err ''Anthropic response content block is invalid''))"

definition text_from_content_blocks :: "json option \<Rightarrow> exn + string" where
  "text_from_content_blocks content_blocks = (case content_blocks of
     Some (JArr (b # bs)) \<Rightarrow> map_r concat (traverse anthropic_block_text (b # bs))
   | _ \<Rightarrow> Inl (anthropic_err ''Anthropic response is missing content''))"

fun is_tool_use :: "json \<Rightarrow> bool" where
  "is_tool_use (JObj block) = block_type_is block ''tool_use''"
| "is_tool_use _ = False"

definition call_from_anthropic :: "json \<Rightarrow> exn + tool_call" where
  "call_from_anthropic j = (let invalid = anthropic_err ''Anthropic response tool_use block is invalid'' in
     case j of JObj block \<Rightarrow>
       (case (get_str block ''id'', get_str block ''name'', get_obj block ''input'') of
          (Some call_id, Some name, Some tool_input) \<Rightarrow> mk_tool_call call_id name (dumps_compact (JObj tool_input))
        | _ \<Rightarrow> Inl invalid)
     | _ \<Rightarrow> Inl invalid)"

definition tool_calls_from_anthropic :: "json option \<Rightarrow> exn + tool_call list" where
  "tool_calls_from_anthropic content_blocks = (case content_blocks of
     Some (JArr bs) \<Rightarrow> traverse call_from_anthropic (filter is_tool_use bs)
   | _ \<Rightarrow> Inr [])"

definition from_anthropic_payload :: "(string, json) dict \<Rightarrow> generation_request \<Rightarrow> exn + generation_response" where
  "from_anthropic_payload payload req = except_malformed AnthropicProviderError ''Anthropic''
     (case get_str payload ''id'' of None \<Rightarrow> Inl (anthropic_err ''Anthropic response is missing a valid id'') | Some response_id \<Rightarrow>
       bind_r (err_unless AnthropicProviderError (\<not> blank response_id) ''Anthropic response is missing a valid id'') (\<lambda>_.
       bind_r (text_from_content_blocks (dict_get payload ''content'')) (\<lambda>content.
       bind_r (tool_calls_from_anthropic (dict_get payload ''content'')) (\<lambda>tool_calls.
       bind_r (err_unless AnthropicProviderError (\<not> blank content \<or> tool_calls \<noteq> []) ''Anthropic response is missing text content'') (\<lambda>_.
       bind_r (usage_from_anthropic_payload (dict_get payload ''usage'')) (\<lambda>usage.
       bind_r (mk_message ASSISTANT content None None tool_calls) (\<lambda>output.
       mk_generation_response response_id (str_or payload ''model'' (gr_model req)) output usage False)))))))"

definition anthropic_generate :: "'u adapter \<Rightarrow> generation_request \<Rightarrow> 'u \<Rightarrow> (exn + generation_response) \<times> 'u" where
  "anthropic_generate a req u = (case anthropic_request a req False of
     Inl e \<Rightarrow> (Inl e, u)
   | Inr request \<Rightarrow>
      (case post_json AnthropicProviderError ''Anthropic'' (ad_http_client a) request u of
         (Inl e, u') \<Rightarrow> (Inl e, u')
       | (Inr payload, u') \<Rightarrow> (from_anthropic_payload payload req, u')))"

section \<open>The stream\<close>

text \<open>The token counts arrive apart, so the loop keeps them beside the rest of its state.\<close>

record anthropic_state =
  an_stream :: stream_state
  an_input_tokens :: "int option"
  an_output_tokens :: "int option"

definition anthropic_start :: "generation_request \<Rightarrow> anthropic_state" where
  "anthropic_start req = \<lparr>an_stream = stream_start req, an_input_tokens = None, an_output_tokens = None\<rparr>"

text \<open>A count that is an integer replaces the one known so far.\<close>

definition known_count :: "(string, json) dict option \<Rightarrow> string \<Rightarrow> int option \<Rightarrow> int option" where
  "known_count usage_payload key old = (case usage_payload of None \<Rightarrow> old
     | Some u \<Rightarrow> (case get_int u key of Some n \<Rightarrow> Some n | None \<Rightarrow> old))"

definition message_start :: "(string, json) dict \<Rightarrow> anthropic_state \<Rightarrow> anthropic_state flow" where
  "message_start payload st = (case get_obj payload ''message'' of
     None \<Rightarrow> Fail (anthropic_err ''Anthropic stream message_start is invalid'')
   | Some m \<Rightarrow> Go (st\<lparr>
       an_stream := (an_stream st)\<lparr>ss_id := str_or m ''id'' (ss_id (an_stream st)), ss_model := str_or m ''model'' (ss_model (an_stream st))\<rparr>,
       an_input_tokens := known_count (get_obj m ''usage'') ''input_tokens'' (an_input_tokens st)\<rparr>))"

definition delta_text :: "(string, json) dict \<Rightarrow> string option" where
  "delta_text payload = (case get_obj payload ''delta'' of
     Some delta \<Rightarrow> (if block_type_is delta ''text_delta'' then get_str delta ''text'' else None) | None \<Rightarrow> None)"

definition content_block_delta ::
    "(string, json) dict \<Rightarrow> anthropic_state \<Rightarrow> generation_delta list \<times> anthropic_state flow" where
  "content_block_delta payload st =
     (case emit_text AnthropicProviderError ''Anthropic'' (delta_text payload) (an_stream st) of
        (ds, Fail e) \<Rightarrow> (ds, Fail e)
      | (ds, Stop s) \<Rightarrow> (ds, Stop (st\<lparr>an_stream := s\<rparr>))
      | (ds, Go s) \<Rightarrow> (ds, Go (st\<lparr>an_stream := s\<rparr>)))"

definition message_delta :: "(string, json) dict \<Rightarrow> anthropic_state \<Rightarrow> anthropic_state" where
  "message_delta payload st =
     st\<lparr>an_output_tokens := known_count (get_obj payload ''usage'') ''output_tokens'' (an_output_tokens st)\<rparr>"

text \<open>\<open>event_name or payload.get("type")\<close>: an empty event name counts as none.\<close>

definition event_type :: "string option \<Rightarrow> (string, json) dict \<Rightarrow> json option" where
  "event_type event_name payload = (case event_name of Some (c # cs) \<Rightarrow> Some (JStr (c # cs)) | _ \<Rightarrow> dict_get payload ''type'')"

definition anthropic_step :: "anthropic_state event_step" where
  "anthropic_step ev st = (case ev of (event_name, data) \<Rightarrow>
     (case chunk_payload AnthropicProviderError ''Anthropic'' data of
        Inl e \<Rightarrow> ([], Fail e)
      | Inr payload \<Rightarrow>
         (let kind = event_type event_name payload in
          if kind = Some (JStr ''message_start'') then ([], message_start payload st)
          else if kind = Some (JStr ''content_block_delta'') then content_block_delta payload st
          else if kind = Some (JStr ''message_delta'') then ([], Go (message_delta payload st))
          else ([], Go st))))"

definition anthropic_usage :: "anthropic_state \<Rightarrow> exn + token_usage option" where
  "anthropic_usage st = (case (an_input_tokens st, an_output_tokens st) of
     (Some i, Some n) \<Rightarrow> map_r Some (mk_token_usage i n)
   | (None, None) \<Rightarrow> Inr None
   | _ \<Rightarrow> Inl (anthropic_err ''Anthropic response usage is invalid''))"

definition anthropic_finish :: "anthropic_state \<Rightarrow> exn + generation_response" where
  "anthropic_finish st =
     bind_r (err_unless AnthropicProviderError (\<not> blank (ss_id (an_stream st))) ''Anthropic stream is missing a valid id'') (\<lambda>_.
     bind_r (anthropic_usage st) (\<lambda>usage. complete_stream ((an_stream st)\<lparr>ss_usage := usage\<rparr>)))"

definition anthropic_stream :: "'u adapter \<Rightarrow> generation_request \<Rightarrow> 'u \<Rightarrow> (stream_event list \<times> exn option) \<times> 'u" where
  "anthropic_stream a req u = (case anthropic_request a req True of
     Inl e \<Rightarrow> (([], Some e), u)
   | Inr request \<Rightarrow> stream_json AnthropicProviderError ''Anthropic'' (ad_http_client a) request
       anthropic_step (anthropic_start req) anthropic_finish u)"

definition anthropic_provider :: "'u adapter \<Rightarrow> 'u model_provider" where
  "anthropic_provider a = \<lparr>mp_generate = anthropic_generate a, mp_stream = anthropic_stream a\<rparr>"

section \<open>The adapter meets the contract\<close>

lemma anthropic_tool_use_raises: "raises_only (own_error AnthropicProviderError) (anthropic_tool_use call)"
  by (auto simp: anthropic_tool_use_def split: option.split json.split)

lemma to_anthropic_message_raises: "raises_only (own_error AnthropicProviderError) (to_anthropic_message m)"
  by (auto simp: to_anthropic_message_def intro!: raises_only_map raises_only_traverse anthropic_tool_use_raises)

lemma anthropic_request_raises: "raises_only (own_error AnthropicProviderError) (anthropic_request a req streaming)"
  by (auto simp: anthropic_request_def to_anthropic_body_def split: prod.split
      intro!: raises_only_map raises_only_bind raising raises_only_traverse to_anthropic_message_raises)

lemma usage_from_anthropic_raises: "raises_only (own_or_malformed AnthropicProviderError) (usage_from_anthropic_payload j)"
  by (auto simp: usage_from_anthropic_payload_def raising split: json.split option.split intro!: raises_only_map)

lemma text_from_blocks_raises: "raises_only (own_or_malformed AnthropicProviderError) (text_from_content_blocks j)"
proof -
  have "raises_only (own_or_malformed AnthropicProviderError) (anthropic_block_text b)" for b
    by (auto simp: anthropic_block_text_def split: json.split option.split)
  then show ?thesis
    by (auto simp: text_from_content_blocks_def split: json.split option.split list.split
        simp del: traverse.simps intro!: raises_only_map raises_only_traverse)
qed

lemma tool_calls_from_anthropic_raises: "raises_only (own_or_malformed AnthropicProviderError) (tool_calls_from_anthropic j)"
proof -
  have "raises_only (own_or_malformed AnthropicProviderError) (call_from_anthropic b)" for b
    by (auto simp: call_from_anthropic_def Let_def raising split: json.split option.split)
  then show ?thesis
    by (auto simp: tool_calls_from_anthropic_def split: json.split option.split intro!: raises_only_traverse)
qed

lemma anthropic_calls_ok: "tool_calls_from_anthropic j = Inr calls \<Longrightarrow> \<forall>c\<in>set calls. tool_call_ok c"
  by (auto simp: tool_calls_from_anthropic_def call_from_anthropic_def Let_def mk_tool_call_Inr
      dest!: traverse_mem split: option.splits json.splits)

lemma anthropic_usage_ok: "usage_from_anthropic_payload j = Inr (Some u) \<Longrightarrow> token_usage_ok u"
  by (auto simp: usage_from_anthropic_payload_def map_r_eq_Inr mk_token_usage_Inr split: option.splits json.splits)

lemma from_anthropic_payload_raises: "raises_only (own_error AnthropicProviderError) (from_anthropic_payload payload req)"
  unfolding from_anthropic_payload_def
  by (auto intro!: except_malformed_raises raises_only_bind raising text_from_blocks_raises
      tool_calls_from_anthropic_raises usage_from_anthropic_raises split: option.split)

lemma from_anthropic_payload_built: "from_anthropic_payload payload req = Inr r \<Longrightarrow> built_here r"
  by (auto simp: from_anthropic_payload_def bind_r_eq_Inr split: option.splits
      intro: built_hereI dest: anthropic_calls_ok anthropic_usage_ok)

lemma anthropic_generate_ok: "generate_outcome_ok AnthropicProviderError (fst (anthropic_generate a req u))"
proof (cases "anthropic_request a req False")
  case (Inl e)
  with anthropic_request_raises [of a req False] show ?thesis by (simp add: anthropic_generate_def generate_outcome_ok_def)
next
  case (Inr request)
  show ?thesis
  proof (rule generate_outcome_of)
    show "raises_only (own_error AnthropicProviderError) (fst (anthropic_generate a req u))"
      using Inr post_json_raises [of AnthropicProviderError "''Anthropic''" "ad_http_client a" request u]
        from_anthropic_payload_raises [of _ req]
      by (auto simp: anthropic_generate_def split: prod.split sum.split)
  qed (use Inr in \<open>auto simp: anthropic_generate_def from_anthropic_payload_built split: prod.splits sum.splits\<close>)
qed

lemma anthropic_step_cases:
  assumes "anthropic_step ev st = (ds, r)"
  shows "round_ok AnthropicProviderError (an_stream st)
    (ds, case r of Fail e \<Rightarrow> Fail e | Stop st' \<Rightarrow> Stop (an_stream st') | Go st' \<Rightarrow> Go (an_stream st'))"
proof -
  obtain event_name data where ev: "ev = (event_name, data)" by (cases ev)
  have start: "round_ok AnthropicProviderError (an_stream st)
      ([], case message_start payload st of Fail e \<Rightarrow> Fail e | Stop st' \<Rightarrow> Stop (an_stream st') | Go st' \<Rightarrow> Go (an_stream st'))" for payload
    by (auto simp: message_start_def round_ok_def state_ok_def split: option.split)
  have stays: "round_ok AnthropicProviderError (an_stream st) ([], Go (an_stream st))" by (simp add: round_ok_def)
  have delta: "round_ok AnthropicProviderError (an_stream st)
      (case content_block_delta payload st of (ds, r) \<Rightarrow>
        (ds, case r of Fail e \<Rightarrow> Fail e | Stop st' \<Rightarrow> Stop (an_stream st') | Go st' \<Rightarrow> Go (an_stream st')))" for payload
    using emit_text_round [of "an_stream st" "an_stream st" AnthropicProviderError "''Anthropic''" "delta_text payload"]
    by (auto simp: content_block_delta_def split: prod.splits flow.splits)
  show ?thesis
  proof (cases "chunk_payload AnthropicProviderError ''Anthropic'' data")
    case (Inl e)
    with chunk_payload_raises [of AnthropicProviderError "''Anthropic''" data] assms ev show ?thesis
      by (auto simp: anthropic_step_def)
  next
    case (Inr payload)
    with assms ev start [of payload] stays delta [of payload] show ?thesis
      by (auto simp: anthropic_step_def Let_def message_delta_def split: if_splits)
  qed
qed

lemma anthropic_finish_raises: "raises_only (own_or_validation AnthropicProviderError) (anthropic_finish st)"
proof -
  have "raises_only (own_or_validation AnthropicProviderError) (anthropic_usage st)"
    by (auto simp: anthropic_usage_def split: option.split intro!: raises_only_map raising)
  then show ?thesis unfolding anthropic_finish_def by (intro raises_only_bind raising)
qed

lemma anthropic_finish_ok:
  assumes "anthropic_finish st = Inr r"
  shows "built_here r \<and> msg_content (rs_output r) = concat (ss_assembled (an_stream st)) \<and> msg_tool_calls (rs_output r) = []"
proof -
  obtain usage where u: "anthropic_usage st = Inr usage"
    and r: "complete_stream ((an_stream st)\<lparr>ss_usage := usage\<rparr>) = Inr r"
    using assms by (auto simp: anthropic_finish_def bind_r_eq_Inr)
  from u have "state_ok ((an_stream st)\<lparr>ss_usage := usage\<rparr>)"
    by (auto simp: anthropic_usage_def state_ok_def map_r_eq_Inr mk_token_usage_Inr split: option.splits)
  from complete_stream_ok [OF r this] show ?thesis by simp
qed

interpretation anthropic_loop: event_loop AnthropicProviderError anthropic_step "anthropic_start req" anthropic_finish
    "\<lambda>st. concat (ss_assembled (an_stream st))" "\<lambda>st. state_ok (an_stream st)" for req
proof
  fix ev st ds fl st'
  assume "anthropic_step ev st = (ds, fl)" "fl = Go st' \<or> fl = Stop st'" "state_ok (an_stream st)"
  then show "state_ok (an_stream st') \<and>
      concat (ss_assembled (an_stream st')) = concat (ss_assembled (an_stream st)) @ concat (map gd_content ds)"
    using anthropic_step_cases [of ev st ds fl] by (auto simp: round_ok_def)
next
  fix ev st ds e
  assume "anthropic_step ev st = (ds, Fail e)"
  from anthropic_step_cases [OF this] show "own_or_validation AnthropicProviderError e" by simp
next
  fix st e
  assume "anthropic_finish st = Inl e"
  with anthropic_finish_raises [of st] show "own_or_validation AnthropicProviderError e" by (simp add: raises_only_def)
qed (auto simp: anthropic_start_def stream_start_def state_ok_def dest: anthropic_finish_ok)

lemma anthropic_stream_ok:
  assumes "fst (anthropic_stream a req u) = (evs, failure)"
  shows "stream_outcome_ok AnthropicProviderError evs failure"
proof (cases "anthropic_request a req True")
  case (Inl e)
  with assms anthropic_request_raises [of a req True] show ?thesis
    by (auto simp: anthropic_stream_def stream_outcome_ok_def own_or_validation_def)
next
  case (Inr request)
  then show ?thesis using assms
    by (cases "anthropic_stream a req u") (auto simp: anthropic_stream_def dest: anthropic_loop.stream_json_ok)
qed

interpretation anthropic: sound_provider AnthropicProviderError "anthropic_provider a" messages_ok for a :: "'u adapter"
  by unfold_locales (auto simp: anthropic_provider_def anthropic_generate_ok dest: anthropic_stream_ok)

end
