(* ===== verification/Gemini.thy ===== *)
theory Gemini
  imports Upstream
begin

text \<open>
  The Gemini generateContent adapter, \<open>providers/gemini/adapter.py\<close>: contents and parts of the request
  body, the reading of a response and of a streamed reply, and the two calls. Gemini has no identifiers
  for function calls; the adapter makes them from position and name. \<open>gemini_provider\<close> meets the
  contract \<open>sound_provider\<close> on requests whose messages are valid.
\<close>

abbreviation gemini_err :: "string \<Rightarrow> exn" where
  "gemini_err \<equiv> provider_err GeminiProviderError"

definition DEFAULT_GEMINI_BASE_URL :: string where
  "DEFAULT_GEMINI_BASE_URL = ''https://generativelanguage.googleapis.com''"

definition GEMINI_GENERATE_PATH :: string where
  "GEMINI_GENERATE_PATH = ''/v1beta/models''"

definition mk_gemini :: "string \<Rightarrow> 'u http_client \<Rightarrow> string option \<Rightarrow> exn + 'u adapter" where
  "mk_gemini api_key client base_url =
     mk_adapter GeminiProviderError api_key client (case base_url of None \<Rightarrow> DEFAULT_GEMINI_BASE_URL | Some b \<Rightarrow> b)"

section \<open>The request\<close>

definition gemini_role :: "message_role \<Rightarrow> string" where
  "gemini_role role = (if role = ASSISTANT then ''model'' else if role = TOOL then ''user'' else role_value role)"

definition gemini_function_call :: "tool_call \<Rightarrow> exn + json" where
  "gemini_function_call call = (case loads (tc_arguments call) of
     None \<Rightarrow> Inl (gemini_err ''tool call arguments must be valid JSON'')
   | Some (JObj args) \<Rightarrow> Inr (JObj [(''functionCall'', JObj [(''name'', JStr (tc_name call)), (''args'', JObj args)])])
   | Some _ \<Rightarrow> Inl (gemini_err ''tool call arguments must be a JSON object''))"

text \<open>The content of a tool message is sent as it is when it is a JSON object, else wrapped.\<close>

definition tool_result_payload :: "string \<Rightarrow> json" where
  "tool_result_payload content = (case loads content of Some (JObj kvs) \<Rightarrow> JObj kvs | _ \<Rightarrow> JObj [(''result'', JStr content)])"

definition gemini_parts :: "message \<Rightarrow> exn + json list" where
  "gemini_parts m =
     (if msg_role m = TOOL then
        (case (if \<not> blank_opt (msg_name m) then msg_name m else msg_tool_call_id m) of
           None \<Rightarrow> Inl PyAssertionError
         | Some name \<Rightarrow> Inr [JObj [(''functionResponse'', JObj [(''name'', JStr name),
             (''response'', tool_result_payload (msg_content m))])]])
      else if msg_tool_calls m \<noteq> [] then
        map_r (\<lambda>calls. (if \<not> blank (msg_content m) then [JObj [(''text'', JStr (msg_content m))]] else []) @ calls)
          (traverse gemini_function_call (msg_tool_calls m))
      else Inr [JObj [(''text'', JStr (msg_content m))]])"

definition gemini_content :: "message \<Rightarrow> exn + json" where
  "gemini_content m = map_r (\<lambda>parts. JObj [(''role'', JStr (gemini_role (msg_role m))), (''parts'', JArr parts)]) (gemini_parts m)"

definition generation_config :: "generation_request \<Rightarrow> (string \<times> json) list" where
  "generation_config req = opt_field ''temperature'' JFloat (gr_temperature req) @
     opt_field ''maxOutputTokens'' JInt (gr_max_output_tokens req)"

definition gemini_tool :: "tool_definition \<Rightarrow> json" where
  "gemini_tool t = JObj [(''name'', JStr (td_name t)), (''description'', JStr (td_description t)), (''parameters'', td_parameters t)]"

definition to_gemini_body :: "generation_request \<Rightarrow> exn + json" where
  "to_gemini_body req = (case split_system_messages req of (system, conversation) \<Rightarrow>
     bind_r (err_unless GeminiProviderError (conversation \<noteq> []) ''messages must contain at least one non-system message'') (\<lambda>_.
     map_r (\<lambda>contents. JObj
       ([(''contents'', JArr contents)] @
        opt_field ''systemInstruction'' (\<lambda>s. JObj [(''parts'', JArr [JObj [(''text'', JStr s)]])]) system @
        (if generation_config req \<noteq> [] then [(''generationConfig'', JObj (generation_config req))] else []) @
        (if gr_tools req \<noteq> [] then [(''tools'', JArr [JObj [(''functionDeclarations'', JArr (map gemini_tool (gr_tools req)))]])] else [])))
       (traverse gemini_content conversation)))"

text \<open>The two calls differ in the method of the URL and the query.\<close>

definition gemini_request :: "'u adapter \<Rightarrow> generation_request \<Rightarrow> string \<Rightarrow> (string \<times> string) list \<Rightarrow> exn + http_request" where
  "gemini_request a req meth params = map_r (\<lambda>body. \<lparr>
     hq_url = ad_base_url a @ GEMINI_GENERATE_PATH @ ''/'' @ gr_model req @ meth, hq_params = params,
     hq_headers = [(''x-goog-api-key'', ad_api_key a), (''Content-Type'', ''application/json'')],
     hq_json = body\<rparr>) (to_gemini_body req)"

section \<open>The response\<close>

text \<open>\<open>enumerate\<close> counts every part, those that hold no call too.\<close>

definition call_from_gemini :: "nat \<Rightarrow> json \<Rightarrow> exn + tool_call list" where
  "call_from_gemini index part = (case part of
     JObj p \<Rightarrow>
       (case dict_get p ''functionCall'' of None \<Rightarrow> Inr []
        | Some (JObj function_call) \<Rightarrow>
            (case (get_str function_call ''name'', get_obj function_call ''args'') of
               (Some name, Some args) \<Rightarrow>
                 map_r (\<lambda>c. [c]) (mk_tool_call (''call_'' @ str_of_nat index @ ''_'' @ name) name (dumps_compact (JObj args)))
             | _ \<Rightarrow> Inl (gemini_err ''Gemini response functionCall is invalid''))
        | Some _ \<Rightarrow> Inl (gemini_err ''Gemini response functionCall is invalid''))
   | _ \<Rightarrow> Inr [])"

definition tool_calls_from_gemini :: "json option \<Rightarrow> exn + tool_call list" where
  "tool_calls_from_gemini parts = (case parts of
     Some (JArr ps) \<Rightarrow> map_r concat (traverse (\<lambda>(i, p). call_from_gemini i p) (enumerate 0 ps))
   | _ \<Rightarrow> Inr [])"

text \<open>The texts of one part; thoughts and parts without text have none.\<close>

definition gemini_part_texts :: "json \<Rightarrow> exn + string list" where
  "gemini_part_texts part = (case part of
     JObj p \<Rightarrow> (if dict_get p ''thought'' = Some (JBool True) \<or> get_none p ''text'' then Inr []
       else case get_str p ''text'' of Some t \<Rightarrow> Inr [t]
         | None \<Rightarrow> Inl (gemini_err ''Gemini response text part is missing text''))
   | _ \<Rightarrow> Inl (gemini_err ''Gemini response content part is invalid''))"

definition text_from_parts :: "json option \<Rightarrow> exn + string" where
  "text_from_parts parts = (case parts of
     Some (JArr (p # ps)) \<Rightarrow>
       bind_r (map_r concat (traverse gemini_part_texts (p # ps))) (\<lambda>texts.
       bind_r (err_unless GeminiProviderError (texts \<noteq> []) ''Gemini response is missing text content'') (\<lambda>_.
       Inr (concat texts)))
   | _ \<Rightarrow> Inl (gemini_err ''Gemini response is missing content parts''))"

definition optional_text_from_parts :: "json option \<Rightarrow> exn + string" where
  "optional_text_from_parts parts = (case parts of
     Some (JArr ps) \<Rightarrow> map_r (\<lambda>tss. concat (concat tss)) (traverse gemini_part_texts ps) | _ \<Rightarrow> Inr [])"

definition gemini_candidate :: "(string, json) dict \<Rightarrow> exn + (string, json) dict" where
  "gemini_candidate payload = (case get_list payload ''candidates'' of
     Some (JObj first_candidate # _) \<Rightarrow>
       (case get_obj first_candidate ''content'' of Some content \<Rightarrow> Inr content
        | None \<Rightarrow> Inl (gemini_err ''Gemini response candidate is missing content''))
   | Some (_ # _) \<Rightarrow> Inl (gemini_err ''Gemini response candidate is invalid'')
   | _ \<Rightarrow> Inl (gemini_err ''Gemini response is missing candidates''))"

definition gemini_usage :: "(string, json) dict \<Rightarrow> exn + token_usage option" where
  "gemini_usage payload = (case get_obj payload ''usageMetadata'' of None \<Rightarrow> Inr None
   | Some u \<Rightarrow> (case (get_int u ''promptTokenCount'', get_int u ''candidatesTokenCount'') of
       (Some input_tokens, Some output_tokens) \<Rightarrow> map_r Some (mk_token_usage input_tokens output_tokens)
     | _ \<Rightarrow> Inl (gemini_err ''Gemini response usage is invalid'')))"

definition from_gemini_payload :: "(string, json) dict \<Rightarrow> generation_request \<Rightarrow> exn + generation_response" where
  "from_gemini_payload payload req = except_malformed GeminiProviderError ''Gemini''
     (case get_str payload ''responseId'' of None \<Rightarrow> Inl (gemini_err ''Gemini response is missing a valid id'') | Some response_id \<Rightarrow>
       bind_r (err_unless GeminiProviderError (\<not> blank response_id) ''Gemini response is missing a valid id'') (\<lambda>_.
       bind_r (gemini_candidate payload) (\<lambda>content.
       bind_r (optional_text_from_parts (dict_get content ''parts'')) (\<lambda>output_text.
       bind_r (tool_calls_from_gemini (dict_get content ''parts'')) (\<lambda>tool_calls.
       bind_r (err_unless GeminiProviderError (\<not> blank output_text \<or> tool_calls \<noteq> []) ''Gemini response is missing text content'') (\<lambda>_.
       bind_r (gemini_usage payload) (\<lambda>usage.
       bind_r (mk_message ASSISTANT output_text None None tool_calls) (\<lambda>output.
       mk_generation_response response_id (str_or payload ''modelVersion'' (gr_model req)) output usage False))))))))"

definition gemini_generate :: "'u adapter \<Rightarrow> generation_request \<Rightarrow> 'u \<Rightarrow> (exn + generation_response) \<times> 'u" where
  "gemini_generate a req u = (case gemini_request a req '':generateContent'' [] of
     Inl e \<Rightarrow> (Inl e, u)
   | Inr request \<Rightarrow>
      (case post_json GeminiProviderError ''Gemini'' (ad_http_client a) request u of
         (Inl e, u') \<Rightarrow> (Inl e, u')
       | (Inr payload, u') \<Rightarrow> (from_gemini_payload payload req, u')))"

section \<open>The stream\<close>

definition gemini_chunk_text :: "(string, json) dict \<Rightarrow> exn + string option" where
  "gemini_chunk_text payload = (case get_list payload ''candidates'' of
     Some (JObj first_candidate # _) \<Rightarrow>
       (case get_obj first_candidate ''content'' of None \<Rightarrow> Inr None
        | Some content \<Rightarrow> map_r Some (optional_text_from_parts (dict_get content ''parts'')))
   | Some (_ # _) \<Rightarrow> Inl (gemini_err ''Gemini stream candidate is invalid'')
   | _ \<Rightarrow> Inr None)"

definition gemini_usage_step :: "(string, json) dict \<Rightarrow> stream_state \<Rightarrow> stream_state flow" where
  "gemini_usage_step payload st = (case get_obj payload ''usageMetadata'' of None \<Rightarrow> Go st
   | Some u \<Rightarrow> (case (get_int u ''promptTokenCount'', get_int u ''candidatesTokenCount'') of
       (Some input_tokens, Some output_tokens) \<Rightarrow> (case mk_token_usage input_tokens output_tokens of
           Inl e \<Rightarrow> Fail e | Inr usage \<Rightarrow> Go (st\<lparr>ss_usage := Some usage\<rparr>))
     | _ \<Rightarrow> if get_none u ''promptTokenCount'' \<and> get_none u ''candidatesTokenCount'' then Go st
            else Fail (gemini_err ''Gemini response usage is invalid'')))"

definition gemini_step :: "stream_state event_step" where
  "gemini_step ev st = (case ev of (_, data) \<Rightarrow>
     (case chunk_payload GeminiProviderError ''Gemini'' data of
        Inl e \<Rightarrow> ([], Fail e)
      | Inr payload \<Rightarrow>
         (let st1 = st\<lparr>ss_id := str_or payload ''responseId'' (ss_id st), ss_model := str_or payload ''modelVersion'' (ss_model st)\<rparr> in
          case gemini_chunk_text payload of
            Inl e \<Rightarrow> ([], Fail e)
          | Inr content \<Rightarrow> then_flow (emit_text GeminiProviderError ''Gemini'' content st1) (gemini_usage_step payload))))"

definition gemini_finish :: "stream_state \<Rightarrow> exn + generation_response" where
  "gemini_finish st =
     bind_r (err_unless GeminiProviderError (\<not> blank (ss_id st)) ''Gemini stream is missing a valid id'') (\<lambda>_. complete_stream st)"

definition gemini_stream :: "'u adapter \<Rightarrow> generation_request \<Rightarrow> 'u \<Rightarrow> (stream_event list \<times> exn option) \<times> 'u" where
  "gemini_stream a req u = (case gemini_request a req '':streamGenerateContent'' [(''alt'', ''sse'')] of
     Inl e \<Rightarrow> (([], Some e), u)
   | Inr request \<Rightarrow> stream_json GeminiProviderError ''Gemini'' (ad_http_client a) request
       gemini_step (stream_start req) gemini_finish u)"

definition gemini_provider :: "'u adapter \<Rightarrow> 'u model_provider" where
  "gemini_provider a = \<lparr>mp_generate = gemini_generate a, mp_stream = gemini_stream a\<rparr>"

section \<open>The adapter meets the contract\<close>

lemma gemini_function_call_raises: "raises_only (own_error GeminiProviderError) (gemini_function_call call)"
  by (auto simp: gemini_function_call_def split: option.split json.split)

lemma gemini_content_raises: "message_ok m \<Longrightarrow> raises_only (own_error GeminiProviderError) (gemini_content m)"
proof -
  assume m: "message_ok m"
  have calls: "raises_only (own_error GeminiProviderError) (traverse gemini_function_call cs)" for cs
    by (intro raises_only_traverse gemini_function_call_raises)
  show ?thesis
  proof (cases "msg_role m = TOOL")
    case True
    with m obtain i where "msg_tool_call_id m = Some i" by (auto simp: message_ok_def blank_opt_def split: option.splits)
    then show ?thesis
      using True by (cases "msg_name m") (simp_all add: gemini_content_def gemini_parts_def blank_opt_def)
  next
    case False
    then show ?thesis unfolding gemini_content_def gemini_parts_def
      by (auto intro!: raises_only_map calls)
  qed
qed

lemma gemini_request_raises:
  "messages_ok req \<Longrightarrow> raises_only (own_error GeminiProviderError) (gemini_request a req meth params)"
  by (auto simp: gemini_request_def to_gemini_body_def split_system_messages_def Let_def messages_ok_def
      intro!: raises_only_map raises_only_bind raising raises_only_traverse gemini_content_raises)

lemma part_texts_raises:
  "raises_only (own_or_malformed GeminiProviderError) (gemini_part_texts p)"
  "raises_only (own_or_validation GeminiProviderError) (gemini_part_texts p)"
  by (auto simp: gemini_part_texts_def split: json.split option.split)

lemma optional_text_raises:
  "raises_only (own_or_malformed GeminiProviderError) (optional_text_from_parts j)"
  "raises_only (own_or_validation GeminiProviderError) (optional_text_from_parts j)"
  by (auto simp: optional_text_from_parts_def split: json.split option.split
      intro!: raises_only_map raises_only_traverse part_texts_raises)

lemma tool_calls_from_gemini_raises: "raises_only (own_or_malformed GeminiProviderError) (tool_calls_from_gemini j)"
proof -
  have "raises_only (own_or_malformed GeminiProviderError) (call_from_gemini i p)" for i p
    by (auto simp: call_from_gemini_def split: json.split option.split intro!: raises_only_map raising)
  then show ?thesis
    by (auto simp: tool_calls_from_gemini_def split: json.split option.split intro!: raises_only_map raises_only_traverse)
qed

lemma gemini_calls_ok:
  assumes "tool_calls_from_gemini j = Inr calls"
  shows "\<forall>c\<in>set calls. tool_call_ok c"
proof -
  have "call_from_gemini i p = Inr cs \<Longrightarrow> c \<in> set cs \<Longrightarrow> tool_call_ok c" for i p cs c
    by (auto simp: call_from_gemini_def map_r_eq_Inr mk_tool_call_Inr split: json.splits option.splits)
  then have each: "\<forall>c\<in>set cs. tool_call_ok c" if "(\<lambda>(i, p). call_from_gemini i p) ip = Inr cs" for ip cs
    using that by (auto split: prod.splits)
  have mem: "\<exists>cs\<in>set css. c \<in> set cs" if "c \<in> set (concat css)" for c :: tool_call and css using that by simp
  show ?thesis
  proof
    fix c
    assume c: "c \<in> set calls"
    show "tool_call_ok c"
    proof (cases "\<exists>ps. j = Some (JArr ps)")
      case True
      then obtain ps css where "traverse (\<lambda>(i, p). call_from_gemini i p) (enumerate 0 ps) = Inr css" "calls = concat css"
        using assms by (auto simp: tool_calls_from_gemini_def map_r_eq_Inr)
      with mem [of c css] c each show ?thesis by (blast dest: traverse_mem)
    next
      case False
      with assms c show ?thesis by (auto simp: tool_calls_from_gemini_def split: option.splits json.splits)
    qed
  qed
qed

lemma gemini_usage_raises: "raises_only (own_or_malformed GeminiProviderError) (gemini_usage payload)"
  by (auto simp: gemini_usage_def split: option.split intro!: raises_only_map raising)

lemma gemini_usage_ok: "gemini_usage payload = Inr (Some u) \<Longrightarrow> token_usage_ok u"
  by (auto simp: gemini_usage_def map_r_eq_Inr mk_token_usage_Inr split: option.splits)

lemma gemini_candidate_raises: "raises_only (own_or_malformed GeminiProviderError) (gemini_candidate payload)"
  by (auto simp: gemini_candidate_def split: json.split option.split list.split)

lemma from_gemini_payload_raises: "raises_only (own_error GeminiProviderError) (from_gemini_payload payload req)"
  unfolding from_gemini_payload_def
  by (auto intro!: except_malformed_raises raises_only_bind raising gemini_candidate_raises optional_text_raises
      tool_calls_from_gemini_raises gemini_usage_raises split: option.split)

lemma from_gemini_payload_built: "from_gemini_payload payload req = Inr r \<Longrightarrow> built_here r"
  by (auto simp: from_gemini_payload_def bind_r_eq_Inr split: option.splits
      intro: built_hereI dest: gemini_calls_ok gemini_usage_ok)

lemma gemini_generate_ok:
  assumes "messages_ok req"
  shows "generate_outcome_ok GeminiProviderError (fst (gemini_generate a req u))"
proof (cases "gemini_request a req '':generateContent'' []")
  case (Inl e)
  with gemini_request_raises [OF assms, of a "'':generateContent''" "[]"] show ?thesis
    by (simp add: gemini_generate_def generate_outcome_ok_def)
next
  case (Inr request)
  show ?thesis
  proof (rule generate_outcome_of)
    show "raises_only (own_error GeminiProviderError) (fst (gemini_generate a req u))"
      using Inr post_json_raises [of GeminiProviderError "''Gemini''" "ad_http_client a" request u]
        from_gemini_payload_raises [of _ req]
      by (auto simp: gemini_generate_def split: prod.split sum.split)
  qed (use Inr in \<open>auto simp: gemini_generate_def from_gemini_payload_built split: prod.splits sum.splits\<close>)
qed

lemma gemini_chunk_text_raises: "raises_only (own_or_validation GeminiProviderError) (gemini_chunk_text payload)"
  by (auto simp: gemini_chunk_text_def split: json.split option.split list.split intro!: raises_only_map optional_text_raises)

lemma gemini_usage_step_late: "late_ok GeminiProviderError st (gemini_usage_step payload st)"
  using validating_raise(3)
  by (auto simp: late_ok_def gemini_usage_step_def state_ok_def mk_token_usage_Inr raises_only_def own_or_validation_def
      split: option.split sum.split)

lemma gemini_step_round: "round_ok GeminiProviderError st (gemini_step ev st)"
proof -
  have "round_ok GeminiProviderError st (case gemini_chunk_text payload of Inl e \<Rightarrow> ([], Fail e)
      | Inr content \<Rightarrow> then_flow (emit_text GeminiProviderError ''Gemini'' content (st\<lparr>ss_id := i, ss_model := m\<rparr>)) (gemini_usage_step payload))"
    for payload i m
    using gemini_chunk_text_raises [of payload]
    by (cases "gemini_chunk_text payload") (auto intro!: then_flow_round emit_text_round gemini_usage_step_late)
  then show ?thesis
    using chunk_payload_raises [of GeminiProviderError "''Gemini''" "snd ev"]
    by (cases "chunk_payload GeminiProviderError ''Gemini'' (snd ev)") (auto simp: gemini_step_def Let_def split: prod.split)
qed

lemma gemini_finish_raises: "raises_only (own_or_validation GeminiProviderError) (gemini_finish st)"
  unfolding gemini_finish_def by (intro raises_only_bind raising)

interpretation gemini_loop: event_loop GeminiProviderError gemini_step "stream_start req" gemini_finish
    "\<lambda>st. concat (ss_assembled st)" state_ok for req
  by (intro state_loop gemini_step_round gemini_finish_raises) (simp add: gemini_finish_def bind_r_eq_Inr)

lemma gemini_stream_ok:
  assumes "messages_ok req" and "fst (gemini_stream a req u) = (evs, failure)"
  shows "stream_outcome_ok GeminiProviderError evs failure"
proof (cases "gemini_request a req '':streamGenerateContent'' [(''alt'', ''sse'')]")
  case (Inl e)
  with assms(2) gemini_request_raises [OF assms(1), of a "'':streamGenerateContent''" "[(''alt'', ''sse'')]"] show ?thesis
    by (auto simp: gemini_stream_def stream_outcome_ok_def own_or_validation_def)
next
  case (Inr request)
  then show ?thesis using assms(2)
    by (cases "gemini_stream a req u") (auto simp: gemini_stream_def dest: gemini_loop.stream_json_ok)
qed

interpretation gemini: sound_provider GeminiProviderError "gemini_provider a" messages_ok for a :: "'u adapter"
  by unfold_locales (auto simp: gemini_provider_def gemini_generate_ok dest: gemini_stream_ok)

end
