(* ===== verification/Providers.thy ===== *)
theory Providers
  imports OpenAI Anthropic Gemini
begin

text \<open>
  The executor over the three adapters: whatever an upstream service answers, a call ends in a valid
  response or in an error the API knows, and a stream delivers its text once. Tool calls survive the way
  out and back. The last section is the one outcome the adapters let through that is not a provider error.
\<close>

section \<open>The executor over the adapters\<close>

definition is_adapter :: "'u model_provider \<Rightarrow> bool" where
  "is_adapter p \<longleftrightarrow> (\<exists>a. p = openai_provider a \<or> p = anthropic_provider a \<or> p = gemini_provider a)"

lemma adapter_sound: "is_adapter p \<Longrightarrow> \<exists>cls. sound_provider cls p messages_ok"
  using openai.sound_provider_axioms anthropic.sound_provider_axioms gemini.sound_provider_axioms
  by (auto simp: is_adapter_def)

definition only_adapters :: "'u provider_executor \<Rightarrow> bool" where
  "only_adapters x \<longleftrightarrow> (\<forall>name p. dict_get (rt_providers (px_router x)) name = Some p \<longrightarrow> is_adapter p)"

lemma route_request_ok:
  assumes "generation_request_ok req" and "messages_ok req" and "\<not> blank (mr_model r)"
  shows "\<exists>rreq. route_request r req = Inr rreq \<and> messages_ok rreq"
  using assms generation_request_ok_replace [OF assms(1,3)]
  by (auto simp: route_request_def messages_ok_def replace_model_Inr)

text \<open>What an attempt of either kind of call ends with.\<close>

lemma attempt_generate_ends:
  assumes x: "only_adapters x" and req: "generation_request_ok req" "messages_ok req"
    and r: "route_in (rt_catalog (px_router x)) r"
    and ends: "attempt_generate x hook req r s = (Ends a, s')"
  shows "(\<exists>e. a = Inl e \<and> run_hook hook r s = (Inl e, s')) \<or> (\<exists>er. a = Inr er \<and> built_here (er_response er))"
proof -
  obtain rreq where rreq: "route_request r req = Inr rreq" "messages_ok rreq"
    using route_request_ok [OF req, of r] r by (auto simp: route_in_def)
  from ends [unfolded attempt_generate_def with_route_Ends [OF r]] rreq(1)
  consider (denied) e where "run_hook hook r s = (Inl e, s')" "a = Inl e"
    | (called) s1 p where "dict_get (rt_providers (px_router x)) (mr_provider r) = Some p" "try_generate x r p rreq s1 = (Ends a, s')"
    by auto
  then show ?thesis
  proof cases
    case called
    then have "is_adapter p" using x by (simp add: only_adapters_def)
    from adapter_sound [OF this] obtain cls where "sound_provider cls p messages_ok" ..
    then have "generate_outcome_ok cls (fst (generate_with_retries x p rreq 0 s1))"
      using rreq(2) by (rule sound_provider.generate_with_retries_ok)
    with called show ?thesis
      by (cases "generate_with_retries x p rreq 0 s1")
        (auto simp: try_generate_def generate_outcome_ok_def own_error_def except_provider_def split: sum.splits exn.splits)
  qed auto
qed

lemma attempt_stream_ends:
  assumes x: "only_adapters x" and req: "generation_request_ok req" "messages_ok req"
    and r: "route_in (rt_catalog (px_router x)) r"
    and ends: "attempt_stream x hook req r s = (Ends (evs, failure), s')"
  shows "(\<exists>e. evs = [] \<and> failure = Some e \<and> run_hook hook r s = (Inl e, s')) \<or>
    (\<exists>cls. stream_outcome_ok cls (map se_payload evs) failure)"
proof -
  obtain rreq where rreq: "route_request r req = Inr rreq" "messages_ok rreq"
    using route_request_ok [OF req, of r] r by (auto simp: route_in_def)
  from ends [unfolded attempt_stream_def with_route_Ends [OF r]] rreq(1)
  consider (denied) e where "run_hook hook r s = (Inl e, s')" "evs = []" "failure = Some e"
    | (called) s1 p where "dict_get (rt_providers (px_router x)) (mr_provider r) = Some p"
        "try_stream x r p rreq s1 = (Ends (evs, failure), s')"
    by auto
  then show ?thesis
  proof cases
    case called
    then have "is_adapter p" using x by (simp add: only_adapters_def)
    from adapter_sound [OF this] obtain cls where "sound_provider cls p messages_ok" ..
    then have "case fst (stream_with_retries x p rreq 0 s1) of (evs, failure) \<Rightarrow> stream_outcome_ok cls evs failure"
      using rreq(2) by (rule sound_provider.stream_with_retries_ok)
    moreover obtain raw s2 where "stream_with_retries x p rreq 0 s1 = ((raw, failure), s2)"
        "evs = map (\<lambda>ev. \<lparr>se_payload = ev, se_route = r\<rparr>) raw"
      using called(2) by (auto simp: try_stream_def Let_def split: prod.splits option.splits if_splits)
    ultimately show ?thesis by (auto simp: comp_def)
  qed auto
qed

text \<open>The exceptions a call over the adapters may end with.\<close>

definition known_failure :: "'s route_hook option \<Rightarrow> exn \<Rightarrow> bool" where
  "known_failure hook e \<longleftrightarrow> (\<exists>err. e = ProviderErr err) \<or> (\<exists>m. e = ModelNotAvailableError m) \<or>
     (\<exists>n. e = ProviderNotRegisteredError n) \<or> (\<exists>r s. fst (run_hook hook r s) = Inl e)"

lemma exhausted_known: "length ms = length rs \<Longrightarrow> rs \<noteq> [] \<Longrightarrow> known_failure hook (exhausted m rs ms)"
  by (auto simp: exhausted_spec known_failure_def split: option.split list.split)

lemma hook_known: "run_hook hook r t = (Inl e, s') \<Longrightarrow> known_failure hook e"
proof -
  assume "run_hook hook r t = (Inl e, s')"
  then have "fst (run_hook hook r t) = Inl e" by simp
  then show ?thesis unfolding known_failure_def by blast
qed



section \<open>Sample adapters\<close>

text \<open>A client that always gives the same replies.\<close>

definition fixed_client :: "http_reply \<Rightarrow> stream_reply \<Rightarrow> 'u http_client" where
  "fixed_client reply streamed = \<lparr>hc_post = (\<lambda>req u. (Inr reply, u)), hc_stream = (\<lambda>req u. (Inr streamed, u))\<rparr>"

definition sample_adapter :: "http_reply \<Rightarrow> stream_reply \<Rightarrow> 'u adapter" where
  "sample_adapter reply streamed = \<lparr>ad_api_key = ''k'', ad_http_client = fixed_client reply streamed, ad_base_url = ''https://x''\<rparr>"

definition sample_reply :: http_reply where
  "sample_reply = \<lparr>hp_status = 200, hp_text = dumps_compact (JObj [(''id'', JStr ''r1''),
     (''choices'', JArr [JObj [(''message'', JObj [(''content'', JStr ''hi'')])]])])\<rparr>"

definition chunk_lines :: "json \<Rightarrow> string list" where
  "chunk_lines j = [''data: '' @ dumps_compact j, []]"

definition openai_chunk :: "string \<Rightarrow> string \<Rightarrow> json" where
  "openai_chunk i t = JObj [(''id'', JStr i), (''choices'', JArr [JObj [(''delta'', JObj [(''content'', JStr t)])]])]"

definition openai_usage_chunk :: "string \<Rightarrow> token_usage \<Rightarrow> json" where
  "openai_usage_chunk i us = JObj [(''id'', JStr i), (''choices'', JArr []),
     (''usage'', JObj [(''prompt_tokens'', JInt (tu_input_tokens us)), (''completion_tokens'', JInt (tu_output_tokens us))])]"

text \<open>The reply of the service to a streamed call: a chunk per text, the usage, the end mark.\<close>

definition openai_lines :: "string \<Rightarrow> string list \<Rightarrow> token_usage \<Rightarrow> string list" where
  "openai_lines i ts us = concat (map (\<lambda>t. chunk_lines (openai_chunk i t)) ts) @
     chunk_lines (openai_usage_chunk i us) @ [''data: [DONE]'', []]"

definition sample_executor :: "string list \<Rightarrow> unit provider_executor" where
  "sample_executor ts = \<lparr>
     px_router = \<lparr>rt_providers = [(''openai'', openai_provider (sample_adapter sample_reply
          \<lparr>hr_status = 200, hr_lines = openai_lines ''r1'' ts \<lparr>tu_input_tokens = 3, tu_output_tokens = 2\<rparr>, hr_broken = False\<rparr>))],
        rt_catalog = DEFAULT_MODEL_CATALOG\<rparr>,
     px_max_retries = 2, px_retry_base_delay = 0, px_failover_enabled = True,
     px_failover_catalog = DEFAULT_FAILOVER_CATALOG, px_sleep = (\<lambda>d s. s)\<rparr>"

lemma sample_executor_ok: "only_adapters (sample_executor ts)" "generation_request_ok (sample_request ''gpt-4o'')"
    "messages_ok (sample_request ''gpt-4o'')"
  by (auto simp: only_adapters_def sample_executor_def is_adapter_def dict_get_def generation_request_ok_def messages_ok_def
      uses_tools_def user_message_def message_ok_def is_space_def sample_request_def)

lemma sample_routes: "routes_for (sample_executor ts) ''gpt-4o'' =
    Inr [\<lparr>mr_model = ''gpt-4o'', mr_provider = ''openai''\<rparr>,
      \<lparr>mr_model = ''claude-3-5-sonnet-20241022'', mr_provider = ''anthropic''\<rparr>,
      \<lparr>mr_model = ''gemini-2.5-flash'', mr_provider = ''gemini''\<rparr>]"
proof -
  have "routes_for (sample_executor []) ''gpt-4o'' = routes_for (sample_executor ts) ''gpt-4o''"
    by (simp add: routes_for_def sample_executor_def)
  moreover have "routes_for (sample_executor []) ''gpt-4o'' =
    Inr [\<lparr>mr_model = ''gpt-4o'', mr_provider = ''openai''\<rparr>,
      \<lparr>mr_model = ''claude-3-5-sonnet-20241022'', mr_provider = ''anthropic''\<rparr>,
      \<lparr>mr_model = ''gemini-2.5-flash'', mr_provider = ''gemini''\<rparr>]"
    by (simp add: routes_for_def sample_executor_def resolve_route_chain_def resolve_model_route_def
        DEFAULT_MODEL_CATALOG_def DEFAULT_FAILOVER_CATALOG_def dict_get_def mk_model_route_def require_non_blank_def is_space_def Let_def)
  ultimately show ?thesis by simp
qed



section \<open>A stream is delivered piece by piece\<close>

lemma sse_scan_chunk:
  assumes "json_plain j"
  shows "sse_scan (chunk_lines j @ ls) None [] = (case sse_scan ls None [] of (evs, st) \<Rightarrow> ((None, dumps_compact j) # evs, st))"
proof -
  have "CHR 0x0D \<notin> set (''data: '' @ dumps_compact j)"
    using printable_no_controls(2) [OF printable_dumps [OF assms]] by simp
  from rstrip_char_absent [OF this] show ?thesis
    by (simp add: chunk_lines_def startswith_def rstrip_char_def lstrip_dumps [OF assms] Let_def)
qed

lemma chunk_plain: "json_plain (openai_chunk i t)" "json_plain (openai_usage_chunk i us)"
  by (simp_all add: openai_chunk_def openai_usage_chunk_def)

lemma openai_events:
  "iter_sse_events (openai_lines i ts us) =
     map (\<lambda>t. (None, dumps_compact (openai_chunk i t))) ts @ [(None, dumps_compact (openai_usage_chunk i us)), (None, ''[DONE]'')]"
proof -
  have fin: "sse_scan [''data: [DONE]'', []] None [] = ([(None, ''[DONE]'')], (None, []))" by code_simp
  have "sse_scan (openai_lines i ts us) None [] = (map (\<lambda>t. (None, dumps_compact (openai_chunk i t))) ts @
      [(None, dumps_compact (openai_usage_chunk i us)), (None, ''[DONE]'')], (None, []))"
    unfolding openai_lines_def
    by (induction ts) (simp_all add: sse_scan_chunk chunk_plain fin del: sse_scan.simps)
  then show ?thesis by (simp add: iter_sse_events_def sse_flush_def)
qed

lemma dumps_object_not_done: "dumps_compact (JObj kvs) \<noteq> ''[DONE]''"
  by simp

lemma openai_step_chunk:
  assumes "\<not> blank i" "t \<noteq> []" "\<not> blank (ss_model st)"
  shows "openai_step (None, dumps_compact (openai_chunk i t)) st =
    ([\<lparr>gd_id = i, gd_model = ss_model st, gd_content = t\<rparr>], Go (st\<lparr>ss_id := i, ss_assembled := ss_assembled st @ [t]\<rparr>))"
proof -
  have "loads (dumps_compact (openai_chunk i t)) = Some (openai_chunk i t)" by (rule loads_dumps) (rule chunk_plain)
  with assms show ?thesis
    by (simp add: openai_step_def chunk_payload_def openai_chunk_def get_simps openai_delta_def emit_text_def yield_delta_def
        then_flow_def mk_generation_delta_def openai_usage_step_def require_non_blank_ok dumps_object_not_done Let_def del: dumps_with.simps)
qed

lemma openai_step_usage:
  assumes "\<not> blank i" "token_usage_ok us"
  shows "openai_step (None, dumps_compact (openai_usage_chunk i us)) st = ([], Go (st\<lparr>ss_id := i, ss_usage := Some us\<rparr>))"
proof -
  have "loads (dumps_compact (openai_usage_chunk i us)) = Some (openai_usage_chunk i us)" by (rule loads_dumps) (rule chunk_plain)
  moreover have "mk_token_usage (tu_input_tokens us) (tu_output_tokens us) = Inr us"
    using assms(2) by (cases us) (simp add: mk_token_usage_Inr)
  ultimately show ?thesis using assms(1)
    by (simp add: openai_step_def chunk_payload_def openai_usage_chunk_def get_simps openai_delta_def emit_text_def
        then_flow_def openai_usage_step_def usage_from_openai_payload_def dumps_object_not_done Let_def del: dumps_with.simps)
qed

lemma openai_run:
  assumes "\<not> blank i" "token_usage_ok us" "\<forall>t\<in>set ts. t \<noteq> []"
  shows "\<not> blank (ss_model st) \<Longrightarrow>
    run_events openai_step (map (\<lambda>t. (None, dumps_compact (openai_chunk i t))) ts @
      [(None, dumps_compact (openai_usage_chunk i us)), (None, ''[DONE]'')]) st =
    (map (\<lambda>t. \<lparr>gd_id = i, gd_model = ss_model st, gd_content = t\<rparr>) ts,
     Stop (st\<lparr>ss_id := i, ss_assembled := ss_assembled st @ ts, ss_usage := Some us\<rparr>))"
  using assms(3)
proof (induction ts arbitrary: st)
  case Nil
  have "openai_step (None, ''[DONE]'') st' = ([], Stop st')" for st' by (simp add: openai_step_def)
  with assms(1,2) show ?case by (simp add: openai_step_usage)
next
  case (Cons t ts)
  with assms(1) show ?case by (simp add: openai_step_chunk)
qed

text \<open>The OpenAI stream is delivered piece by piece: for a reply of text chunks, a usage chunk and the
  end mark, the adapter yields one delta per chunk, in order and unchanged, and then the completed response
  with the whole text and the usage. When all the text is blank no response can be built, and the call
  fails with a validation error after the deltas.\<close>

theorem openai_stream_delivers:
  assumes "hc_stream (ad_http_client a) (openai_request a req True) u =
      (Inr \<lparr>hr_status = status, hr_lines = openai_lines i ts us, hr_broken = False\<rparr>, u')"
    and "status < 400" and "\<not> blank i" and "token_usage_ok us" and "\<not> blank (gr_model req)" and "\<forall>t\<in>set ts. t \<noteq> []"
  shows "openai_stream a req u =
    (let ds = map (\<lambda>t. Delta \<lparr>gd_id = i, gd_model = gr_model req, gd_content = t\<rparr>) ts in
     (if blank (concat ts) then (ds, Some (DomainValidationError ''content must not be empty or blank''))
      else (ds @ [Completed \<lparr>rs_id = i, rs_model = gr_model req, rs_output = assistant_message (concat ts),
              rs_usage = Some us, rs_cached = False\<rparr>], None)), u')"
proof -
  define st where "st = (stream_start req)\<lparr>ss_id := i, ss_assembled := ts, ss_usage := Some us\<rparr>"
  have run: "run_events openai_step (stream_events \<lparr>hr_status = status, hr_lines = openai_lines i ts us, hr_broken = False\<rparr>) (stream_start req) =
      (map (\<lambda>t. \<lparr>gd_id = i, gd_model = gr_model req, gd_content = t\<rparr>) ts, Stop st)"
    using openai_run [OF assms(3,4,6), of "stream_start req"] assms(5)
    by (simp add: stream_events_def openai_events stream_start_def st_def)
  have "openai_finish st = (if blank (concat ts) then Inl (DomainValidationError ''content must not be empty or blank'')
      else Inr \<lparr>rs_id = i, rs_model = gr_model req, rs_output = assistant_message (concat ts), rs_usage = Some us, rs_cached = False\<rparr>)"
    using assms(3,5)
    by (simp add: openai_finish_def complete_stream_def st_def stream_start_def err_unless_def mk_message_def validate_message_def
        require_non_blank_def mk_generation_response_def assistant_message_def Let_def)
  with assms(1,2) run show ?thesis
    by (simp add: openai_stream_def stream_json_def run_stream_def end_stream_def yield_completed_def Let_def comp_def)
qed

definition sample_streamed :: "string list \<Rightarrow> stream_reply" where
  "sample_streamed ts = \<lparr>hr_status = 200, hr_lines = openai_lines ''r1'' ts \<lparr>tu_input_tokens = 3, tu_output_tokens = 2\<rparr>, hr_broken = False\<rparr>"

lemma openai_stream_delivers_witness:
  "fst (openai_stream (sample_adapter sample_reply (sample_streamed [''he'', ''llo''])) (sample_request ''m'') ()) =
    ([Delta \<lparr>gd_id = ''r1'', gd_model = ''m'', gd_content = ''he''\<rparr>, Delta \<lparr>gd_id = ''r1'', gd_model = ''m'', gd_content = ''llo''\<rparr>,
      Completed \<lparr>rs_id = ''r1'', rs_model = ''m'', rs_output = assistant_message ''hello'',
        rs_usage = Some \<lparr>tu_input_tokens = 3, tu_output_tokens = 2\<rparr>, rs_cached = False\<rparr>], None)"
  using openai_stream_delivers [of "sample_adapter sample_reply (sample_streamed [''he'', ''llo''])" "sample_request ''m''" "()" 200
      "''r1''" "[''he'', ''llo'']" "\<lparr>tu_input_tokens = 3, tu_output_tokens = 2\<rparr>" "()"]
  by (simp add: sample_adapter_def fixed_client_def sample_streamed_def token_usage_ok_def is_space_def Let_def)

text \<open>An empty stream is not failed over. When the upstream service of the first route answers a
  streamed call with an identifier, usage and no text, the adapter raises a validation error, which is not a
  provider error: the executor neither retries nor tries the remaining routes, and the caller gets a
  validation error for a valid request.\<close>

theorem blank_stream_not_failed_over:
  assumes "routes_for x m = Inr (r # rs)"
    and "dict_get (rt_providers (px_router x)) (mr_provider r) = Some (openai_provider a)" and "gr_model req = mr_model r"
    and "hc_stream (ad_http_client a) (openai_request a req True) s =
      (Inr \<lparr>hr_status = status, hr_lines = openai_lines i [] us, hr_broken = False\<rparr>, s')"
    and "status < 400" and "\<not> blank i" and "token_usage_ok us"
  shows "stream x m req None s = (([], Some (DomainValidationError ''content must not be empty or blank'')), s')"
proof -
  have r: "route_in (rt_catalog (px_router x)) r" using routes_for_route_in [OF assms(1)] by simp
  then have "openai_stream a req s = (([], Some (DomainValidationError ''content must not be empty or blank'')), s')"
    using openai_stream_delivers [OF assms(4-7)] assms(3) by (simp add: route_in_def)
  then have "stream_with_retries x (openai_provider a) req 0 s =
      (([], Some (DomainValidationError ''content must not be empty or blank'')), s')"
    by (simp add: stream_with_retries.simps [of x _ req 0 s] openai_provider_def except_provider_def)
  then have "attempt_stream x None req r s =
      (Ends ([], Some (DomainValidationError ''content must not be empty or blank'')), s')"
    using r assms(2,3)
    by (simp add: attempt_stream_def with_route_def run_hook_def router_resolve_route_in route_request_def try_stream_def
        except_provider_def)
  with assms(1) show ?thesis by (simp add: stream_failover)
qed

lemma blank_stream_not_failed_over_witness:
  "stream (sample_executor []) ''gpt-4o'' (sample_request ''gpt-4o'') None () =
    (([], Some (DomainValidationError ''content must not be empty or blank'')), ())"
  by (rule blank_stream_not_failed_over [OF sample_routes, where us = "\<lparr>tu_input_tokens = 3, tu_output_tokens = 2\<rparr>" and i = "''r1''"
        and status = 200 and a = "sample_adapter sample_reply (sample_streamed [])"])
    (simp_all add: sample_executor_def dict_get_def sample_adapter_def fixed_client_def sample_streamed_def
      token_usage_ok_def is_space_def)

section \<open>Tool calls out and back\<close>

text \<open>The arguments of a call as the adapters encode them: the text of an object without floats.\<close>

definition encoded_call :: "tool_call \<Rightarrow> (string, json) dict \<Rightarrow> bool" where
  "encoded_call c args \<longleftrightarrow> tool_call_ok c \<and> json_plain (JObj args) \<and> tc_arguments c = dumps_compact (JObj args)"

lemma loads_arguments: "encoded_call c args \<Longrightarrow> loads (tc_arguments c) = Some (JObj args)"
  using loads_dumps [of "JObj args"] by (simp add: encoded_call_def del: dumps_with.simps json_plain.simps)

lemma encoded_mk: "encoded_call c args \<Longrightarrow> mk_tool_call (tc_id c) (tc_name c) (dumps_compact (JObj args)) = Inr c"
  unfolding encoded_call_def by (cases c) (auto simp: mk_tool_call_Inr simp del: dumps_with.simps)

lemma openai_call_back: "tool_call_ok c \<Longrightarrow> call_from_openai (openai_call c) = Inr c"
  by (cases c) (simp add: call_from_openai_def openai_call_def get_simps mk_tool_call_Inr tool_call_ok_def Let_def)

lemma anthropic_call_back:
  assumes "encoded_call c args"
  obtains j where "anthropic_tool_use c = Inr j" "is_tool_use j" "call_from_anthropic j = Inr c" "anthropic_block_text j = Inr []"
  using assms loads_arguments [OF assms] encoded_mk [OF assms]
  by (auto simp: anthropic_tool_use_def call_from_anthropic_def anthropic_block_text_def block_type_is_def get_simps Let_def
      simp del: dumps_with.simps)

lemma anthropic_calls_back:
  assumes "\<forall>c\<in>set calls. \<exists>args. encoded_call c args"
  shows "\<exists>js. traverse anthropic_tool_use calls = Inr js \<and> filter is_tool_use js = js \<and>
    traverse call_from_anthropic js = Inr calls \<and> traverse anthropic_block_text js = Inr (map (\<lambda>_. []) js)"
  using assms
proof (induction calls)
  case (Cons c cs)
  then obtain args js where c: "encoded_call c args" and js: "traverse anthropic_tool_use cs = Inr js" "filter is_tool_use js = js"
    "traverse call_from_anthropic js = Inr cs" "traverse anthropic_block_text js = Inr (map (\<lambda>_. []) js)" by auto
  from anthropic_call_back [OF c] obtain j where "anthropic_tool_use c = Inr j" "is_tool_use j"
    "call_from_anthropic j = Inr c" "anthropic_block_text j = Inr []" .
  with js show ?case by simp
qed simp

definition assistant_calls :: "string \<Rightarrow> tool_call list \<Rightarrow> message" where
  "assistant_calls content calls = \<lparr>msg_role = ASSISTANT, msg_content = content, msg_tool_call_id = None, msg_name = None, msg_tool_calls = calls\<rparr>"

text \<open>Tool calls survive the way out and back. The assistant message of a conversation, encoded for
  OpenAI, is read back with the same calls; encoded for Anthropic with the same calls and the same text, when
  the arguments are the encoding of a float-free object, as those the adapters themselves produce.\<close>

theorem tool_calls_survive:
  assumes "\<forall>c\<in>set calls. \<exists>args. encoded_call c args" and "calls \<noteq> []"
  shows "\<exists>fields blks. to_openai_message (assistant_calls content calls) = JObj fields \<and>
      tool_calls_from_openai (dict_get fields ''tool_calls'') = Inr calls \<and>
      to_anthropic_message (assistant_calls content calls) = Inr (JObj [(''role'', JStr ''assistant''), (''content'', blks)]) \<and>
      tool_calls_from_anthropic (Some blks) = Inr calls \<and>
      text_from_content_blocks (Some blks) = Inr (if blank content then [] else content)"
proof -
  have "traverse call_from_openai (map openai_call calls) = Inr calls"
    using assms(1) by (induction calls) (auto simp: openai_call_back encoded_call_def)
  moreover obtain js where js: "traverse anthropic_tool_use calls = Inr js" "filter is_tool_use js = js"
    "traverse call_from_anthropic js = Inr calls" "traverse anthropic_block_text js = Inr (map (\<lambda>_. []) js)"
    using anthropic_calls_back [OF assms(1)] by auto
  moreover have "js \<noteq> []" using traverse_length [OF js(1)] assms(2) by auto
  ultimately show ?thesis using assms(2)
    by (cases js) (auto simp: to_openai_message_def assistant_calls_def tool_calls_from_openai_def dict_get_def
        to_anthropic_message_def tool_calls_from_anthropic_def text_from_content_blocks_def anthropic_block_text_def
        block_type_is_def get_simps map_r_eq_Inr)
qed

lemma tool_calls_survive_witness:
  "\<exists>fields blks. to_openai_message (assistant_calls ''ok'' [\<lparr>tc_id = ''c1'', tc_name = ''f'', tc_arguments = dumps_compact (JObj [(''x'', JInt 1)])\<rparr>]) = JObj fields \<and>
      tool_calls_from_openai (dict_get fields ''tool_calls'') = Inr [\<lparr>tc_id = ''c1'', tc_name = ''f'', tc_arguments = dumps_compact (JObj [(''x'', JInt 1)])\<rparr>] \<and>
      to_anthropic_message (assistant_calls ''ok'' [\<lparr>tc_id = ''c1'', tc_name = ''f'', tc_arguments = dumps_compact (JObj [(''x'', JInt 1)])\<rparr>]) =
        Inr (JObj [(''role'', JStr ''assistant''), (''content'', blks)]) \<and>
      tool_calls_from_anthropic (Some blks) = Inr [\<lparr>tc_id = ''c1'', tc_name = ''f'', tc_arguments = dumps_compact (JObj [(''x'', JInt 1)])\<rparr>] \<and>
      text_from_content_blocks (Some blks) = Inr ''ok''"
proof -
  have "encoded_call \<lparr>tc_id = ''c1'', tc_name = ''f'', tc_arguments = dumps_compact (JObj [(''x'', JInt 1)])\<rparr> [(''x'', JInt 1)]"
    by (simp add: encoded_call_def tool_call_ok_def is_space_def)
  with tool_calls_survive [of "[\<lparr>tc_id = ''c1'', tc_name = ''f'', tc_arguments = dumps_compact (JObj [(''x'', JInt 1)])\<rparr>]" "''ok''"]
  show ?thesis by (auto simp: is_space_def simp del: dumps_with.simps)
qed

end
