(* ===== verification/Endpoint.thy ===== *)
theory Endpoint
  imports Schemas Http Mcp Rag Guarantees Sse Providers
begin

text \<open>
  \<open>POST /v1/responses\<close> (\<open>api/routes/responses.py\<close>): the options of the body are worked off in order
  (prompt, retrieval, tools, context budget), the command is built and handed to the use case, and its result
  is answered as one JSON body or as server-sent events.
\<close>

section \<open>The route\<close>

definition parse_idempotency_key :: "string option \<Rightarrow> exn + string option" where
  "parse_idempotency_key raw = (case raw of
     None \<Rightarrow> Inr None
   | Some r \<Rightarrow>
      (let v = strip r in
       if v = [] then Inl (APIError \<lparr>ae_code = INVALID_REQUEST, ae_message = ''Idempotency-Key must not be blank.'',
           ae_status = 422, ae_headers = []\<rparr>)
       else if \<not> valid_client_request_id v then Inl (APIError \<lparr>ae_code = INVALID_REQUEST,
           ae_message = ''Idempotency-Key must be 1-128 characters using [A-Za-z0-9._:-].'', ae_status = 422, ae_headers = []\<rparr>)
       else Inr (Some v)))"

record ('r, 'u) responses_route =
  ep_service :: "('r, 'u) create_response"
  ep_context :: build_context
  ep_embedders :: "'u embedders"
  ep_embedding_catalog :: catalog
  ep_nearest :: nearest
  ep_mcp_client :: "'u http_client"
  ep_bracketed_ok :: "string \<Rightarrow> bool"

text \<open>\<open>messages if messages is not None else tuple(item.to_domain() for item in body.messages or [])\<close>.\<close>

definition current_messages :: "create_response_request \<Rightarrow> message list option \<Rightarrow> exn + message list" where
  "current_messages body messages = (case messages of Some ms \<Rightarrow> Inr ms | None \<Rightarrow> own_messages body)"

definition prompt_step :: "uuid \<Rightarrow> create_response_request \<Rightarrow> ('r, 'u, message list option) service" where
  "prompt_step org body = (case crq_prompt body of
     None \<Rightarrow> ret_a None
   | Some prompt \<Rightarrow> bind_a (lift_a (prompt_reference_to_domain prompt)) (\<lambda>ref.
       bind_a (db_a (resolve_prompt org ref)) (\<lambda>ms. ret_a (Some ms))))"

definition rag_step ::
    "('r, 'u) responses_route \<Rightarrow> uuid \<Rightarrow> create_response_request \<Rightarrow> message list option \<Rightarrow> ('r, 'u, message list option) service" where
  "rag_step ep org body messages = (case crq_rag body of
     Some rag \<Rightarrow>
       if rgs_enabled rag then
         bind_a (lift_a (current_messages body messages)) (\<lambda>current.
         bind_a (lift_a (rag_to_domain rag)) (\<lambda>policy.
         bind_a (augment_messages_with_rag (ep_embedders ep) (ep_embedding_catalog ep) (ep_nearest ep) org current policy) (\<lambda>ms.
         ret_a (Some ms))))
       else ret_a messages
   | None \<Rightarrow> ret_a messages)"

definition tools_step ::
    "('r, 'u) responses_route \<Rightarrow> uuid \<Rightarrow> create_response_request \<Rightarrow> ('r, 'u, tool_definition list) service" where
  "tools_step ep org body =
     bind_a (lift_a (traverse tool_definition_to_domain (crq_tools body))) (\<lambda>tools.
     if mcp_enabled body then
       resolve_tools_for_generation (ep_bracketed_ok ep) (ep_mcp_client ep) org tools
         (case crq_mcp body of Some m \<Rightarrow> mcs_servers m | None \<Rightarrow> [])
     else ret_a tools)"

definition context_policy_of :: "create_response_request \<Rightarrow> exn + context_policy" where
  "context_policy_of body = (case crq_context body of
     Some c \<Rightarrow> context_to_domain c | None \<Rightarrow> mk_context_policy None False)"

definition context_step ::
    "build_context \<Rightarrow> create_response_request \<Rightarrow> message list option \<Rightarrow> tool_definition list \<Rightarrow> exn + message list option" where
  "context_step bc body messages tools =
     (if needs_context_check body then
        bind_r (current_messages body messages) (\<lambda>current.
        bind_r (context_policy_of body) (\<lambda>policy.
        map_r Some (build_context_execute bc (crq_model body) current tools (crq_max_output_tokens body) policy)))
      else Inr messages)"

definition prepare_command ::
    "('r, 'u) responses_route \<Rightarrow> principal \<Rightarrow> string \<Rightarrow> string option \<Rightarrow> create_response_request \<Rightarrow>
     ('r, 'u, create_command) service" where
  "prepare_command ep p request_id idempotency_key_header body =
     bind_a (prompt_step (pl_organization_id p) body) (\<lambda>messages.
     bind_a (rag_step ep (pl_organization_id p) body messages) (\<lambda>messages.
     bind_a (tools_step ep (pl_organization_id p) body) (\<lambda>tools.
     bind_a (lift_a (context_step (ep_context ep) body messages tools)) (\<lambda>messages.
     bind_a (lift_a (request_to_domain body messages tools)) (\<lambda>request.
     bind_a (lift_a (parse_idempotency_key idempotency_key_header)) (\<lambda>key.
     ret_a \<lparr>cc_request = request, cc_request_id = request_id, cc_organization_id = pl_organization_id p,
       cc_api_key_id = pl_api_key_id p, cc_idempotency_key = key\<rparr>))))))"

section \<open>The answer\<close>

definition format_stream_event :: "stream_event \<Rightarrow> exn + frame" where
  "format_stream_event ev = (case ev of
     Delta d \<Rightarrow> Inr (''response.delta'', JObj [(''id'', JStr (gd_id d)), (''model'', JStr (gd_model d)),
       (''delta'', JObj [(''content'', JStr (gd_content d))])])
   | Completed r \<Rightarrow> map_r (\<lambda>s. (''response.completed'', response_dump s)) (response_from_domain r))"

definition format_stream_error :: "provider_error \<Rightarrow> string \<Rightarrow> frame" where
  "format_stream_error err request_id = (''response.error'', error_detail_json PROVIDER_ERROR (pe_message err) (Some request_id))"

text \<open>
  The generator \<open>events()\<close>: the frames it yields, and the exception it ends with unless that is a
  \<open>ProviderError\<close>, which becomes the last frame.
\<close>

fun stream_frames :: "string \<Rightarrow> stream_event list \<Rightarrow> exn option \<Rightarrow> frame list \<times> exn option" where
  "stream_frames request_id [] None = ([], None)"
| "stream_frames request_id [] (Some e) = (case e of
     ProviderErr err \<Rightarrow> ([format_stream_error err request_id], None) | _ \<Rightarrow> ([], Some e))"
| "stream_frames request_id (ev # evs) eo = (case format_stream_event ev of
     Inl e \<Rightarrow> stream_frames request_id [] (Some e)
   | Inr f \<Rightarrow> (case stream_frames request_id evs eo of (fs, e) \<Rightarrow> (f # fs, e)))"

datatype responses_answer =
    JsonAnswer response_schema
  | StreamAnswer "frame list" "exn option"

definition no_response_error :: exn where
  "no_response_error = ProviderErr (mk_provider_error BaseProviderError ''Provider stream completed without a response'' False None)"

text \<open>What fails before the first event of a stream is raised, so it is answered by an error envelope.\<close>

definition run_command ::
    "('r, 'u) responses_route \<Rightarrow> string \<Rightarrow> create_response_request \<Rightarrow> create_command \<Rightarrow> ('r, 'u, responses_answer) service" where
  "run_command ep request_id body cmd =
     (if \<not> crq_stream body then
        bind_a (create_response_execute (ep_service ep) cmd) (\<lambda>r. lift_a (map_r JsonAnswer (response_from_domain r)))
      else (\<lambda>w. case create_response_stream (ep_service ep) cmd w of
        (([], None), w') \<Rightarrow> (Inl no_response_error, w')
      | (([], Some e), w') \<Rightarrow> (Inl e, w')
      | ((evs, eo), w') \<Rightarrow> (Inr (case_prod StreamAnswer (stream_frames request_id evs eo)), w')))"

definition post_responses ::
    "('r, 'u) responses_route \<Rightarrow> principal \<Rightarrow> string \<Rightarrow> string option \<Rightarrow> create_response_request \<Rightarrow>
     ('r, 'u, responses_answer) service" where
  "post_responses ep p request_id idempotency_key_header body =
     bind_a (prepare_command ep p request_id idempotency_key_header body) (run_command ep request_id body)"

text \<open>
  The request as a whole: the caller is authenticated, then the decoded body is validated, then the route runs.
\<close>

definition serve_responses ::
    "hasher \<Rightarrow> (api_key_row list \<Rightarrow> api_key_row list) \<Rightarrow> coercions \<Rightarrow> ('r, 'u) responses_route \<Rightarrow> string option \<Rightarrow>
     string \<Rightarrow> string option \<Rightarrow> json \<Rightarrow> ('r, 'u, responses_answer) service" where
  "serve_responses hs scan co ep authorization request_id idempotency_key_header body =
     bind_a (db_a (read_a (get_authenticated_principal hs scan authorization))) (\<lambda>p.
     bind_a (lift_a (case create_response_request_v co [''body''] body of
       Inl errors \<Rightarrow> Inl (RequestValidationError errors) | Inr r \<Rightarrow> Inr r)) (\<lambda>r.
     post_responses ep p request_id idempotency_key_header r))"

section \<open>What is accepted\<close>

lemma message_to_domain_Inr: "message_to_domain s = Inr m \<Longrightarrow> message_ok m \<and> (\<forall>c\<in>set (msg_tool_calls m). tool_call_ok c)"
proof -
  assume "message_to_domain s = Inr m"
  then obtain cs where cs: "traverse tool_call_to_domain (mes_tool_calls s) = Inr cs"
    and m: "mk_message (mes_role s) (mes_content s) (mes_tool_call_id s) (mes_name s) cs = Inr m"
    by (auto simp: message_to_domain_def bind_r_eq_Inr)
  from m have "message_ok m" "msg_tool_calls m = cs" by (auto simp: mk_message_Inr)
  with traverse_mem [OF cs] show ?thesis by (auto simp: tool_call_to_domain_def mk_tool_call_Inr)
qed

lemma own_messages_ok: "own_messages body = Inr ms \<Longrightarrow> m \<in> set ms \<Longrightarrow> message_ok m"
  unfolding own_messages_def by (drule traverse_mem) (auto dest: message_to_domain_Inr)

lemma current_messages_ok:
  "current_messages body messages = Inr ms \<Longrightarrow> (\<And>xs m. messages = Some xs \<Longrightarrow> m \<in> set xs \<Longrightarrow> message_ok m) \<Longrightarrow>
   m \<in> set ms \<Longrightarrow> message_ok m"
  by (auto simp: current_messages_def own_messages_ok split: option.splits)

lemma render_ok: "render t vs = Inr ms \<Longrightarrow> m \<in> set ms \<Longrightarrow> message_ok m"
  by (auto simp: render_def Let_def bind_r_eq_Inr dest!: traverse_mem) (auto simp: mk_message_Inr)

lemma without_set: "set (without ms D) \<subseteq> set ms"
  by (auto simp: without_def in_set_enumerate_eq)

lemma build_context_subset: "build_context_execute bc model ms ts mo pol = Inr out \<Longrightarrow> set out \<subseteq> set ms"
  using without_set by (fastforce simp: build_context_execute_def Let_def split: option.splits if_splits prod.splits)

lemma tool_definitions_ok: "traverse tool_definition_to_domain ss = Inr ts \<Longrightarrow> t \<in> set ts \<Longrightarrow> tool_definition_ok t"
  by (drule traverse_mem) (auto simp: tool_definition_to_domain_def mk_tool_definition_Inr)

lemma resolve_servers_ok:
  "resolve_servers br client org names seen merged w = (Inr ts, w') \<Longrightarrow> \<forall>t\<in>set merged. tool_definition_ok t \<Longrightarrow>
   t \<in> set ts \<Longrightarrow> tool_definition_ok t"
proof (induction names arbitrary: seen merged w)
  case (Cons n names)
  then obtain discovered w1 w2 merged' seen' where
    d: "list_mcp_server_tools br client org n w1 = (Inr discovered, w2)"
    and m: "merge_tools discovered seen merged = Inr (merged', seen')"
    and r: "resolve_servers br client org names seen' merged' w2 = (Inr ts, w')"
    by (auto simp: bind_a_eq_Inr split: prod.splits)
  from d obtain tools where "traverse (namespaced n) tools = Inr discovered"
    by (auto simp: list_mcp_server_tools_def bind_a_eq_Inr split: option.splits)
  then have "\<forall>t\<in>set discovered. tool_definition_ok t" by (auto dest!: traverse_mem dest: namespaced_Inr)
  with m Cons.prems(2) have "\<forall>t\<in>set merged'. tool_definition_ok t" by (auto simp: merge_tools_Inr)
  from Cons.IH [OF r this Cons.prems(3)] show ?case .
qed simp

lemma augment_ok:
  "augment_messages_with_rag ps cat near org ms pol w = (Inr out, w') \<Longrightarrow> \<forall>m\<in>set ms. message_ok m \<Longrightarrow> m \<in> set out \<Longrightarrow> message_ok m"
  by (auto simp: augment_messages_with_rag_def bind_a_eq_Inr prepend_retrieved_context_def Let_def map_r_eq_Inr mk_message_Inr
      split: if_splits)

section \<open>What the preparation touches\<close>

definition stored :: "('r, 'u) world \<Rightarrow> db \<times> 'r \<times> metrics" where
  "stored w = (w_db w, w_redis w, w_metrics w)"

lemma stored_updates [simp]: "stored (w\<lparr>w_upstream := u\<rparr>) = stored w" "stored (w\<lparr>w_ticks := t\<rparr>) = stored w"
    "stored (w\<lparr>w_uuids := t\<rparr>) = stored w" "stored (w\<lparr>w_db := d\<rparr>) = (d, w_redis w, w_metrics w)"
  by (simp_all add: stored_def)

lemma keeps_stored [simp]:
  "keeps (\<lambda>w. stored w = c) now_a" "keeps (\<lambda>w. stored w = c) uuid4_a" "keeps (\<lambda>w. stored w = c) (db_a (read_a f))"
  "keeps (\<lambda>w. stored w = c) (upstream_a m)"
  by (auto simp: keeps_def now_a_def uuid4_a_def db_a_def read_a_def upstream_a_def stored_def split: prod.split)

lemma embed_text_stored: "keeps (\<lambda>w. stored w = c) (embed_text ps cat model content)"
  unfolding embed_text_def by (auto intro!: keeps_bind_a split: option.split list.split) (auto simp: keeps_def split: prod.split)

lemma augment_stored: "keeps (\<lambda>w. stored w = c) (augment_messages_with_rag ps cat near org ms pol)"
  by (auto simp: augment_messages_with_rag_def search_semantic_chunks_def intro!: keeps_bind_a embed_text_stored)

lemma list_server_tools_stored: "keeps (\<lambda>w. stored w = c) (list_mcp_server_tools br client org n)"
  by (auto simp: list_mcp_server_tools_def list_tools_def intro!: keeps_bind_a split: option.split)

lemma resolve_servers_stored: "keeps (\<lambda>w. stored w = c) (resolve_servers br client org names seen merged)"
  by (induction names arbitrary: seen merged) (auto intro!: keeps_bind_a list_server_tools_stored split: prod.split)

lemma resolve_prompt_stored: "keeps (\<lambda>w. stored w = c) (db_a (resolve_prompt org ref))"
  by (auto simp: keeps_def db_a_def resolve_prompt_def bind_a_def read_a_def raise_a_def lift_a_def stored_def
      split: prod.split sum.split option.split)

lemma steps_stored:
  "keeps (\<lambda>w. stored w = c) (prompt_step org body)"
  "keeps (\<lambda>w. stored w = c) (rag_step ep org body messages)"
  "keeps (\<lambda>w. stored w = c) (tools_step ep org body)"
  by (auto simp: prompt_step_def rag_step_def tools_step_def resolve_tools_for_generation_def
      intro!: keeps_bind_a resolve_prompt_stored augment_stored resolve_servers_stored split: option.split)

lemma prepare_stored: "prepare_command ep p rid key body w = (res, w') \<Longrightarrow> stored w' = stored w"
proof -
  have "keeps (\<lambda>v. stored v = stored w) (prepare_command ep p rid key body)"
    unfolding prepare_command_def by (intro keeps_bind_a steps_stored) auto
  then show "prepare_command ep p rid key body w = (res, w') \<Longrightarrow> stored w' = stored w"
    by (rule keepsD) simp_all
qed

lemma prompt_step_ok: "prompt_step org body w = (Inr (Some ms), w') \<Longrightarrow> m \<in> set ms \<Longrightarrow> message_ok m"
  by (auto simp: prompt_step_def bind_a_eq_Inr db_a_def resolve_prompt_def read_a_def lift_a_def raise_a_def bind_a_def render_ok
      split: option.splits prod.splits sum.splits)

section \<open>Every command is well formed\<close>

lemma parse_idempotency_key_Inr:
  "parse_idempotency_key raw = Inr key \<longleftrightarrow> (case raw of None \<Rightarrow> key = None
     | Some r \<Rightarrow> key = Some (strip r) \<and> valid_client_request_id (strip r))"
  by (auto simp: parse_idempotency_key_def Let_def valid_client_request_id_def split: option.splits if_splits)

lemma context_step_Inr:
  assumes "context_step bc body messages tools = Inr out"
  shows "if needs_context_check body
    then \<exists>current policy ms. current_messages body messages = Inr current \<and> context_policy_of body = Inr policy \<and>
      out = Some ms \<and> build_context_execute bc (crq_model body) current tools (crq_max_output_tokens body) policy = Inr ms
    else out = messages"
  using assms by (auto simp: context_step_def bind_r_eq_Inr map_r_eq_Inr split: if_splits)

lemma rag_step_ok:
  assumes "rag_step ep org body messages w = (Inr (Some ms), w')" and "\<And>xs m. messages = Some xs \<Longrightarrow> m \<in> set xs \<Longrightarrow> message_ok m"
    and "m \<in> set ms"
  shows "message_ok m"
proof -
  consider "messages = Some ms"
    | current policy w1 where "current_messages body messages = Inr current"
        "augment_messages_with_rag (ep_embedders ep) (ep_embedding_catalog ep) (ep_nearest ep) org current policy w1 = (Inr ms, w')"
    using assms(1) by (auto simp: rag_step_def bind_a_eq_Inr split: option.splits if_splits)
  then show ?thesis
  proof cases
    case 1
    then show ?thesis using assms(2,3) by blast
  next
    case 2
    have "\<forall>x\<in>set current. message_ok x"
      using current_messages_ok [OF 2(1)] assms(2) by blast
    from augment_ok [OF 2(2) this assms(3)] show ?thesis .
  qed
qed

lemma tools_step_ok: "tools_step ep org body w = (Inr ts, w') \<Longrightarrow> t \<in> set ts \<Longrightarrow> tool_definition_ok t"
  by (auto simp: tools_step_def bind_a_eq_Inr resolve_tools_for_generation_def split: if_splits
      dest: tool_definitions_ok resolve_servers_ok)

text \<open>Every command is well formed. Whatever body the schema accepts, working off its options reads the
  database, Redis and the metrics without changing them, and the command that results is the caller's: the
  organization and key of the principal and the request id, with an idempotency key that is the header's and
  of the safe form. Its request satisfies the contract of the domain, all its messages and tools included, and
  when the context is checked, messages and tools together are within the budget of every candidate model.\<close>

theorem prepared_command:
  assumes "prepare_command ep p request_id key_header body w = (res, w')"
  shows "stored w' = stored w \<and> (case res of Inl e \<Rightarrow> True | Inr cmd \<Rightarrow>
    cc_organization_id cmd = pl_organization_id p \<and> cc_api_key_id cmd = pl_api_key_id p \<and> cc_request_id cmd = request_id \<and>
    cc_idempotency_key cmd = map_option strip key_header \<and>
    (\<forall>k. cc_idempotency_key cmd = Some k \<longrightarrow> valid_client_request_id k) \<and>
    generation_request_ok (cc_request cmd) \<and> gr_model (cc_request cmd) = crq_model body \<and>
    gr_stream (cc_request cmd) = crq_stream body \<and> gr_cache (cc_request cmd) = crq_cache body \<and>
    (\<forall>m\<in>set (gr_messages (cc_request cmd)). message_ok m) \<and>
    (\<forall>t\<in>set (gr_tools (cc_request cmd)). tool_definition_ok t) \<and>
    (needs_context_check body \<longrightarrow> (\<exists>policy. context_policy_of body = Inr policy \<and>
      (\<forall>budget. context_budget (ep_context ep) (crq_model body) (crq_max_output_tokens body) policy = Some budget \<longrightarrow>
        request_size (bc_counter (ep_context ep)) (gr_tools (cc_request cmd)) (gr_messages (cc_request cmd)) \<le> budget))))"
proof (cases res)
  case (Inl e)
  with prepare_stored [OF assms] show ?thesis by simp
next
  case (Inr cmd)
  let ?org = "pl_organization_id p"
  obtain ms0 w1 ms1 w2 tools w3 ms2 req key where
    s0: "prompt_step ?org body w = (Inr ms0, w1)" and s1: "rag_step ep ?org body ms0 w1 = (Inr ms1, w2)"
    and s2: "tools_step ep ?org body w2 = (Inr tools, w3)"
    and s3: "context_step (ep_context ep) body ms1 tools = Inr ms2"
    and s4: "request_to_domain body ms2 tools = Inr req" and s5: "parse_idempotency_key key_header = Inr key"
    and cmd: "cmd = \<lparr>cc_request = req, cc_request_id = request_id, cc_organization_id = ?org,
       cc_api_key_id = pl_api_key_id p, cc_idempotency_key = key\<rparr>"
    using assms Inr by (auto simp: prepare_command_def bind_a_eq_Inr)
  obtain final where final: "current_messages body ms2 = Inr final"
    and req: "req = \<lparr>gr_model = crq_model body, gr_messages = final, gr_temperature = crq_temperature body,
       gr_max_output_tokens = crq_max_output_tokens body, gr_stream = crq_stream body, gr_tools = tools, gr_cache = crq_cache body\<rparr>"
    "generation_request_ok req"
    using s4 by (auto simp: request_to_domain_def bind_r_eq_Inr validate_generation_request_Inr current_messages_def)
  have ok0: "message_ok m" if "ms0 = Some xs" "m \<in> set xs" for xs m
    using prompt_step_ok s0 that by blast
  have ok1: "message_ok m" if "ms1 = Some xs" "m \<in> set xs" for xs m
    using rag_step_ok s1 ok0 that by blast
  note step = context_step_Inr [OF s3]
  have ok2: "message_ok m" if "ms2 = Some xs" "m \<in> set xs" for xs m
  proof (cases "needs_context_check body")
    case False
    then show ?thesis using step ok1 [of xs m] that by simp
  next
    case True
    with step that(1) obtain current policy where c: "current_messages body ms1 = Inr current"
      "build_context_execute (ep_context ep) (crq_model body) current tools (crq_max_output_tokens body) policy = Inr xs"
      by auto
    from build_context_subset [OF c(2)] that(2) have "m \<in> set current" by blast
    with current_messages_ok [OF c(1)] ok1 show ?thesis by blast
  qed
  have msgs: "\<forall>m\<in>set final. message_ok m"
    using current_messages_ok [OF final] ok2 by blast
  have size: "\<exists>policy. context_policy_of body = Inr policy \<and>
      (\<forall>budget. context_budget (ep_context ep) (crq_model body) (crq_max_output_tokens body) policy = Some budget \<longrightarrow>
        request_size (bc_counter (ep_context ep)) tools final \<le> budget)" if "needs_context_check body"
  proof -
    from that step obtain current policy ms where c: "context_policy_of body = Inr policy" "ms2 = Some ms"
      "build_context_execute (ep_context ep) (crq_model body) current tools (crq_max_output_tokens body) policy = Inr ms" by auto
    with final have "final = ms" by (simp add: current_messages_def)
    with c budget_within show ?thesis by blast
  qed
  show ?thesis
    using prepare_stored [OF assms] Inr cmd req msgs size tools_step_ok [OF s2] s5
    by (auto simp: parse_idempotency_key_Inr split: option.splits)
qed

section \<open>Nothing is done for anyone else\<close>

text \<open>A database that differs by valid usage rows and audit events of one organization and key.\<close>

definition written_for :: "uuid \<Rightarrow> uuid \<Rightarrow> db \<Rightarrow> db \<Rightarrow> bool" where
  "written_for org key d d' \<longleftrightarrow> (\<exists>us es. d' = with_audit es (with_usage us d) \<and>
     (\<forall>u\<in>set us. usage_record_ok u \<and> ur_organization_id u = org \<and> ur_api_key_id u = key) \<and>
     (\<forall>e\<in>set es. audit_event_ok e \<and> ae_organization_id e = Some org \<and> ae_actor_api_key_id e = Some key))"

lemma written_for_refl [simp, intro]: "written_for org key d d"
  unfolding written_for_def by (intro exI [of _ "[]"]) simp

lemma written_for_trans:
  assumes "written_for org key d d1" and "written_for org key d1 d2"
  shows "written_for org key d d2"
proof -
  have merge: "with_audit es2 (with_usage us2 (with_audit es1 (with_usage us1 d))) = with_audit (es1 @ es2) (with_usage (us1 @ us2) d)"
    for es1 es2 us1 us2 by (simp add: with_audit_def with_usage_def)
  from assms obtain us1 es1 us2 es2 where
    "d1 = with_audit es1 (with_usage us1 d)" "d2 = with_audit es2 (with_usage us2 d1)"
    "\<forall>u\<in>set (us1 @ us2). usage_record_ok u \<and> ur_organization_id u = org \<and> ur_api_key_id u = key"
    "\<forall>e\<in>set (es1 @ es2). audit_event_ok e \<and> ae_organization_id e = Some org \<and> ae_actor_api_key_id e = Some key"
    unfolding written_for_def by (auto simp: ball_Un)
  with merge show ?thesis unfolding written_for_def by blast
qed

abbreviation written_cmd :: "create_command \<Rightarrow> db \<Rightarrow> db \<Rightarrow> bool" where
  "written_cmd cmd \<equiv> written_for (cc_organization_id cmd) (cc_api_key_id cmd)"

lemma billed_written: "billed cmd r us \<Longrightarrow> written_cmd cmd d (with_usage us d)"
  unfolding written_for_def by (intro exI [of _ us] exI [of _ "[]"]) (auto simp: billed_def usage_of_response_def)

lemma audited_written: "audited cmd r es \<Longrightarrow> written_cmd cmd d (with_audit es d)"
  unfolding written_for_def by (intro exI [of _ "[]"] exI [of _ es]) (auto simp: audited_def response_audit_def)

lemma both_written: "billed cmd r us \<Longrightarrow> audited cmd r es \<Longrightarrow> written_cmd cmd d (with_audit es (with_usage us d))"
  by (rule written_for_trans [OF billed_written audited_written])

lemma recorded_written: "recorded cmd w res w' \<Longrightarrow> written_cmd cmd (w_db w) (w_db w')"
  unfolding recorded_def by (cases res) (auto intro: billed_written audited_written both_written)

lemma record_item_written:
  assumes "bind_a (record_usage cmd pv r) (\<lambda>_. record_generation_success cmd r oc pv' ct) w = (res, w')"
  shows "written_cmd cmd (w_db w) (w_db w')"
proof -
  obtain a w1 where u: "record_usage cmd pv r w = (a, w1)" by (cases "record_usage cmd pv r w")
  have 1: "written_cmd cmd (w_db w) (w_db w1)"
    using usage_effect(4) [OF u] usage_billed [of cmd pv r w] u by (cases a) (auto intro: billed_written)
  show ?thesis
  proof (cases a)
    case (Inl e)
    with assms u 1 show ?thesis by (simp add: bind_a_def)
  next
    case (Inr x)
    with assms u have s: "record_generation_success cmd r oc pv' ct w1 = (res, w')" by (simp add: bind_a_def)
    have "written_cmd cmd (w_db w1) (w_db w')"
      using success_effect(3) [OF s] success_audited [of cmd r oc pv' ct w1] s by (cases res) (auto intro: audited_written)
    with 1 show ?thesis by (rule written_for_trans)
  qed
qed

lemma deliver_written: "deliver cmd items w = (res, w') \<Longrightarrow> written_cmd cmd (w_db w) (w_db w')"
proof (induction items arbitrary: res w)
  case (Cons item items)
  define first where "first = (case se_payload item of Delta _ \<Rightarrow> (Inr (), w)
    | Completed response \<Rightarrow> bind_a (record_usage cmd (se_provider_name item) response) (\<lambda>_.
        record_generation_success cmd response ''provider'' (se_provider_name item) True) w)"
  obtain a w1 where a: "first = (a, w1)" by (cases first)
  have 1: "written_cmd cmd (w_db w) (w_db w1)"
    using a record_item_written unfolding first_def by (auto split: stream_event.splits)
  from Cons.prems a have "(\<exists>e. a = Inl e) \<and> w' = w1 \<or> (\<exists>res'. deliver cmd items w1 = (res', w'))"
    unfolding first_def by (auto split: sum.splits prod.splits)
  with 1 Cons.IH show ?case by (blast intro: written_for_trans)
qed simp

lemma stream_written:
  assumes "create_response_stream sv cmd w = ((evs, eo), w')"
  shows "written_cmd cmd (w_db w) (w_db w')"
proof (cases "cc_idempotency_key cmd")
  case (Some k)
  with assms show ?thesis by (simp add: create_response_stream_def)
next
  case None
  from assms None show ?thesis
  proof (cases rule: stream_cases)
    case (served d red items eo1 w2 eo2)
    from stream_effect [OF served(3)] have "w_db w2 = w_db w" by (simp add: core_eq)
    with deliver_written [OF served(4)] show ?thesis by simp
  qed simp
qed

lemma run_command_written: "run_command ep rid body cmd w = (res, w') \<Longrightarrow> written_cmd cmd (w_db w) (w_db w')"
proof (cases "crq_stream body")
  case True
  obtain evs eo w1 where s: "create_response_stream (ep_service ep) cmd w = ((evs, eo), w1)" by (metis surj_pair)
  assume "run_command ep rid body cmd w = (res, w')"
  with True s have "w' = w1" by (cases evs; cases eo) (simp_all add: run_command_def)
  with stream_written [OF s] show ?thesis by simp
next
  case False
  obtain a w1 where e: "create_response_execute (ep_service ep) cmd w = (a, w1)" by (metis surj_pair)
  assume "run_command ep rid body cmd w = (res, w')"
  with False e have "w' = w1" by (cases a) (auto simp: run_command_def bind_a_def lift_a_def)
  with recorded_written [OF execute_recorded [OF e]] show ?thesis by simp
qed

lemma authenticated_principal_Inr:
  assumes "get_authenticated_principal hs scan authorization d = Inr p"
  shows "\<exists>secret. extract_bearer_token authorization = Inr secret \<and> authenticate hs scan secret d = Inr p"
proof (cases "extract_bearer_token authorization")
  case (Inl e)
  with assms show ?thesis by (simp add: get_authenticated_principal_def)
next
  case (Inr secret)
  show ?thesis
  proof (cases "authenticate hs scan secret d")
    case (Inl e)
    with assms Inr show ?thesis by (cases e) (simp_all add: get_authenticated_principal_def)
  next
    case (Inr q)
    with assms \<open>extract_bearer_token authorization = Inr secret\<close> show ?thesis
      by (simp add: get_authenticated_principal_def)
  qed
qed

text \<open>C3: nothing is done without a tenant, and nothing for anyone else. A request either fails with the database,
  Redis, the metrics and the providers as they were, or its bearer credential is verified by an active key
  of an organization that is not suspended; and however it ends, streaming or not, the database then differs
  by valid usage rows and audit events of that organization and that key, and by nothing else.\<close>

theorem served_for_tenant:
  assumes "serve_responses hs scan co ep authorization request_id key_header body w = (res, w')" and "scan_sound scan"
  shows "(\<exists>e. res = Inl e) \<and> w' = w \<or>
    (\<exists>secret k oz. extract_bearer_token authorization = Inr secret \<and>
       key_to_row k \<in> set (db_api_keys (w_db w)) \<and> ak_status k = KeyActive \<and> hs_verify hs secret (ak_secret_hash k) \<and>
       org_get (ak_organization_id k) (w_db w) = Inr (Some oz) \<and> org_status oz = OrgActive \<and>
       written_for (ak_organization_id k) (ak_id k) (w_db w) (w_db w'))"
proof -
  let ?auth = "get_authenticated_principal hs scan authorization (w_db w)"
  have w: "w\<lparr>w_db := w_db w\<rparr> = w" by simp
  show ?thesis
  proof (cases ?auth)
    case (Inl e)
    with assms(1) show ?thesis by (auto simp: serve_responses_def bind_a_def db_a_def read_a_def)
  next
    case (Inr p)
    then obtain secret where secret: "extract_bearer_token authorization = Inr secret"
      and "authenticate hs scan secret (w_db w) = Inr p"
      by (blast dest: authenticated_principal_Inr)
    from authenticate_accepts [OF this(2) assms(2)] obtain k oz where k: "key_to_row k \<in> set (db_api_keys (w_db w))"
      "ak_status k = KeyActive" "hs_verify hs secret (ak_secret_hash k)" "org_get (ak_organization_id k) (w_db w) = Inr (Some oz)"
      "org_status oz = OrgActive" "pl_api_key_id p = ak_id k" "pl_organization_id p = ak_organization_id k" by auto
    have "written_for (ak_organization_id k) (ak_id k) (w_db w) (w_db w')"
    proof (cases "create_response_request_v co [''body''] body")
      case (Inl errors)
      with assms(1) Inr show ?thesis by (simp add: serve_responses_def bind_a_def db_a_def read_a_def lift_a_def)
    next
      case (Inr r)
      with assms(1) \<open>?auth = Inr p\<close> have post: "post_responses ep p request_id key_header r w = (res, w')"
        by (simp add: serve_responses_def bind_a_def db_a_def read_a_def lift_a_def)
      obtain a w1 where prep: "prepare_command ep p request_id key_header r w = (a, w1)" by (metis surj_pair)
      from prepare_stored [OF prep] have d1: "w_db w1 = w_db w" by (simp add: stored_def)
      show ?thesis
      proof (cases a)
        case (Inl e)
        with post prep d1 show ?thesis by (simp add: post_responses_def bind_a_def)
      next
        case (Inr cmd)
        with post prep have run: "run_command ep request_id r cmd w1 = (res, w')" by (simp add: post_responses_def bind_a_def)
        from prep Inr have "cc_organization_id cmd = pl_organization_id p" "cc_api_key_id cmd = pl_api_key_id p"
          by (auto simp: prepare_command_def bind_a_eq_Inr)
        with run_command_written [OF run] d1 k(6,7) show ?thesis by simp
      qed
    qed
    with secret k show ?thesis by blast
  qed
qed

section \<open>A sample request\<close>

definition demo_route :: "(map_redis_state, demo_state) responses_route" where
  "demo_route = \<lparr>ep_service = demo_service, ep_context = demo_build_context, ep_embedders = [], ep_embedding_catalog = [],
     ep_nearest = (\<lambda>q rows. []), ep_mcp_client = \<lparr>hc_post = (\<lambda>r u. (Inl (), u)), hc_stream = (\<lambda>r u. (Inl (), u))\<rparr>,
     ep_bracketed_ok = (\<lambda>s. False)\<rparr>"

definition demo_body :: json where
  "demo_body = JObj [(''model'', JStr ''m''), (''messages'', JArr [JObj [(''role'', JStr ''user''), (''content'', JStr ''hi'')]])]"

definition demo_principal :: principal where
  "demo_principal = \<lparr>pl_api_key_id = 5, pl_organization_id = 1, pl_organization_slug = ''acme'', pl_api_key_prefix = ''airt_abcdefgh''\<rparr>"

definition demo_request :: create_response_request where
  "demo_request = \<lparr>crq_model = ''m'', crq_messages = Some [\<lparr>mes_role = USER, mes_content = ''hi'', mes_tool_call_id = None,
     mes_name = None, mes_tool_calls = []\<rparr>], crq_prompt = None, crq_context = None, crq_temperature = None,
     crq_max_output_tokens = None, crq_stream = False, crq_tools = [], crq_cache = False, crq_rag = None, crq_mcp = None\<rparr>"

lemma demo_accepted: "create_response_request_v strict_coercions [''body''] demo_body = Inr demo_request"
  by code_simp

lemma demo_prepared: "prepare_command demo_route demo_principal ''req_1'' (Some ''k'') demo_request (demo_world 0) =
    (Inr (demo_command (Some ''k'') False), demo_world 0)"
proof -
  have "request_to_domain demo_request None [] = Inr ((sample_request ''m'')\<lparr>gr_cache := False\<rparr>)"
    "parse_idempotency_key (Some ''k'') = Inr (Some ''k'')" by code_simp+
  then show ?thesis
    by (simp add: prepare_command_def bind_a_def prompt_step_def rag_step_def tools_step_def context_step_def
        ret_a_def lift_a_def demo_request_def mcp_enabled_def needs_context_check_def rag_enabled_def
        demo_command_def demo_principal_def)
qed

lemma prepared_command_witness:
  "\<exists>cmd. prepare_command demo_route demo_principal ''req_1'' (Some ''k'') demo_request (demo_world 0) = (Inr cmd, demo_world 0) \<and>
     generation_request_ok (cc_request cmd) \<and> cc_idempotency_key cmd = Some (strip ''k'') \<and> cc_organization_id cmd = 1"
  using prepared_command [OF demo_prepared] demo_prepared by (auto simp: demo_principal_def)

lemma demo_principal_authenticated:
  "get_authenticated_principal demo_hasher (\<lambda>xs. xs) (Some ''Bearer airt_abcdefgh1'') demo_db1 = Inr demo_principal"
proof -
  have "extract_bearer_token (Some ''Bearer airt_abcdefgh1'') = Inr ''airt_abcdefgh1''" by code_simp
  then show ?thesis by (simp add: get_authenticated_principal_def demo_authenticates demo_principal_def)
qed

lemma demo_answer: "\<exists>a. response_from_domain (sample_response ''m'') = Inr a"
  by (auto simp: response_from_domain_def message_from_domain_def sample_response_def assistant_message_def Let_def
      validate_role_fields_def message_to_domain_def mk_message_def validate_message_def is_space_def require_non_blank_def)

lemma demo_served:
  "\<exists>a w1. serve_responses demo_hasher (\<lambda>xs. xs) strict_coercions demo_route (Some ''Bearer airt_abcdefgh1'') ''req_1'' (Some ''k'')
     demo_body (demo_world 0) = (Inr (JsonAnswer a), w1)"
proof -
  obtain w1 where run: "create_response_execute demo_service (demo_command (Some ''k'') False) (demo_world 0) =
    (Inr (sample_response ''m''), w1)" using demo_run by blast
  obtain a where a: "response_from_domain (sample_response ''m'') = Inr a" using demo_answer by blast
  have w: "w_db (demo_world 0) = demo_db1" "(demo_world 0)\<lparr>w_db := demo_db1\<rparr> = demo_world 0"
    by (simp_all add: demo_world_def)
  have "run_command demo_route ''req_1'' demo_request (demo_command (Some ''k'') False) (demo_world 0) = (Inr (JsonAnswer a), w1)"
    using run a by (simp add: run_command_def demo_request_def demo_route_def bind_a_def lift_a_def)
  then show ?thesis
    by (simp add: serve_responses_def bind_a_def db_a_def read_a_def lift_a_def demo_principal_authenticated demo_accepted w
        post_responses_def demo_prepared)
qed

lemma served_for_tenant_witness:
  "\<exists>a w1. serve_responses demo_hasher (\<lambda>xs. xs) strict_coercions demo_route (Some ''Bearer airt_abcdefgh1'') ''req_1'' (Some ''k'')
     demo_body (demo_world 0) = (Inr (JsonAnswer a), w1) \<and> written_for 1 5 demo_db1 (w_db w1)"
proof -
  obtain a w1 where s: "serve_responses demo_hasher (\<lambda>xs. xs) strict_coercions demo_route (Some ''Bearer airt_abcdefgh1'') ''req_1''
      (Some ''k'') demo_body (demo_world 0) = (Inr (JsonAnswer a), w1)" using demo_served by blast
  have "scan_sound (\<lambda>xs. xs)" by (simp add: scan_sound_def)
  from served_for_tenant [OF s this] obtain k where k: "key_to_row k \<in> set (db_api_keys demo_db1)"
    "written_for (ak_organization_id k) (ak_id k) demo_db1 (w_db w1)" by (auto simp: demo_world_def)
  from k(1) have "k = demo_key" by (auto simp: demo_db1_def dest: key_to_row_inj)
  with k(2) s show ?thesis by (auto simp: demo_key_def)
qed

end
