(* ===== verification/Admin.thy ===== *)
theory Admin
  imports Schemas Http ApiKeys
begin

text \<open>
  The operator's routes (\<open>api/routes/organizations.py\<close>, \<open>api/routes/api_keys.py\<close>) with their schemas
  (\<open>api/schemas/organizations.py\<close>, \<open>api/schemas/api_keys.py\<close>): the operator is authorized, the argument is
  validated, the use case runs, and its result is mapped to the wrap. How a text is read as a UUID is
  pydantic's: the validator \<open>uuid_v\<close> is a parameter.
\<close>

section \<open>Schemas\<close>

record create_organization_request =
  cor_name :: string
  cor_slug :: string

definition create_organization_request_v :: "create_organization_request validator" where
  "create_organization_request_v = v_object (\<lambda>loc kvs. and_check
     (apply_v (map_r (\<lambda>n s. \<lparr>cor_name = n, cor_slug = s\<rparr>)
       (v_field kvs loc ''name'' min_length_1 None)) (v_field kvs loc ''slug'' min_length_1 None))
     (extra_fields [''name'', ''slug''] loc kvs))"

record organization_schema =
  ogs_id :: uuid
  ogs_name :: string
  ogs_slug :: string
  ogs_status :: organization_status
  ogs_created_at :: datetime
  ogs_updated_at :: datetime

definition organization_from_domain :: "organization \<Rightarrow> organization_schema" where
  "organization_from_domain og = \<lparr>ogs_id = org_id og, ogs_name = org_name og, ogs_slug = org_slug og, ogs_status = org_status og,
     ogs_created_at = org_created_at og, ogs_updated_at = org_updated_at og\<rparr>"

record create_api_key_request =
  car_organization_id :: uuid
  car_name :: "string option"

definition create_api_key_request_v :: "uuid validator \<Rightarrow> create_api_key_request validator" where
  "create_api_key_request_v uuid_v = v_object (\<lambda>loc kvs. and_check
     (apply_v (map_r (\<lambda>i n. \<lparr>car_organization_id = i, car_name = n\<rparr>)
       (v_field kvs loc ''organization_id'' uuid_v None)) (v_field kvs loc ''name'' (v_optional min_length_1) (Some None)))
     (extra_fields [''organization_id'', ''name''] loc kvs))"

record api_key_schema =
  aks_id :: uuid
  aks_organization_id :: uuid
  aks_name :: "string option"
  aks_prefix :: string
  aks_status :: api_key_status
  aks_created_at :: datetime
  aks_revoked_at :: "datetime option"
  aks_updated_at :: datetime

definition api_key_from_domain :: "api_key_metadata \<Rightarrow> api_key_schema" where
  "api_key_from_domain m = \<lparr>aks_id = km_id m, aks_organization_id = km_organization_id m, aks_name = km_name m,
     aks_prefix = km_prefix m, aks_status = km_status m, aks_created_at = km_created_at m,
     aks_revoked_at = km_revoked_at m, aks_updated_at = km_updated_at m\<rparr>"

record create_api_key_response = api_key_schema +
  akr_secret :: string

section \<open>Routes\<close>

definition post_organizations :: "fresh \<Rightarrow> create_organization_request \<Rightarrow> (db, exn, organization_schema) act" where
  "post_organizations fr body =
     bind_a (create_organization fr (cor_name body) (cor_slug body)) (\<lambda>og. ret_a (organization_from_domain og))"

definition get_organizations_by_id :: "uuid \<Rightarrow> (db, exn, organization_schema) act" where
  "get_organizations_by_id organization_id =
     bind_a (get_organization organization_id) (\<lambda>og. ret_a (organization_from_domain og))"

definition with_secret :: "create_api_key_result \<Rightarrow> create_api_key_response" where
  "with_secret result = api_key_schema.extend (api_key_from_domain (cr_api_key result)) \<lparr>akr_secret = cr_secret result\<rparr>"

definition post_api_keys :: "hasher \<Rightarrow> fresh \<Rightarrow> create_api_key_request \<Rightarrow> (db, exn, create_api_key_response) act" where
  "post_api_keys hs fr body =
     bind_a (create_api_key hs fr (car_organization_id body) (car_name body)) (\<lambda>result. ret_a (with_secret result))"

definition get_api_keys :: "(api_key_row list \<Rightarrow> api_key_row list) \<Rightarrow> uuid \<Rightarrow> (db, exn, api_key_schema list) act" where
  "get_api_keys scan organization_id =
     bind_a (list_api_keys scan organization_id) (\<lambda>keys. ret_a (map api_key_from_domain keys))"

definition delete_api_key :: "fresh \<Rightarrow> uuid \<Rightarrow> (db, exn, api_key_schema) act" where
  "delete_api_key fr key_id = bind_a (revoke_api_key fr key_id) (\<lambda>metadata. ret_a (api_key_from_domain metadata))"

definition post_rotate_api_key :: "hasher \<Rightarrow> fresh \<Rightarrow> uuid \<Rightarrow> (db, exn, create_api_key_response) act" where
  "post_rotate_api_key hs fr key_id = bind_a (rotate_api_key hs fr key_id) (\<lambda>result. ret_a (with_secret result))"

section \<open>Requests\<close>

datatype operator_request =
    PostOrganizations json
  | GetOrganizationsById string
  | PostApiKeys json
  | GetApiKeys "string option"
  | DeleteApiKey string
  | PostRotateApiKey string

datatype operator_answer =
    OrganizationAnswer organization_schema
  | ApiKeyAnswer api_key_schema
  | ApiKeyListAnswer "api_key_schema list"
  | SecretAnswer create_api_key_response

record gate =
  ga_hasher :: hasher
  ga_scan :: "api_key_row list \<Rightarrow> api_key_row list"
  ga_operator_token :: string
  ga_uuid_v :: "uuid validator"

text \<open>The dependency on the operator is resolved first, then what the framework found wrong with the argument is raised.\<close>

definition validated :: "verrors + 'a \<Rightarrow> exn + 'a" where
  "validated r = (case r of Inl errors \<Rightarrow> Inl (RequestValidationError errors) | Inr x \<Rightarrow> Inr x)"

definition operator_route ::
    "gate \<Rightarrow> string option \<Rightarrow> verrors + 'b \<Rightarrow> ('b \<Rightarrow> (db, exn, 'a) act) \<Rightarrow> ('a \<Rightarrow> operator_answer) \<Rightarrow> (db, exn, operator_answer) act" where
  "operator_route g authorization arg route wrap =
     bind_a (read_a (require_operator (ga_hasher g) (ga_scan g) (ga_operator_token g) authorization)) (\<lambda>_.
     bind_a (lift_a (validated arg)) (\<lambda>x. bind_a (route x) (\<lambda>y. ret_a (wrap y))))"

definition path_uuid :: "gate \<Rightarrow> string \<Rightarrow> string \<Rightarrow> verrors + uuid" where
  "path_uuid g name s = ga_uuid_v g [''path'', name] (JStr s)"

definition query_uuid :: "gate \<Rightarrow> string \<Rightarrow> string option \<Rightarrow> verrors + uuid" where
  "query_uuid g name value = (case value of None \<Rightarrow> fail_v [''query'', name] ''Field required'' | Some s \<Rightarrow> ga_uuid_v g [''query'', name] (JStr s))"

definition serve_operator :: "gate \<Rightarrow> fresh \<Rightarrow> string option \<Rightarrow> operator_request \<Rightarrow> (db, exn, operator_answer) act" where
  "serve_operator g fr authorization rq = (case rq of
     PostOrganizations body \<Rightarrow> operator_route g authorization (create_organization_request_v [''body''] body) (post_organizations fr) OrganizationAnswer
   | GetOrganizationsById i \<Rightarrow> operator_route g authorization (path_uuid g ''organization_id'' i) get_organizations_by_id OrganizationAnswer
   | PostApiKeys body \<Rightarrow> operator_route g authorization (create_api_key_request_v (ga_uuid_v g) [''body''] body) (post_api_keys (ga_hasher g) fr) SecretAnswer
   | GetApiKeys q \<Rightarrow> operator_route g authorization (query_uuid g ''organization_id'' q) (get_api_keys (ga_scan g)) ApiKeyListAnswer
   | DeleteApiKey i \<Rightarrow> operator_route g authorization (path_uuid g ''key_id'' i) (delete_api_key fr) ApiKeyAnswer
   | PostRotateApiKey i \<Rightarrow> operator_route g authorization (path_uuid g ''key_id'' i) (post_rotate_api_key (ga_hasher g) fr) SecretAnswer)"

section \<open>Lemmas\<close>

lemma validated_Inr [simp]: "validated r = Inr x \<longleftrightarrow> r = Inr x"
  by (auto simp: validated_def split: sum.splits)

lemma operator_route_Inr:
  "operator_route g auth arg route wrap d = (Inr a, d') \<longleftrightarrow>
     require_operator (ga_hasher g) (ga_scan g) (ga_operator_token g) auth d = Inr () \<and>
     (\<exists>x y. arg = Inr x \<and> route x d = (Inr y, d') \<and> a = wrap y)"
  by (auto simp: operator_route_def bind_a_eq_Inr)

lemma operator_route_refused:
  "require_operator (ga_hasher g) (ga_scan g) (ga_operator_token g) auth d = Inl e \<Longrightarrow> operator_route g auth arg route wrap d = (Inl e, d)"
  by (simp add: operator_route_def bind_a_def read_a_def)

lemma serve_refused:
  "require_operator (ga_hasher g) (ga_scan g) (ga_operator_token g) auth d = Inl e \<Longrightarrow> serve_operator g fr auth rq d = (Inl e, d)"
  by (simp add: serve_operator_def operator_route_refused split: operator_request.split)

lemma bearer_secret:
  "\<forall>c\<in>set s. \<not> is_space c \<Longrightarrow> s \<noteq> [] \<Longrightarrow> extract_bearer_token (Some (''Bearer '' @ s)) = Inr s"
proof -
  assume ns: "\<forall>c\<in>set s. \<not> is_space c" and ne: "s \<noteq> []"
  then have "strip s = s" by (intro strip_nonspace) auto
  moreover have "\<not> blank s" using ns ne by (cases s) auto
  moreover have "lower ''Bearer'' = ''bearer''" by code_simp
  ultimately show ?thesis
    by (simp add: extract_bearer_token_def extract_bearer_credentials_def partition_at_def Let_def is_space_def)
qed

text \<open>A secret that only revoked keys verify is refused.\<close>

lemma stale_secret_refused:
  assumes "db_ok d" and "scan_sound scan"
    and "\<forall>r\<in>set (db_api_keys d). hs_verify hs s (krow_secret_hash r) \<longrightarrow> krow_status r = ''revoked''"
  shows "authenticate hs scan s d = Inl InvalidApiKeyCredentialsError"
proof -
  obtain ks where ks: "key_find_by_prefix scan (derive_lookup_prefix s) d = Inr ks"
    "\<And>k. k \<in> set ks \<Longrightarrow> key_to_row k \<in> set (db_api_keys d)"
    using key_find_by_prefix_total [OF assms(1,2)] by blast
  have "principal_of_match (find (\<lambda>k. hs_verify hs s (ak_secret_hash k)) ks) d = Inl InvalidApiKeyCredentialsError"
  proof (cases "find (\<lambda>k. hs_verify hs s (ak_secret_hash k)) ks")
    case None
    then show ?thesis by (simp add: principal_of_match_def)
  next
    case (Some k)
    from find_SomeD [OF Some] have "hs_verify hs s (krow_secret_hash (key_to_row k))" "key_to_row k \<in> set (db_api_keys d)"
      using ks(2) by (auto simp: key_to_row_def)
    with assms(3) have "krow_status (key_to_row k) = ''revoked''" by blast
    then have "ak_status k \<noteq> KeyActive" by (cases "ak_status k") (auto simp: key_to_row_def)
    with Some show ?thesis by (simp add: principal_of_match_def)
  qed
  with ks(1) show ?thesis by (simp add: authenticate_def)
qed

lemma with_secret_sel [simp]:
  "aks_id (with_secret r) = km_id (cr_api_key r)" "aks_organization_id (with_secret r) = km_organization_id (cr_api_key r)"
  "aks_prefix (with_secret r) = km_prefix (cr_api_key r)" "akr_secret (with_secret r) = cr_secret r"
  by (simp_all add: with_secret_def api_key_schema.defs api_key_from_domain_def)

lemma to_metadata_sel [simp]: "km_id (to_metadata k) = ak_id k" "km_organization_id (to_metadata k) = ak_organization_id k"
  "km_prefix (to_metadata k) = ak_prefix k"
  by (simp_all add: to_metadata_def)

lemma key_replaced_rows:
  assumes "db_api_keys d' = key_replace row (db_api_keys d)" and "krow_status row = ''revoked''" and "r \<in> set (db_api_keys d')"
  shows "if krow_id r = krow_id row then krow_status r = ''revoked'' else r \<in> set (db_api_keys d)"
  using assms by (auto simp: key_replace_def split: if_splits)

lemma revoked_row: "krow_id (key_to_row (revoked_copy k ts)) = ak_id k" "krow_status (key_to_row (revoked_copy k ts)) = ''revoked''"
  by (simp_all add: key_to_row_def)

lemma revoke_marks:
  assumes "revoke_api_key fr i d = (Inr m, d')" and "r \<in> set (db_api_keys d')"
  shows "km_id m = i" and "if krow_id r = i then krow_status r = ''revoked'' else r \<in> set (db_api_keys d)"
proof -
  from assms(1) obtain k st d1 ev where k: "key_get i d = Inr (Some k)" and st: "key_save (revoked_copy k (fr_now fr)) d = (Inr st, d1)"
    and a: "key_audit fr ''api_key.revoked'' (ak_organization_id st) (ak_id st) [(''prefix'', ak_prefix st)] d1 = (Inr ev, d')"
    and m: "m = to_metadata st" and rv: "aware (fr_now fr)" "ak_status k = KeyActive"
    by (auto simp: revoke_api_key_def bind_a_iffs revoke_key_Inr revoked_copy_def dest!: key_get_Some split: option.splits)
  have i: "ak_id k = i" "api_key_ok k" using key_get_Some [OF k] by auto
  then have ok: "api_key_ok (revoked_copy k (fr_now fr))"
    unfolding revoked_copy_def using rv by (rule_tac api_key_ok_revoked)
  then have "st = revoked_copy k (fr_now fr)" "db_api_keys d1 = key_replace (key_to_row (revoked_copy k (fr_now fr))) (db_api_keys d)"
    using st by (auto simp: key_save_def key_to_domain_row split: if_splits)
  with key_replaced_rows [of d' _ d r] key_audit_keys [OF a] assms(2) i m revoked_row
  show "km_id m = i" and "if krow_id r = i then krow_status r = ''revoked'' else r \<in> set (db_api_keys d)" by auto
qed

lemma rotate_marks:
  assumes "rotate_api_key hs fr i d = (Inr res, d')" and "r \<in> set (db_api_keys d')"
  shows "krow_secret_hash r = hs_hash hs (fr_salt fr) (cr_secret res) \<or>
    (if krow_id r = i then krow_status r = ''revoked'' else r \<in> set (db_api_keys d))"
proof -
  from assms(1) obtain k st d1 ev where k: "key_get i d = Inr (Some k)"
    and st: "key_revoke_and_add (revoked_copy k (fr_now fr)) (new_key hs fr (ak_organization_id k) (ak_name k)) d = (Inr st, d1)"
    and a: "key_audit fr ''api_key.rotated'' (ak_organization_id st) (ak_id st)
       [(''previous_key_id'', uuid_str i), (''prefix'', ak_prefix st)] d1 = (Inr ev, d')"
    and res: "cr_secret res = KEY_PUBLIC_PREFIX @ fr_token fr"
    by (auto simp: rotate_api_key_def bind_a_iffs revoke_key_Inr revoked_copy_def generate_secret_def Let_def validate_api_key_Inr
        dest!: key_get_Some split: option.splits)
  have i: "ak_id k = i" using key_get_Some [OF k] by auto
  let ?old = "key_to_row (revoked_copy k (fr_now fr))" and ?new = "key_to_row (new_key hs fr (ak_organization_id k) (ak_name k))"
  have "db_api_keys d1 = key_replace ?old (db_api_keys d) @ [?new]"
    using st by (auto simp: key_revoke_and_add_def split: if_splits)
  then have "r = ?new \<or> r \<in> set (key_replace ?old (db_api_keys d))" using key_audit_keys [OF a] assms(2) by auto
  moreover have "krow_secret_hash ?new = hs_hash hs (fr_salt fr) (cr_secret res)" using res by (simp add: key_to_row_def)
  ultimately show ?thesis
    using i revoked_row [of k "fr_now fr"] by (auto simp: key_replace_def split: if_splits)
qed

section \<open>The life of a key\<close>

lemma principal_refused:
  "extract_bearer_token auth = Inr s \<Longrightarrow> authenticate hs scan s d = Inl InvalidApiKeyCredentialsError \<Longrightarrow>
   get_authenticated_principal hs scan auth d = Inl (unauthorized UNAUTHORIZED_MESSAGE)"
  by (simp add: get_authenticated_principal_def)


definition demo_gate :: gate where
  "demo_gate = \<lparr>ga_hasher = demo_hasher, ga_scan = (\<lambda>xs. xs), ga_operator_token = ''op'',
     ga_uuid_v = (\<lambda>loc j. if j = JStr ''1'' then Inr 1 else if j = JStr ''5'' then Inr 5 else fail_v loc ''Input should be a valid UUID'')\<rparr>"

lemma demo_operator: "require_operator demo_hasher (\<lambda>xs. xs) ''op'' (Some ''Bearer op'') d = Inr ()"
proof -
  have "strip ''op'' = ''op''" "extract_operator_bearer_token (Some ''Bearer op'') = Inr ''op''" "compare_digest ''op'' ''op'' = Inr True"
    by code_simp+
  then show ?thesis by (simp add: require_operator_def)
qed

lemma demo_post_api_keys:
  "serve_operator demo_gate (demo_fresh 5 6 ''abcdefgh1'') (Some ''Bearer op'') (PostApiKeys (JObj [(''organization_id'', JStr ''1'')])) demo_db =
     (Inr (SecretAnswer (with_secret \<lparr>cr_api_key = to_metadata demo_key, cr_secret = ''airt_abcdefgh1''\<rparr>)), demo_db1)"
proof -
  have "create_api_key_request_v (ga_uuid_v demo_gate) [''body''] (JObj [(''organization_id'', JStr ''1'')]) =
      Inr \<lparr>car_organization_id = 1, car_name = None\<rparr>" by code_simp
  then show ?thesis
    by (simp add: serve_operator_def operator_route_Inr demo_operator post_api_keys_def bind_a_eq_Inr demo_create)
      (simp add: demo_gate_def demo_operator demo_create)
qed

lemma demo_delete_api_key:
  "serve_operator demo_gate (demo_fresh 0 7 []) (Some ''Bearer op'') (DeleteApiKey ''5'') demo_db1 =
     (Inr (ApiKeyAnswer (api_key_from_domain (to_metadata (revoked_copy demo_key sample_instant)))), demo_db2)"
  by (simp add: serve_operator_def operator_route_Inr delete_api_key_def bind_a_eq_Inr demo_revoke path_uuid_def)
    (simp add: demo_gate_def demo_operator demo_revoke)


end
