(* ===== verification/Tenant.thy ===== *)
theory Tenant
  imports Admin Endpoint
begin

text \<open>
  The tenant's own resources: prompts, MCP servers and chunks of knowledge (\<open>api/routes/prompts.py\<close>,
  \<open>api/routes/mcp_servers.py\<close>, \<open>api/routes/semantic_chunks.py\<close> and their schemas). The caller is
  authenticated, the argument is validated, the use case runs for the caller's organization.
\<close>

section \<open>Schemas\<close>

record prompt_message_schema =
  pms_role :: message_role
  pms_content :: string

definition prompt_message_schema_v :: "prompt_message_schema validator" where
  "prompt_message_schema_v = v_object (\<lambda>loc kvs. and_check
     (apply_v (map_r (\<lambda>r c. \<lparr>pms_role = r, pms_content = c\<rparr>)
       (v_field kvs loc ''role'' message_role_v None)) (v_field kvs loc ''content'' v_str None))
     (extra_fields [''role'', ''content''] loc kvs))"

definition prompt_message_to_domain :: "prompt_message_schema \<Rightarrow> exn + prompt_message_template" where
  "prompt_message_to_domain s = mk_prompt_message_template (pms_role s) (pms_content s)"

record create_prompt_request =
  cpr_name :: string
  cpr_messages :: "prompt_message_schema list"

definition create_prompt_request_v :: "create_prompt_request validator" where
  "create_prompt_request_v = v_object (\<lambda>loc kvs. and_check
     (apply_v (map_r (\<lambda>n ms. \<lparr>cpr_name = n, cpr_messages = ms\<rparr>)
       (v_field kvs loc ''name'' min_length_1 None)) (v_field kvs loc ''messages'' (non_empty_list (v_list prompt_message_schema_v)) None))
     (extra_fields [''name'', ''messages''] loc kvs))"

record prompt_version_schema =
  pvs_name :: string
  pvs_version :: int
  pvs_messages :: "prompt_message_schema list"
  pvs_variables :: "string list"
  pvs_created_at :: datetime

definition prompt_version_from_domain :: "prompt_template \<Rightarrow> prompt_version_schema" where
  "prompt_version_from_domain t = \<lparr>pvs_name = pt_name t, pvs_version = pt_version t,
     pvs_messages = map (\<lambda>m. \<lparr>pms_role = pm_role m, pms_content = pm_content m\<rparr>) (pt_messages t),
     pvs_variables = sorted_list_of_set (template_placeholders t), pvs_created_at = pt_created_at t\<rparr>"

record create_mcp_server_request =
  cmr_name :: string
  cmr_url :: string
  cmr_headers :: "(string, string) dict"

definition create_mcp_server_request_v :: "create_mcp_server_request validator" where
  "create_mcp_server_request_v = v_object (\<lambda>loc kvs. and_check
     (apply_v (apply_v (map_r (\<lambda>n u h. \<lparr>cmr_name = n, cmr_url = u, cmr_headers = h\<rparr>)
       (v_field kvs loc ''name'' (v_constrain min_length_1 (\<lambda>s. length s \<le> 64) ''String should have at most 64 characters'') None))
       (v_field kvs loc ''url'' min_length_1 None))
       (v_field kvs loc ''headers'' (v_dict v_str) (Some [])))
     (extra_fields [''name'', ''url'', ''headers''] loc kvs))"

record mcp_server_created_schema =
  mcc_name :: string
  mcc_organization_id :: string
  mcc_created_at :: datetime

definition mcp_server_created_from_domain :: "mcp_server \<Rightarrow> exn + mcp_server_created_schema" where
  "mcp_server_created_from_domain server = (case ms_created_at server of
     None \<Rightarrow> Inl PyAssertionError
   | Some t \<Rightarrow> Inr \<lparr>mcc_name = ms_name server, mcc_organization_id = uuid_str (ms_organization_id server), mcc_created_at = t\<rparr>)"

record mcp_server_summary_schema =
  mcy_name :: string
  mcy_created_at :: datetime

definition mcp_server_summary_from_domain :: "mcp_server_summary \<Rightarrow> mcp_server_summary_schema" where
  "mcp_server_summary_from_domain s = \<lparr>mcy_name = mss_name s, mcy_created_at = mss_created_at s\<rparr>"

definition mcp_tool_dump :: "tool_definition \<Rightarrow> json" where
  "mcp_tool_dump tool = JObj [(''name'', JStr (td_name tool)), (''description'', JStr (td_description tool)), (''parameters'', td_parameters tool)]"

record create_semantic_chunk_request =
  csr_content :: string
  csr_embedding_model :: string

definition create_semantic_chunk_request_v :: "create_semantic_chunk_request validator" where
  "create_semantic_chunk_request_v = v_object (\<lambda>loc kvs. and_check
     (apply_v (map_r (\<lambda>c m. \<lparr>csr_content = c, csr_embedding_model = m\<rparr>)
       (v_field kvs loc ''content'' min_length_1 None))
       (v_field kvs loc ''embedding_model'' min_length_1 (Some DEFAULT_RAG_EMBEDDING_MODEL)))
     (extra_fields [''content'', ''embedding_model''] loc kvs))"

record semantic_chunk_created_schema =
  scc_id :: uuid
  scc_organization_id :: uuid
  scc_created_at :: datetime

definition semantic_chunk_created_from_domain :: "chunk_row \<Rightarrow> semantic_chunk_created_schema" where
  "semantic_chunk_created_from_domain c =
     \<lparr>scc_id = crow_id c, scc_organization_id = crow_organization_id c, scc_created_at = crow_created_at c\<rparr>"

section \<open>Routes\<close>

record 'u tenant_routes =
  te_hasher :: hasher
  te_scan :: "api_key_row list \<Rightarrow> api_key_row list"
  te_bracketed_ok :: "string \<Rightarrow> bool"
  te_mcp_client :: "'u http_client"
  te_embedders :: "'u embedders"
  te_embedding_catalog :: catalog

definition post_prompts :: "fresh \<Rightarrow> principal \<Rightarrow> create_prompt_request \<Rightarrow> ('r, 'u, prompt_version_schema) service" where
  "post_prompts fr p body =
     bind_a (lift_a (traverse prompt_message_to_domain (cpr_messages body))) (\<lambda>messages.
     bind_a (db_a (create_prompt_version fr (pl_organization_id p) (cpr_name body) messages)) (\<lambda>template.
     ret_a (prompt_version_from_domain template)))"

definition get_prompts :: "principal \<Rightarrow> string \<Rightarrow> ('r, 'u, prompt_version_schema list) service" where
  "get_prompts p name =
     bind_a (db_a (get_prompt_versions (pl_organization_id p) name)) (\<lambda>versions. ret_a (map prompt_version_from_domain versions))"

definition post_mcp_servers :: "'u tenant_routes \<Rightarrow> principal \<Rightarrow> create_mcp_server_request \<Rightarrow> ('r, 'u, mcp_server_created_schema) service" where
  "post_mcp_servers te p body =
     bind_a (register_mcp_server (te_bracketed_ok te) (pl_organization_id p) (cmr_name body) (cmr_url body) (Some (cmr_headers body))) (\<lambda>server.
     lift_a (mcp_server_created_from_domain server))"

definition get_mcp_servers :: "'u tenant_routes \<Rightarrow> principal \<Rightarrow> ('r, 'u, mcp_server_summary_schema list) service" where
  "get_mcp_servers te p =
     bind_a (list_mcp_servers (te_bracketed_ok te) (pl_organization_id p)) (\<lambda>summaries. ret_a (map mcp_server_summary_from_domain summaries))"

definition get_mcp_server_tools :: "'u tenant_routes \<Rightarrow> principal \<Rightarrow> string \<Rightarrow> ('r, 'u, json list) service" where
  "get_mcp_server_tools te p name =
     bind_a (list_mcp_server_tools (te_bracketed_ok te) (te_mcp_client te) (pl_organization_id p) name) (\<lambda>tools. ret_a (map mcp_tool_dump tools))"

definition post_semantic_chunks ::
    "'u tenant_routes \<Rightarrow> principal \<Rightarrow> create_semantic_chunk_request \<Rightarrow> ('r, 'u, semantic_chunk_created_schema) service" where
  "post_semantic_chunks te p body =
     bind_a (ingest_semantic_chunk (te_embedders te) (te_embedding_catalog te) (pl_organization_id p) (csr_content body) (csr_embedding_model body))
       (\<lambda>chunk. ret_a (semantic_chunk_created_from_domain chunk))"

section \<open>Requests\<close>

datatype tenant_request =
    PostPrompts json
  | GetPrompts string
  | PostMcpServers json
  | GetMcpServers
  | GetMcpServerTools string
  | PostSemanticChunks json

datatype tenant_answer =
    PromptVersionAnswer prompt_version_schema
  | PromptVersionsAnswer "prompt_version_schema list"
  | McpServerAnswer mcp_server_created_schema
  | McpServersAnswer "mcp_server_summary_schema list"
  | McpToolsAnswer "json list"
  | ChunkAnswer semantic_chunk_created_schema

definition tenant_route ::
    "'u tenant_routes \<Rightarrow> string option \<Rightarrow> verrors + 'b \<Rightarrow> (principal \<Rightarrow> 'b \<Rightarrow> ('r, 'u, 'a) service) \<Rightarrow> ('a \<Rightarrow> tenant_answer) \<Rightarrow>
     ('r, 'u, tenant_answer) service" where
  "tenant_route te authorization arg route wrap =
     bind_a (db_a (read_a (get_authenticated_principal (te_hasher te) (te_scan te) authorization))) (\<lambda>p.
     bind_a (lift_a (validated arg)) (\<lambda>x. bind_a (route p x) (\<lambda>y. ret_a (wrap y))))"

definition serve_tenant :: "'u tenant_routes \<Rightarrow> fresh \<Rightarrow> string option \<Rightarrow> tenant_request \<Rightarrow> ('r, 'u, tenant_answer) service" where
  "serve_tenant te fr authorization rq = (case rq of
     PostPrompts body \<Rightarrow> tenant_route te authorization (create_prompt_request_v [''body''] body) (post_prompts fr) PromptVersionAnswer
   | GetPrompts name \<Rightarrow> tenant_route te authorization (Inr name) get_prompts PromptVersionsAnswer
   | PostMcpServers body \<Rightarrow> tenant_route te authorization (create_mcp_server_request_v [''body''] body) (post_mcp_servers te) McpServerAnswer
   | GetMcpServers \<Rightarrow> tenant_route te authorization (Inr ()) (\<lambda>p _. get_mcp_servers te p) McpServersAnswer
   | GetMcpServerTools name \<Rightarrow> tenant_route te authorization (Inr name) (get_mcp_server_tools te) McpToolsAnswer
   | PostSemanticChunks body \<Rightarrow> tenant_route te authorization (create_semantic_chunk_request_v [''body''] body) (post_semantic_chunks te) ChunkAnswer)"

section \<open>Isolation\<close>

text \<open>The database without, and with only, the rows of one organization in the tables of the tenants' resources.\<close>

definition others :: "uuid \<Rightarrow> db \<Rightarrow> db" where
  "others org d = d\<lparr>db_prompts := filter (\<lambda>r. prow_organization_id r \<noteq> org) (db_prompts d),
     db_mcp_servers := filter (\<lambda>r. mrow_organization_id r \<noteq> org) (db_mcp_servers d),
     db_chunks := filter (\<lambda>r. crow_organization_id r \<noteq> org) (db_chunks d)\<rparr>"

definition own :: "uuid \<Rightarrow> db \<Rightarrow> db" where
  "own org d = d\<lparr>db_prompts := filter (\<lambda>r. prow_organization_id r = org) (db_prompts d),
     db_mcp_servers := filter (\<lambda>r. mrow_organization_id r = org) (db_mcp_servers d),
     db_chunks := filter (\<lambda>r. crow_organization_id r = org) (db_chunks d)\<rparr>"

definition apart :: "uuid \<Rightarrow> ('r, 'u) world \<Rightarrow> db \<times> 'r \<times> metrics" where
  "apart org w = (others org (w_db w), w_redis w, w_metrics w)"

lemma apart_of_stored: "(\<And>c. keeps (\<lambda>w. stored w = c) m) \<Longrightarrow> keeps (\<lambda>w. apart org w = k) m"
proof -
  assume a: "\<And>c. keeps (\<lambda>w. stored w = c) m"
  have "apart org w = (others org (fst (stored w)), snd (stored w))" for w :: "('a, 'b) world"
    by (simp add: apart_def stored_def)
  with a show ?thesis unfolding keeps_def by metis
qed

lemma keeps_lifted: "(\<And>x. r = Inr x \<Longrightarrow> keeps P (f x)) \<Longrightarrow> keeps P (bind_a (lift_a r) f)"
  by (cases r) (simp_all add: keeps_def bind_a_def lift_a_def)

lemma keeps_db: "(\<And>d. others org (snd (m d)) = others org d) \<Longrightarrow> keeps (\<lambda>w. apart org w = k) (db_a m)"
  by (auto simp: keeps_def db_a_def apart_def split: prod.split) (metis snd_conv)

lemma keeps_apart [simp]: "keeps (\<lambda>w. apart org w = k) now_a" "keeps (\<lambda>w. apart org w = k) uuid4_a"
  "keeps (\<lambda>w. apart org w = k) (db_a (read_a f))"
  by (simp_all add: apart_of_stored)

lemma create_prompt_apart: "others org (snd (create_prompt_version fr org name ms d)) = others org d"
  by (auto simp: create_prompt_version_def bind_a_def lift_a_def prompt_create_version_def Let_def others_def split: sum.split)

lemma mcp_add_apart: "ms_organization_id s = org \<Longrightarrow> others org (snd (mcp_add br s d)) = others org d"
  by (auto simp: mcp_add_def Let_def others_def mcp_row_def split: option.split)

lemma chunk_add_apart: "crow_organization_id c = org \<Longrightarrow> others org (snd (chunk_add c d)) = others org d"
  by (auto simp: chunk_add_def others_def)

lemma register_apart: "keeps (\<lambda>w. apart org w = k) (register_mcp_server br org name url headers)"
  unfolding register_mcp_server_def
  by (intro keeps_bind_a keeps_lifted keeps_db mcp_add_apart) (auto simp: mk_mcp_server_def bind_r_eq_Inr)

lemma ingest_apart: "keeps (\<lambda>w. apart org w = k) (ingest_semantic_chunk ps cat org content model)"
proof -
  have org: "crow_organization_id c = org" if "mk_semantic_chunk \<lparr>crow_id = i, crow_organization_id = org, crow_content = content,
      crow_embedding = v, crow_created_at = t\<rparr> = Inr c" for i v t c
    using that by (auto simp: mk_semantic_chunk_def bind_r_eq_Inr Let_def)
  have "keeps (\<lambda>w. apart org w = k) (index_semantic_chunk org content v)" for v
    unfolding index_semantic_chunk_def
    by (auto intro!: keeps_bind_a keeps_lifted keeps_db chunk_add_apart org simp: read_a_def split: option.split)
  then show ?thesis
    unfolding ingest_semantic_chunk_def by (intro keeps_bind_a) (auto intro: apart_of_stored embed_text_stored)
qed

lemma tenant_route_Inr:
  "tenant_route te auth arg route wrap w = (Inr a, w') \<longleftrightarrow>
     (\<exists>p x y. get_authenticated_principal (te_hasher te) (te_scan te) auth (w_db w) = Inr p \<and> arg = Inr x \<and>
        route p x w = (Inr y, w') \<and> a = wrap y)"
  by (auto simp: tenant_route_def bind_a_eq_Inr db_a_def read_a_def)

lemma tenant_route_authenticated:
  "get_authenticated_principal (te_hasher te) (te_scan te) auth (w_db w) = Inr p \<Longrightarrow>
   tenant_route te auth arg route wrap w = bind_a (lift_a (validated arg)) (\<lambda>x. bind_a (route p x) (\<lambda>y. ret_a (wrap y))) w"
  by (simp add: tenant_route_def bind_a_def db_a_def read_a_def)

lemma keeps_tenant_route:
  "get_authenticated_principal (te_hasher te) (te_scan te) auth (w_db w) = Inr p \<Longrightarrow> (\<And>x. keeps P (route p x)) \<Longrightarrow> P w \<Longrightarrow>
   P (snd (tenant_route te auth arg route wrap w))"
proof -
  assume p: "get_authenticated_principal (te_hasher te) (te_scan te) auth (w_db w) = Inr p" and "\<And>x. keeps P (route p x)" and P: "P w"
  then have "keeps P (bind_a (lift_a (validated arg)) (\<lambda>x. bind_a (route p x) (\<lambda>y. ret_a (wrap y))))"
    by (intro keeps_bind_a keeps_lift_a keeps_ret_a)
  with P show ?thesis by (simp add: tenant_route_authenticated [OF p] keeps_def)
qed

lemma serve_tenant_apart:
  assumes "get_authenticated_principal (te_hasher te) (te_scan te) auth (w_db w) = Inr p"
  shows "apart (pl_organization_id p) (snd (serve_tenant te fr auth rq w)) = apart (pl_organization_id p) w"
proof -
  let ?P = "\<lambda>w'. apart (pl_organization_id p) w' = apart (pl_organization_id p) w"
  have get: "keeps ?P (db_a (get_prompt_versions org n))" for org n
    by (intro keeps_db) (simp add: get_prompt_versions_def bind_a_def lift_a_def read_a_def raise_a_def ret_a_def split: sum.split)
  have "keeps ?P (post_prompts fr p b)" for b
    unfolding post_prompts_def by (intro keeps_bind_a keeps_lift_a keeps_db create_prompt_apart keeps_ret_a)
  moreover have "keeps ?P (get_prompts p n)" for n
    unfolding get_prompts_def by (intro keeps_bind_a get keeps_ret_a)
  moreover have "keeps ?P (post_mcp_servers te p b)" for b
    unfolding post_mcp_servers_def by (intro keeps_bind_a register_apart keeps_lift_a)
  moreover have "keeps ?P (get_mcp_servers te p)"
    unfolding get_mcp_servers_def list_mcp_servers_def by (intro keeps_bind_a keeps_apart keeps_lift_a keeps_ret_a)
  moreover have "keeps ?P (get_mcp_server_tools te p n)" for n
    unfolding get_mcp_server_tools_def by (intro keeps_bind_a apart_of_stored list_server_tools_stored keeps_ret_a)
  moreover have "keeps ?P (post_semantic_chunks te p b)" for b
    unfolding post_semantic_chunks_def by (intro keeps_bind_a ingest_apart keeps_ret_a)
  ultimately show ?thesis
    by (cases rq) (auto simp only: serve_tenant_def tenant_request.case intro!: keeps_tenant_route [OF assms, where P = ?P])
qed

text \<open>What is read of another organization's resources: nothing.\<close>

lemma own_tables:
  assumes "own org d2 = own org d"
  shows "db_organizations d2 = db_organizations d" and "db_api_keys d2 = db_api_keys d"
    and "filter (\<lambda>r. prow_organization_id r = org) (db_prompts d2) = filter (\<lambda>r. prow_organization_id r = org) (db_prompts d)"
    and "filter (\<lambda>r. mrow_organization_id r = org) (db_mcp_servers d2) = filter (\<lambda>r. mrow_organization_id r = org) (db_mcp_servers d)"
  using arg_cong [OF assms, of db_organizations] arg_cong [OF assms, of db_api_keys] arg_cong [OF assms, of db_prompts]
    arg_cong [OF assms, of db_mcp_servers] by (simp_all add: own_def)

lemma principal_of_tables:
  assumes "db_organizations d2 = db_organizations d" and "db_api_keys d2 = db_api_keys d"
  shows "get_authenticated_principal hs scan auth d2 = get_authenticated_principal hs scan auth d"
proof -
  have "key_find_by_prefix scan pre d2 = key_find_by_prefix scan pre d" for pre
    by (simp only: key_find_by_prefix_def assms)
  moreover have "principal_of_match m d2 = principal_of_match m d" for m
    by (simp only: principal_of_match_def org_get_def assms)
  ultimately have "authenticate hs scan secret d2 = authenticate hs scan secret d" for secret by (simp only: authenticate_def)
  then show ?thesis by (simp only: get_authenticated_principal_def)
qed

lemmas principal_of_own = principal_of_tables [OF own_tables(1,2)]

lemma prompt_rows_own: "own org d2 = own org d \<Longrightarrow> prompt_rows org name d2 = prompt_rows org name d"
proof -
  assume a: "own org d2 = own org d"
  have "prompt_rows org name d = filter (\<lambda>r. prow_name r = name) (filter (\<lambda>r. prow_organization_id r = org) (db_prompts d))" for d
    by (simp add: prompt_rows_def conj_commute)
  then show ?thesis by (simp only: own_tables [OF a])
qed

lemma find_filter: "find P (filter Q xs) = find (\<lambda>x. Q x \<and> P x) xs"
  by (induction xs) auto

lemma mcp_get_own: "own org d2 = own org d \<Longrightarrow> mcp_get_by_name br org name d2 = mcp_get_by_name br org name d"
proof -
  assume a: "own org d2 = own org d"
  have "find (\<lambda>r. mrow_organization_id r = org \<and> mrow_name r = name) (db_mcp_servers d) =
      find (\<lambda>r. mrow_name r = name) (filter (\<lambda>r. mrow_organization_id r = org) (db_mcp_servers d))" for d
    by (simp add: find_filter)
  from this [of d2] this [of d] show ?thesis by (simp add: mcp_get_by_name_def own_tables(4) [OF a])
qed

fun reads :: "tenant_request \<Rightarrow> bool" where
  "reads (GetPrompts _) = True"
| "reads GetMcpServers = True"
| "reads (GetMcpServerTools _) = True"
| "reads _ = False"

lemma reads_own:
  assumes "own (pl_organization_id p) d2 = own (pl_organization_id p) (w_db w)" and "reads rq"
    and p: "get_authenticated_principal (te_hasher te) (te_scan te) auth (w_db w) = Inr p"
  shows "fst (serve_tenant te fr auth rq (w\<lparr>w_db := d2\<rparr>)) = fst (serve_tenant te fr auth rq w)"
proof -
  have p2: "get_authenticated_principal (te_hasher te) (te_scan te) auth (w_db (w\<lparr>w_db := d2\<rparr>)) = Inr p"
    using p principal_of_own [OF assms(1) assms(1)] by simp
  let ?org = "pl_organization_id p"
  have prompts: "prompt_list_versions ?org n d2 = prompt_list_versions ?org n (w_db w)" for n
    by (simp only: prompt_list_versions_def prompt_rows_own [OF assms(1)])
  have servers: "mcp_list_by_organization br ?org d2 = mcp_list_by_organization br ?org (w_db w)" for br
    by (simp only: mcp_list_by_organization_def own_tables [OF assms(1)])
  note unfolded = serve_tenant_def tenant_request.case tenant_route_authenticated [OF p] tenant_route_authenticated [OF p2] validated_def
  show ?thesis
  proof (cases rq)
    case (GetPrompts n)
    then show ?thesis
      by (auto simp: unfolded get_prompts_def get_prompt_versions_def prompts act_simps db_a_def split: sum.split)
  next
    case GetMcpServers
    then show ?thesis
      by (auto simp: unfolded get_mcp_servers_def list_mcp_servers_def servers act_simps db_a_def split: sum.split)
  next
    case (GetMcpServerTools n)
    then show ?thesis
      by (auto simp: unfolded get_mcp_server_tools_def list_mcp_server_tools_def mcp_get_own [OF assms(1)] list_tools_def act_simps
          db_a_def uuid4_a_def upstream_a_def split: sum.split prod.split option.split)
  qed (use assms(2) in simp_all)
qed


definition demo_tenant :: "demo_state tenant_routes" where
  "demo_tenant = \<lparr>te_hasher = demo_hasher, te_scan = (\<lambda>xs. xs), te_bracketed_ok = (\<lambda>s. False),
     te_mcp_client = \<lparr>hc_post = (\<lambda>r u. (Inl (), u)), hc_stream = (\<lambda>r u. (Inl (), u))\<rparr>, te_embedders = [], te_embedding_catalog = []\<rparr>"

definition foreign_prompt :: prompt_row where
  "foreign_prompt = \<lparr>prow_id = 9, prow_organization_id = 2, prow_name = ''p'', prow_version = 1, prow_messages = [(''user'', ''hi'')],
     prow_created_at = sample_instant\<rparr>"

lemma demo_tenant_principal:
  "get_authenticated_principal (te_hasher demo_tenant) (te_scan demo_tenant) (Some ''Bearer airt_abcdefgh1'') (w_db (demo_world 0)) = Inr demo_principal"
  by (simp add: demo_tenant_def demo_world_def demo_principal_authenticated)


section \<open>A published prompt is the one used\<close>

lemma insort_key_snoc: "f y \<le> f x \<Longrightarrow> insort_key f y (zs @ [x]) = insort_key f y zs @ [x]"
  by (induction zs) auto

lemma sort_key_snoc: "(\<And>y. y \<in> set xs \<Longrightarrow> f y \<le> f x) \<Longrightarrow> sort_key f (xs @ [x]) = sort_key f xs @ [x]"
  by (induction xs) (auto simp: insort_key_snoc)

lemma insort_key_Cons: "f x < f y \<Longrightarrow> insort_key f y (x # zs) = x # insort_key f y zs"
  using not_le [of "f y" "f x"] by simp

lemma sort_key_snoc_first: "(\<And>y. y \<in> set xs \<Longrightarrow> f x < f y) \<Longrightarrow> sort_key f (xs @ [x]) = x # sort_key f xs"
proof (induction xs)
  case (Cons a xs)
  then have "f x < f a" "sort_key f (xs @ [x]) = x # sort_key f xs" by simp_all
  then show ?case using insort_key_Cons [of f x a] by simp
qed simp

lemma latest_bounds: "r \<in> set rows \<Longrightarrow> prow_version r < (case latest_version rows of None \<Rightarrow> 0 | Some v \<Rightarrow> v) + 1"
  by (cases rows) (auto simp: latest_version_def intro: le_imp_less_Suc Max_ge)

lemma prompt_created:
  assumes "create_prompt_version fr org name ms d = (Inr t, d')"
  shows "\<exists>row. prompt_to_domain row = Inr t \<and> d' = d\<lparr>db_prompts := db_prompts d @ [row]\<rparr> \<and> prow_organization_id row = org \<and>
    prow_name row = name \<and> prow_version row = pt_version t \<and> pt_name t = name \<and> (\<forall>r\<in>set (prompt_rows org name d). prow_version r < pt_version t)"
proof -
  let ?n = "(case latest_version (prompt_rows org name d) of None \<Rightarrow> 0 | Some v \<Rightarrow> v) + 1"
  let ?row = "\<lparr>prow_id = fr_id fr, prow_organization_id = org, prow_name = name, prow_version = ?n,
     prow_messages = map (\<lambda>m. (role_value (pm_role m), pm_content m)) ms, prow_created_at = fr_now fr\<rparr>"
  from assms have "prompt_to_domain ?row = Inr t" "d' = d\<lparr>db_prompts := db_prompts d @ [?row]\<rparr>"
    by (auto simp: create_prompt_version_def bind_a_iffs prompt_create_version_def Let_def split: if_splits)
  moreover from this(1) have "pt_name t = name \<and> pt_version t = ?n"
    by (auto simp: prompt_to_domain_def mk_prompt_template_def bind_r_eq_Inr)
  ultimately show ?thesis
    using latest_bounds [of _ "prompt_rows org name d"] by (intro exI [of _ ?row]) auto
qed

lemma prompt_rows_snoc: "prompt_rows org name (d\<lparr>db_prompts := db_prompts d @ [row]\<rparr>) =
    prompt_rows org name d @ (if prow_organization_id row = org \<and> prow_name row = name then [row] else [])"
  by (simp add: prompt_rows_def)

lemma prompt_get_created:
  assumes "prompt_to_domain row = Inr t" and "prow_organization_id row = org" and "prow_name row = name"
    and "\<forall>r\<in>set (prompt_rows org name d). prow_version r < prow_version row" and "version \<in> {None, Some (prow_version row)}"
  shows "prompt_get org name version (d\<lparr>db_prompts := db_prompts d @ [row]\<rparr>) = Inr (Some t)"
proof -
  let ?rows = "prompt_rows org name d"
  have "sort_key (\<lambda>r. - prow_version r) (?rows @ [row]) = row # sort_key (\<lambda>r. - prow_version r) ?rows"
    using assms(4) by (intro sort_key_snoc_first) auto
  moreover have "filter (\<lambda>r. prow_version r = prow_version row) ?rows = []" using assms(4) by (auto simp: filter_empty_conv)
  ultimately show ?thesis
    using assms(1-3,5) by (auto simp: prompt_get_def prompt_rows_snoc Let_def)
qed

lemma prompt_list_created:
  assumes "prompt_to_domain row = Inr t" and "prow_organization_id row = org" and "prow_name row = name"
    and "\<forall>r\<in>set (prompt_rows org name d). prow_version r < prow_version row" and "prompt_list_versions org name d = Inr older"
  shows "prompt_list_versions org name (d\<lparr>db_prompts := db_prompts d @ [row]\<rparr>) = Inr (older @ [t])"
proof -
  have "sort_key prow_version (prompt_rows org name d @ [row]) = sort_key prow_version (prompt_rows org name d) @ [row]"
    using assms(4) by (intro sort_key_snoc) (simp add: less_imp_le)
  then show ?thesis
    using assms(1-3,5) by (auto simp: prompt_list_versions_def prompt_rows_snoc traverse_Inr_iff intro!: list_all2_appendI)
qed

lemma post_prompts_Inr:
  assumes "serve_tenant te fr auth (PostPrompts body) w = (Inr (PromptVersionAnswer v), w')"
    and "get_authenticated_principal (te_hasher te) (te_scan te) auth (w_db w) = Inr p"
  shows "\<exists>name ms t. create_prompt_version fr (pl_organization_id p) name ms (w_db w) = (Inr t, w_db w') \<and> v = prompt_version_from_domain t"
proof -
  from assms obtain b where "post_prompts fr p b w = (Inr v, w')"
    by (auto simp: serve_tenant_def tenant_route_Inr)
  then obtain ms t where "db_a (create_prompt_version fr (pl_organization_id p) (cpr_name b) ms) w = (Inr t, w')" and v: "v = prompt_version_from_domain t"
    by (auto simp: post_prompts_def bind_a_eq_Inr)
  then have "create_prompt_version fr (pl_organization_id p) (cpr_name b) ms (w_db w) = (Inr t, w_db w')"
    by (auto simp: db_a_def split: prod.splits)
  with v show ?thesis by blast
qed

lemma prompt_versions_older:
  assumes "prompt_list_versions org name d = Inr older" and "\<forall>r\<in>set (prompt_rows org name d). prow_version r < n" and "e \<in> set older"
  shows "pt_version e < n"
proof -
  from traverse_mem [OF assms(1) [unfolded prompt_list_versions_def] assms(3)] obtain r where
    "r \<in> set (prompt_rows org name d)" "prompt_to_domain r = Inr e" by auto
  then show ?thesis using assms(2) by (auto simp: prompt_to_domain_def mk_prompt_template_def bind_r_eq_Inr)
qed

text \<open>C31: a published prompt is the one used. When \<open>POST /v1/prompts\<close> answers with a version, that version is newer than every
  earlier one of the name; a reference to the name without a version, or with this one, is rendered from exactly the
  messages that were answered, with the answered variables as the expected names; and \<open>GET /v1/prompts/{name}\<close> answers
  what it answered before followed by this version.\<close>

theorem prompt_published:
  assumes "serve_tenant te fr auth (PostPrompts body) w = (Inr (PromptVersionAnswer v), w')"
    and "get_authenticated_principal (te_hasher te) (te_scan te) auth (w_db w) = Inr p"
  shows "\<exists>t. v = prompt_version_from_domain t \<and>
    (\<forall>version\<in>{None, Some (pvs_version v)}. \<forall>vars.
       resolve_prompt (pl_organization_id p) \<lparr>pr_name = pvs_name v, pr_variables = vars, pr_version = version\<rparr> (w_db w') =
         (render t vars, w_db w')) \<and>
    (\<forall>older. prompt_list_versions (pl_organization_id p) (pvs_name v) (w_db w) = Inr older \<longrightarrow>
       (\<forall>e\<in>set older. pt_version e < pvs_version v) \<and>
       fst (serve_tenant te fr' auth (GetPrompts (pvs_name v)) w') =
         Inr (PromptVersionsAnswer (map prompt_version_from_domain older @ [v])))"
proof -
  let ?org = "pl_organization_id p"
  from post_prompts_Inr [OF assms] obtain name ms t where
    b: "create_prompt_version fr ?org name ms (w_db w) = (Inr t, w_db w')" and v: "v = prompt_version_from_domain t" by blast
  from prompt_created [OF b] obtain row where row: "prompt_to_domain row = Inr t" "prow_organization_id row = ?org" "prow_name row = name"
    "\<forall>r\<in>set (prompt_rows ?org name (w_db w)). prow_version r < prow_version row"
    and d': "w_db w' = (w_db w)\<lparr>db_prompts := db_prompts (w_db w) @ [row]\<rparr>" and sel: "prow_version row = pt_version t" "pt_name t = name"
    by auto
  have n: "pvs_name v = name" "pvs_version v = prow_version row" using v sel by (simp_all add: prompt_version_from_domain_def)
  have valid: "validate_prompt_name name = Inr ()" using b by (auto simp: create_prompt_version_def bind_a_eq_Inr)
  have p': "get_authenticated_principal (te_hasher te) (te_scan te) auth (w_db w') = Inr p"
    using assms(2) principal_of_tables [of "w_db w'" "w_db w"] d' by simp
  have resolved: "resolve_prompt ?org \<lparr>pr_name = pvs_name v, pr_variables = vars, pr_version = version\<rparr> (w_db w') = (render t vars, w_db w')"
    if "version \<in> {None, Some (pvs_version v)}" for version vars
    using prompt_get_created [OF row, of version] that n d' by (simp add: resolve_prompt_def bind_a_def read_a_def lift_a_def)
  have listed: "fst (serve_tenant te fr' auth (GetPrompts (pvs_name v)) w') = Inr (PromptVersionsAnswer (map prompt_version_from_domain older @ [v]))"
    if "prompt_list_versions ?org (pvs_name v) (w_db w) = Inr older" for older
  proof -
    have "prompt_list_versions ?org name (w_db w') = Inr (older @ [t])"
      using prompt_list_created [OF row] that n d' by simp
    then have "get_prompt_versions ?org name (w_db w') = (Inr (older @ [t]), w_db w')"
      by (simp add: get_prompt_versions_def valid act_simps)
    then show ?thesis
      by (simp add: serve_tenant_def tenant_route_authenticated [OF p'] validated_def get_prompts_def n(1) act_simps db_a_def)
        (simp add: v)
  qed
  show ?thesis
  proof (intro exI [of _ t] conjI ballI allI impI)
    fix older e
    assume "prompt_list_versions ?org (pvs_name v) (w_db w) = Inr older" and "e \<in> set older"
    then show "pt_version e < pvs_version v" using prompt_versions_older [OF _ row(4)] n by simp
  qed (fact v, rule resolved, assumption, rule listed, assumption)
qed

definition demo_prompt_body :: json where
  "demo_prompt_body = JObj [(''name'', JStr ''p''), (''messages'', JArr [JObj [(''role'', JStr ''user''), (''content'', JStr ''Hi {{who}}'')]])]"

definition demo_template :: prompt_template where
  "demo_template = \<lparr>pt_id = 3, pt_organization_id = 1, pt_name = ''p'', pt_version = 1,
     pt_messages = [\<lparr>pm_role = USER, pm_content = ''Hi {{who}}''\<rparr>], pt_created_at = sample_instant\<rparr>"

lemma demo_post_prompts:
  "\<exists>w'. serve_tenant demo_tenant (demo_fresh 3 0 []) (Some ''Bearer airt_abcdefgh1'') (PostPrompts demo_prompt_body) (demo_world 0) =
     (Inr (PromptVersionAnswer (prompt_version_from_domain demo_template)), w')"
proof -
  have b: "create_prompt_request_v [''body''] demo_prompt_body =
      Inr \<lparr>cpr_name = ''p'', cpr_messages = [\<lparr>pms_role = USER, pms_content = ''Hi {{who}}''\<rparr>]\<rparr>" by code_simp
  have m: "prompt_message_to_domain \<lparr>pms_role = USER, pms_content = ''Hi {{who}}''\<rparr> = Inr \<lparr>pm_role = USER, pm_content = ''Hi {{who}}''\<rparr>"
    by code_simp
  have "\<exists>d'. create_prompt_version (demo_fresh 3 0 []) 1 ''p'' [\<lparr>pm_role = USER, pm_content = ''Hi {{who}}''\<rparr>] demo_db1 = (Inr demo_template, d')"
    by (simp add: create_prompt_version_def bind_a_def lift_a_def validate_prompt_name_def prompt_name_matches_def is_alpha_def is_space_def
        prompt_create_version_def Let_def prompt_rows_def latest_version_def demo_db1_def demo_db_def empty_db_def fk_organization_def
        prompt_to_domain_def mk_prompt_message_template_def mk_prompt_template_def demo_template_def demo_org_def message_role_of_def)
  then obtain d' where "create_prompt_version (demo_fresh 3 0 []) 1 ''p'' [\<lparr>pm_role = USER, pm_content = ''Hi {{who}}''\<rparr>] demo_db1 = (Inr demo_template, d')"
    by blast
  moreover have "w_db (demo_world 0) = demo_db1" by (simp add: demo_world_def)
  ultimately show ?thesis
    using demo_tenant_principal
    by (simp add: serve_tenant_def tenant_route_authenticated b validated_def post_prompts_def m act_simps db_a_def demo_principal_def)
qed

lemma prompt_published_witness:
  "\<exists>w'. serve_tenant demo_tenant (demo_fresh 3 0 []) (Some ''Bearer airt_abcdefgh1'') (PostPrompts demo_prompt_body) (demo_world 0) =
       (Inr (PromptVersionAnswer (prompt_version_from_domain demo_template)), w') \<and>
     fst (serve_tenant demo_tenant (demo_fresh 0 0 []) (Some ''Bearer airt_abcdefgh1'') (GetPrompts ''p'') w') =
       Inr (PromptVersionsAnswer [prompt_version_from_domain demo_template])"
proof -
  obtain w' where s: "serve_tenant demo_tenant (demo_fresh 3 0 []) (Some ''Bearer airt_abcdefgh1'') (PostPrompts demo_prompt_body) (demo_world 0) =
     (Inr (PromptVersionAnswer (prompt_version_from_domain demo_template)), w')" using demo_post_prompts by blast
  have "pl_organization_id demo_principal = 1" "pvs_name (prompt_version_from_domain demo_template) = ''p''"
    "prompt_list_versions 1 ''p'' (w_db (demo_world 0)) = Inr []"
    by (simp_all add: demo_principal_def prompt_version_from_domain_def demo_template_def prompt_list_versions_def prompt_rows_def
        demo_world_def demo_db1_def demo_db_def empty_db_def)
  with prompt_published [OF s demo_tenant_principal, of "demo_fresh 0 0 []"] s show ?thesis by auto
qed

end
