(* ===== verification/Logging.thy ===== *)
theory Logging
  imports Http Sse
begin

text \<open>
  Structured logging (\<open>telemetry/logging.py\<close>) and the two records the request correlation middleware writes
  (\<open>api/middleware/request_context.py\<close>). A record carries its creation time as the \<open>datetime\<close> in UTC that
  \<open>datetime.fromtimestamp\<close> answers, and the attributes of \<open>extra\<close>. Iterating over the frozen set of structured
  fields has no fixed order: it is the parameter \<open>order\<close>. The main result is that a record is one line
  of printable ASCII whatever the values in it are.
\<close>

section \<open>Time stamps\<close>

definition zero_pad :: "nat \<Rightarrow> string \<Rightarrow> string" where
  "zero_pad k s = replicate (k - length s) CHR ''0'' @ s"

definition format_offset :: "int \<Rightarrow> string" where
  "format_offset off = (let a = nat \<bar>off\<bar> in
     (if off < 0 then ''-'' else ''+'') @ zero_pad 2 (str_of_nat (a div 3600)) @ '':'' @ zero_pad 2 (str_of_nat (a mod 3600 div 60)) @
     (if a mod 60 = 0 then [] else '':'' @ zero_pad 2 (str_of_nat (a mod 60))))"

text \<open>\<open>datetime.isoformat()\<close>.\<close>

definition isoformat :: "datetime \<Rightarrow> string" where
  "isoformat d = zero_pad 4 (str_of_nat (dt_year d)) @ ''-'' @ zero_pad 2 (str_of_nat (dt_month d)) @ ''-'' @
     zero_pad 2 (str_of_nat (dt_day d)) @ ''T'' @ zero_pad 2 (str_of_nat (dt_hour d)) @ '':'' @
     zero_pad 2 (str_of_nat (dt_minute d)) @ '':'' @ zero_pad 2 (str_of_nat (dt_second d)) @
     (if dt_micro d = 0 then [] else ''.'' @ zero_pad 6 (str_of_nat (dt_micro d))) @
     (case dt_tz d of None \<Rightarrow> [] | Some off \<Rightarrow> format_offset off)"

section \<open>The formatter\<close>

definition REQUEST_LOGGER_NAME :: string where
  "REQUEST_LOGGER_NAME = ''ai_runtime.request''"

definition STRUCTURED_FIELDS :: "string list" where
  "STRUCTURED_FIELDS = [''request_id'', ''trace_id'', ''span'', ''method'', ''path'', ''status_code'', ''duration_ms'']"

record log_record =
  lgr_created :: datetime
  lgr_levelname :: string
  lgr_name :: string
  lgr_message :: string
  lgr_extra :: "(string, json) dict"

text \<open>\<open>getattr(record, field, None)\<close>; the value \<open>None\<close> is \<open>JNull\<close>.\<close>

definition log_field :: "log_record \<Rightarrow> string \<Rightarrow> json option" where
  "log_field r field = (case dict_get (lgr_extra r) field of None \<Rightarrow> None | Some v \<Rightarrow> if v = JNull then None else Some v)"

definition log_payload :: "string list \<Rightarrow> log_record \<Rightarrow> (string, json) dict" where
  "log_payload order r = foldl (\<lambda>payload field. case log_field r field of None \<Rightarrow> payload | Some v \<Rightarrow> dict_set field v payload)
     [(''timestamp'', JStr (isoformat (lgr_created r))), (''level'', JStr (lgr_levelname r)), (''logger'', JStr (lgr_name r)),
      (''message'', JStr (lgr_message r))] order"

definition format_record :: "string list \<Rightarrow> log_record \<Rightarrow> string" where
  "format_record order r = dumps_with '', '' '': '' (JObj (log_payload order r))"

section \<open>Configuration of the logger\<close>

text \<open>\<open>str.upper\<close> on characters up to 255; the two whose upper case is beyond are kept.\<close>

definition upper_char :: "char \<Rightarrow> string" where
  "upper_char c = (let n = ord_of c in
     if (97 \<le> n \<and> n \<le> 122) \<or> (224 \<le> n \<and> n \<le> 254 \<and> n \<noteq> 247) then [char_of (n - 32)]
     else if n = 223 then ''SS'' else [c])"

definition upper :: "string \<Rightarrow> string" where
  "upper s = concat (map upper_char s)"

definition level_names :: "(string, int) dict" where
  "level_names = [(''CRITICAL'', 50), (''FATAL'', 50), (''ERROR'', 40), (''WARN'', 30), (''WARNING'', 30), (''INFO'', 20),
     (''DEBUG'', 10), (''NOTSET'', 0)]"

datatype log_handler = JsonStream | OtherHandler string

record logger =
  lg_handlers :: "log_handler list"
  lg_level :: int
  lg_propagate :: bool

definition configure_logging :: "string \<Rightarrow> logger \<Rightarrow> logger" where
  "configure_logging level lg =
     (let normalized = upper level;
          normalized = (if dict_get level_names normalized = None then ''INFO'' else normalized)
      in \<lparr>lg_handlers = [JsonStream], lg_level = the (dict_get level_names normalized), lg_propagate = False\<rparr>)"

text \<open>The lines a record of level \<open>INFO\<close> adds to the log; a logger without a level uses that of the root logger.\<close>

definition info_lines :: "string list \<Rightarrow> int \<Rightarrow> logger \<Rightarrow> log_record \<Rightarrow> string list" where
  "info_lines order root_level lg r =
     (if (if lg_level lg = 0 then root_level else lg_level lg) \<le> 20
      then map (\<lambda>_. format_record order r) (filter (\<lambda>h. h = JsonStream) (lg_handlers lg)) else [])"

section \<open>The records of a request\<close>

definition request_record :: "datetime \<Rightarrow> string \<Rightarrow> (string, json) dict \<Rightarrow> log_record" where
  "request_record created message extra = \<lparr>lgr_created = created, lgr_levelname = ''INFO'', lgr_name = REQUEST_LOGGER_NAME,
     lgr_message = message, lgr_extra = extra\<rparr>"

definition request_started :: "request_context \<Rightarrow> datetime \<Rightarrow> log_record" where
  "request_started ctx created = request_record created ''request_started''
     [(''request_id'', JStr (rq_request_id ctx)), (''trace_id'', JStr (rq_request_id ctx)), (''span'', JStr ''http''),
      (''method'', JStr (rq_method ctx)), (''path'', JStr (rq_path ctx))]"

definition request_completed :: "request_context \<Rightarrow> datetime \<Rightarrow> int \<Rightarrow> log_record" where
  "request_completed ctx created status = request_record created ''request_completed''
     [(''request_id'', JStr (rq_request_id ctx)), (''trace_id'', JStr (rq_request_id ctx)), (''span'', JStr ''http''),
      (''method'', JStr (rq_method ctx)), (''path'', JStr (rq_path ctx)), (''status_code'', JInt status),
      (''duration_ms'', JFloat (float_of_rat (rq_duration_ms ctx)))]"

section \<open>Lemmas\<close>

lemma printable_replicate [simp]: "printable (replicate n c) \<longleftrightarrow> n = 0 \<or> (32 \<le> ord_of c \<and> ord_of c \<le> 126)"
  by (auto simp: printable_def)

lemma printable_subset: "printable s \<Longrightarrow> set t \<subseteq> set s \<Longrightarrow> printable t"
  by (auto simp: printable_def)

lemma printable_take_drop: "printable s \<Longrightarrow> printable (take n s)" "printable s \<Longrightarrow> printable (drop n s)"
  by (erule printable_subset, rule set_take_subset) (erule printable_subset, rule set_drop_subset)

lemma printable_repr_digits: "printable ds \<Longrightarrow> printable (repr_digits ds pt)"
  by (auto simp: repr_digits_def Let_def printable_nat printable_take_drop)

lemma printable_repr_pos: "printable (repr_pos a)"
proof -
  have "printable (rev (dropWhile p (rev (str_of_nat n))))" for p n
    by (rule printable_subset [OF printable_nat]) (auto dest: set_dropWhileD)
  then show ?thesis by (auto simp: repr_pos_def Let_def printable_repr_digits split: prod.split)
qed

lemma printable_dumps_float: "printable (dumps_float x)"
  by (cases x) (auto simp: dumps_float_def repr_float_def printable_repr_pos)

lemma printable_dumps_with:
  assumes "printable isep" and "printable ksep"
  shows "printable (dumps_with isep ksep j)"
proof (induction j)
  case (JArr xs)
  then show ?case using assms by (auto intro!: printable_join)
next
  case (JObj kvs)
  then have "printable (dumps_string (fst kv) @ ksep @ dumps_with isep ksep (snd kv))" if "kv \<in> set kvs" for kv
    using assms that by (cases kv) (force simp: dumps_string_def printable_escape snds.simps)
  then show ?case using assms by (auto intro!: printable_join)
qed (auto simp: str_of_int_def printable_nat dumps_string_def printable_escape printable_dumps_float)

lemma one_line: "printable (format_record order r)"
  unfolding format_record_def by (rule printable_dumps_with) simp_all

lemma log_payload_get:
  "dict_get (log_payload order r) k =
     (if k \<in> set order \<and> log_field r k \<noteq> None then log_field r k
      else dict_get [(''timestamp'', JStr (isoformat (lgr_created r))), (''level'', JStr (lgr_levelname r)),
        (''logger'', JStr (lgr_name r)), (''message'', JStr (lgr_message r))] k)"
  unfolding log_payload_def by (induction order rule: rev_induct) (auto split: option.split)

lemma configure_idempotent: "configure_logging level (configure_logging level' lg) = configure_logging level lg"
  by (simp add: configure_logging_def)

end
