(* ===== verification/App.thy ===== *)
theory App
  imports Deployment Tenant Admin Logging
begin

text \<open>
  The application as a whole (\<open>api/app.py\<close>, \<open>api/routes/health.py\<close>, \<open>api/routes/metrics.py\<close>): a request is matched
  against the routes in the order they are included, the dependencies are built from the settings, the route runs on the
  shared state, its result or exception becomes a response, and the middleware accounts for it. The framework's share is a
  parameter: how a path matches a template, what it answers when nothing matches, how a body is read, and how a JSON value
  and an answer's schema are written. The handlers of the registered exceptions run inside the request correlation
  middleware; the handler of \<open>Exception\<close> runs outside of it, when the response has not been started, unless the debug
  setting replaces it by a page of the framework.
\<close>

section \<open>Requests and routes\<close>

record app_request =
  rx_method :: string
  rx_path :: string
  rx_query :: "(string \<times> string) list"
  rx_headers :: "(string \<times> string) list"
  rx_body :: "verrors + json"  \<comment> \<open>what the framework read, or why it could not\<close>

datatype endpoint =
    Health | Prometheus | Responses
  | PromptsPost | PromptsGet | ChunksPost | McpPost | McpGet | McpToolsGet
  | OrganizationsPost | OrganizationGet | KeysPost | KeysGet | KeyDelete | KeyRotate

definition app_routes :: "(string \<times> string \<times> endpoint) list" where
  "app_routes = [
     (''GET'', ''/health'', Health),
     (''GET'', ''/metrics'', Prometheus),
     (''POST'', ''/v1/responses'', Responses),
     (''POST'', ''/v1/prompts'', PromptsPost),
     (''GET'', ''/v1/prompts/{name}'', PromptsGet),
     (''POST'', ''/v1/semantic_chunks'', ChunksPost),
     (''POST'', ''/v1/mcp_servers'', McpPost),
     (''GET'', ''/v1/mcp_servers'', McpGet),
     (''GET'', ''/v1/mcp_servers/{name}/tools'', McpToolsGet),
     (''POST'', ''/v1/organizations'', OrganizationsPost),
     (''GET'', ''/v1/organizations/{organization_id}'', OrganizationGet),
     (''POST'', ''/v1/api_keys'', KeysPost),
     (''GET'', ''/v1/api_keys'', KeysGet),
     (''DELETE'', ''/v1/api_keys/{key_id}'', KeyDelete),
     (''POST'', ''/v1/api_keys/{key_id}/rotate'', KeyRotate)]"

definition success_status :: "endpoint \<Rightarrow> int" where
  "success_status e = (if e \<in> {PromptsPost, ChunksPost, McpPost, OrganizationsPost, KeysPost, KeyRotate} then 201 else 200)"

definition reads_body :: "endpoint \<Rightarrow> bool" where
  "reads_body e \<longleftrightarrow> e \<in> {Responses, PromptsPost, ChunksPost, McpPost, OrganizationsPost, KeysPost}"

record ('r, 'u) application =
  ap_settings :: settings
  ap_hasher :: hasher
  ap_scan :: "api_key_row list \<Rightarrow> api_key_row list"
  ap_coercions :: coercions
  ap_uuid_v :: "uuid validator"
  ap_client :: "'u http_client"
  ap_redis :: "'r redis_client"
  ap_sleep :: "rat \<Rightarrow> 'u \<Rightarrow> 'u"
  ap_nearest :: nearest
  ap_bracketed_ok :: "string \<Rightarrow> bool"
  ap_match :: "string \<Rightarrow> string \<Rightarrow> string list option"  \<comment> \<open>template, path, path parameters\<close>
  ap_fallback :: "app_request \<Rightarrow> int \<times> (string \<times> string) list \<times> string"
  ap_json_text :: "json \<Rightarrow> string"
  ap_tenant_json :: "tenant_answer \<Rightarrow> json"
  ap_operator_json :: "operator_answer \<Rightarrow> json"
  ap_debug_page :: "exn \<Rightarrow> (string \<times> string) list \<times> string"

text \<open>What serving one request draws from its environment.\<close>

record arrival = fresh +
  av_request_uuid :: uuid
  av_duration_ms :: rat
  av_started :: datetime
  av_completed :: datetime

definition dispatch :: "('r, 'u) application \<Rightarrow> app_request \<Rightarrow> (endpoint \<times> string list) option" where
  "dispatch ap rq = (case find (\<lambda>(m, template, e). m = rx_method rq \<and> ap_match ap template (rx_path rq) \<noteq> None) app_routes of
     None \<Rightarrow> None
   | Some (m, template, e) \<Rightarrow> map_option (Pair e) (ap_match ap template (rx_path rq)))"

section \<open>Dependencies\<close>

definition gate_of :: "('r, 'u) application \<Rightarrow> gate" where
  "gate_of ap = \<lparr>ga_hasher = ap_hasher ap, ga_scan = ap_scan ap, ga_operator_token = st_operator_token (ap_settings ap),
     ga_uuid_v = ap_uuid_v ap\<rparr>"

definition tenant_routes_of :: "('r, 'u) application \<Rightarrow> 'u embedders \<Rightarrow> 'u tenant_routes" where
  "tenant_routes_of ap embedders = \<lparr>te_hasher = ap_hasher ap, te_scan = ap_scan ap, te_bracketed_ok = ap_bracketed_ok ap,
     te_mcp_client = ap_client ap, te_embedders = embedders, te_embedding_catalog = DEFAULT_EMBEDDING_CATALOG\<rparr>"

text \<open>The embedding adapters are built for the one route that needs them, after the caller is authenticated.\<close>

definition tenant_a :: "('r, 'u) application \<Rightarrow> fresh \<Rightarrow> string option \<Rightarrow> tenant_request \<Rightarrow> ('r, 'u, tenant_answer) service" where
  "tenant_a ap fr authorization rq = (case build_embedding_providers (ap_settings ap) (ap_client ap) of
     Inr embedders \<Rightarrow> serve_tenant (tenant_routes_of ap embedders) fr authorization rq
   | Inl e \<Rightarrow> (case rq of
       PostSemanticChunks _ \<Rightarrow> tenant_route (tenant_routes_of ap []) authorization (Inr ()) (\<lambda>_ _. raise_a e) ChunkAnswer
     | _ \<Rightarrow> serve_tenant (tenant_routes_of ap []) fr authorization rq))"

section \<open>Running a route\<close>

datatype app_answer =
    HealthAnswer
  | MetricsAnswer string
  | ResponsesAnswer responses_answer
  | TenantAnswer tenant_answer
  | OperatorAnswer operator_answer

definition get_health :: "('r, 'u, app_answer) service" where
  "get_health = ret_a HealthAnswer"

definition get_metrics :: "('r, 'u, app_answer) service" where
  "get_metrics = read_a (\<lambda>w. Inr (MetricsAnswer (render_prometheus (w_metrics w))))"

definition parameter :: "string list \<Rightarrow> string" where
  "parameter args = (case args of [] \<Rightarrow> [] | a # _ \<Rightarrow> a)"

text \<open>A body that cannot be read is answered before the dependencies are resolved.\<close>

definition run_endpoint ::
    "('r, 'u) application \<Rightarrow> arrival \<Rightarrow> string \<Rightarrow> app_request \<Rightarrow> endpoint \<Rightarrow> string list \<Rightarrow> ('r, 'u, app_answer) service" where
  "run_endpoint ap av rid rq e args =
     bind_a (lift_a (if reads_body e then validated (rx_body rq) else Inr JNull)) (\<lambda>body.
     let auth = header_value (rx_headers rq) ''authorization'';
         tenant = (\<lambda>q. bind_a (tenant_a ap (fresh.truncate av) auth q) (\<lambda>a. ret_a (TenantAnswer a)));
         operator = (\<lambda>q. bind_a (db_a (serve_operator (gate_of ap) (fresh.truncate av) auth q)) (\<lambda>a. ret_a (OperatorAnswer a)))
     in case e of
       Health \<Rightarrow> get_health
     | Prometheus \<Rightarrow> get_metrics
     | Responses \<Rightarrow> bind_a (deployed_responses (ap_hasher ap) (ap_scan ap) (ap_coercions ap) (ap_settings ap) (ap_client ap) (ap_redis ap)
           (ap_sleep ap) (ap_nearest ap) (ap_bracketed_ok ap) auth rid (header_value (rx_headers rq) ''idempotency-key'') body)
         (\<lambda>a. ret_a (ResponsesAnswer a))
     | PromptsPost \<Rightarrow> tenant (PostPrompts body)
     | PromptsGet \<Rightarrow> tenant (GetPrompts (parameter args))
     | ChunksPost \<Rightarrow> tenant (PostSemanticChunks body)
     | McpPost \<Rightarrow> tenant (PostMcpServers body)
     | McpGet \<Rightarrow> tenant GetMcpServers
     | McpToolsGet \<Rightarrow> tenant (GetMcpServerTools (parameter args))
     | OrganizationsPost \<Rightarrow> operator (PostOrganizations body)
     | OrganizationGet \<Rightarrow> operator (GetOrganizationsById (parameter args))
     | KeysPost \<Rightarrow> operator (PostApiKeys body)
     | KeysGet \<Rightarrow> operator (GetApiKeys (dict_get (rev (rx_query rq)) ''organization_id''))
     | KeyDelete \<Rightarrow> operator (DeleteApiKey (parameter args))
     | KeyRotate \<Rightarrow> operator (PostRotateApiKey (parameter args)))"

section \<open>Responses\<close>

definition complete_response :: "int \<Rightarrow> (string \<times> string) list \<Rightarrow> string \<Rightarrow> asgi_message list" where
  "complete_response status headers content = [ResponseStart status headers, ResponseBody content False]"

definition error_messages :: "('r, 'u) application \<Rightarrow> api_response \<Rightarrow> asgi_message list" where
  "error_messages ap r = complete_response (ar_status r) (ar_headers r) (ap_json_text ap (ar_body r))"

text \<open>The messages of an answer, and the exception a stream ends with.\<close>

definition answer_messages :: "('r, 'u) application \<Rightarrow> int \<Rightarrow> app_answer \<Rightarrow> asgi_message list \<times> exn option" where
  "answer_messages ap status a = (case a of
     HealthAnswer \<Rightarrow> (complete_response status [] (ap_json_text ap (JObj [(''status'', JStr ''ok'')])), None)
   | MetricsAnswer rendered \<Rightarrow> (complete_response status [] rendered, None)
   | ResponsesAnswer (JsonAnswer r) \<Rightarrow> (complete_response status [] (ap_json_text ap (response_dump r)), None)
   | ResponsesAnswer (StreamAnswer frames failure) \<Rightarrow>
       (ResponseStart status [(''cache-control'', ''no-cache'')] # map (\<lambda>f. ResponseBody (sse_message (fst f) (snd f)) True) frames @
         (if failure = None then [ResponseBody [] False] else []), failure)
   | TenantAnswer t \<Rightarrow> (complete_response status [] (ap_json_text ap (ap_tenant_json ap t)), None)
   | OperatorAnswer p \<Rightarrow> (complete_response status [] (ap_json_text ap (ap_operator_json ap p)), None))"

text \<open>The router with the handlers of the registered exceptions around it.\<close>

definition run_router ::
    "('r, 'u) application \<Rightarrow> arrival \<Rightarrow> string \<Rightarrow> app_request \<Rightarrow> ('r, 'u) world \<Rightarrow> (asgi_message list \<times> exn option) \<times> ('r, 'u) world" where
  "run_router ap av rid rq w = (case dispatch ap rq of
     None \<Rightarrow> (case ap_fallback ap rq of (status, headers, content) \<Rightarrow> ((complete_response status headers content, None), w))
   | Some (e, args) \<Rightarrow> (case run_endpoint ap av rid rq e args w of
       (Inr a, w') \<Rightarrow> (answer_messages ap (success_status e) a, w')
     | (Inl err, w') \<Rightarrow>
         (if registered err then (case handle_exception (Some rid) err of
             Inr r \<Rightarrow> ((error_messages ap r, None), w')
           | Inl err' \<Rightarrow> (([], Some err'), w'))
          else (([], Some err), w'))))"

text \<open>The handler of \<open>Exception\<close>, outside of the middleware.\<close>

definition server_error ::
    "('r, 'u) application \<Rightarrow> string \<Rightarrow> asgi_message list \<times> exn option \<Rightarrow> asgi_message list" where
  "server_error ap rid run = (case run of
     (m # _, _) \<Rightarrow> []
   | ([], None) \<Rightarrow> []
   | ([], Some err) \<Rightarrow>
       (if st_debug (ap_settings ap) then (case ap_debug_page ap err of (headers, content) \<Rightarrow> complete_response 500 headers content)
        else (case error_response (hd_status unhandled_error_handler) (hd_code unhandled_error_handler)
            (hd_message unhandled_error_handler) (Some rid) (hd_headers unhandled_error_handler) of
          Inr r \<Rightarrow> error_messages ap r | Inl _ \<Rightarrow> [])))"

record ('r, 'u) exchange =
  xc_sent :: "asgi_message list"
  xc_failure :: "exn option"  \<comment> \<open>what reaches the server after the messages\<close>
  xc_log :: "log_record list"
  xc_completed :: "int list"
  xc_world :: "('r, 'u) world"

definition create_app :: "('r, 'u) application \<Rightarrow> logger \<Rightarrow> logger \<times> metrics" where
  "create_app ap lg = (configure_logging (st_log_level (ap_settings ap)) lg, new_metrics)"

definition app_call :: "('r, 'u) application \<Rightarrow> arrival \<Rightarrow> app_request \<Rightarrow> ('r, 'u) world \<Rightarrow> ('r, 'u) exchange" where
  "app_call ap av rq w =
     (let rid = resolve_request_id (header_value (rx_headers rq) ''x-request-id'') (av_request_uuid av);
          ctx = \<lparr>rq_request_id = rid, rq_method = rx_method rq, rq_path = rx_path rq, rq_duration_ms = av_duration_ms av\<rparr>
      in case run_router ap av rid rq w of (run, w1) \<Rightarrow>
        (case request_context_middleware ctx run (w_metrics w1) of ((sent, failure), s) \<Rightarrow>
          \<lparr>xc_sent = sent @ server_error ap rid run, xc_failure = failure,
           xc_log = request_started ctx (av_started av) # map (request_completed ctx (av_completed av)) (mw_completed s),
           xc_completed = mw_completed s, xc_world = w1\<lparr>w_metrics := mw_metrics s\<rparr>\<rparr>))"

section \<open>What a route does to the request counter\<close>

text \<open>No route touches the counter of the requests: that is the middleware's.\<close>

abbreviation requests_counted :: "('r, 'u) world \<Rightarrow> label_map \<Rightarrow> pyfloat" where
  "requests_counted w \<equiv> counter (w_metrics w) ''http_requests_total''"

abbreviation counted_as :: "(label_map \<Rightarrow> pyfloat) \<Rightarrow> ('r, 'u) world \<Rightarrow> bool" where
  "counted_as c \<equiv> \<lambda>w. requests_counted w = c"

lemma counted_primitives [simp]:
  "keeps (counted_as c) now_a" "keeps (counted_as c) seconds_a" "keeps (counted_as c) uuid4_a"
  "keeps (counted_as c) (db_a m)" "keeps (counted_as c) (redis_a f)" "keeps (counted_as c) (redis_do g)"
  "n \<noteq> ''http_requests_total'' \<Longrightarrow> keeps (counted_as c) (count_a n ls a)"
  by (auto simp: keeps_def now_a_def seconds_a_def uuid4_a_def db_a_def redis_a_def redis_do_def count_a_def counter_increment
      fun_eq_iff split: prod.split)

lemma counted_record:
  "keeps (counted_as c) (record_usage cmd pv r)" "keeps (counted_as c) (record_generation_success cmd r oc pv ct)"
proof -
  have "keeps (counted_as c) (success_metrics r oc ct)"
    unfolding success_metrics_def by (intro keeps_bind_a counted_primitives) (auto split: option.split)
  then show "keeps (counted_as c) (record_generation_success cmd r oc pv ct)"
    unfolding record_generation_success_def by (intro keeps_bind_a keeps_bind_lift counted_primitives keeps_ret_a) auto
  show "keeps (counted_as c) (record_usage cmd pv r)"
    unfolding record_usage_def by (intro keeps_bind_a keeps_bind_lift counted_primitives keeps_ret_a)
qed

lemma counted_of_core: "core w' = core w \<Longrightarrow> requests_counted w' = requests_counted w"
  by (simp add: core_eq)

lemma counted_executor:
  "requests_counted (snd (execute (lift_executor x) m req (Some (before_route cmd)) w)) = requests_counted w"
  by (rule counted_of_core, rule execute_effect, rule surjective_pairing)

lemma counted_steps:
  "keeps (counted_as c) (execute (lift_executor x) m req (Some (before_route cmd)))" "keeps (counted_as c) (enforce_a cmd m)"
  "keeps (counted_as c) (complete_a sv cmd b r)" "keeps (counted_as c) (release_a sv cmd b)"
  "keeps (counted_as c) (cache_lookup_a sv cmd)" "keeps (counted_as c) (cache_store_a sv cmd r)"
  "keeps (counted_as c) record_generation_error" "keeps (counted_as c) (consume_a sv cmd)" "keeps (counted_as c) (begin_a sv cmd)"
  by (simp add: keeps_def counted_executor)
    (auto simp: enforce_a_def complete_a_def release_a_def cache_lookup_a_def cache_store_a_def record_generation_error_def
      consume_a_def begin_a_def intro!: keeps_bind_a split: option.split)

lemma counted_answer: "keeps (counted_as c) (answer sv cmd claimed)"
  unfolding answer_def answer_from_cache_def generate_guarded_def generate_and_record_def Let_def
  by (intro keeps_bind_a counted_record counted_steps)
    (auto split: option.split intro!: keeps_bind_a on_exception_keeps counted_record counted_steps)

lemma counted_execute: "keeps (counted_as c) (create_response_execute sv cmd)"
  unfolding create_response_execute_def
  by (intro keeps_bind_a counted_steps)
    (auto split: option.split idempotency_begin_result.split intro!: keeps_bind_a counted_answer counted_steps counted_record)

lemma counted_item:
  fixes w :: "('r, 'u) world"
  assumes "bind_a (record_usage cmd pv r) (\<lambda>_. record_generation_success cmd' r' oc pv' ct) w = (a, w1)"
  shows "requests_counted w1 = requests_counted w"
proof -
  let ?m = "bind_a (record_usage cmd pv r) (\<lambda>_. record_generation_success cmd' r' oc pv' ct) :: ('r, 'u, unit) service"
  have "keeps (counted_as (requests_counted w)) ?m" by (intro keeps_bind_a counted_record)
  with assms show ?thesis by (auto dest: keepsD)
qed

lemma counted_deliver: "deliver cmd items w = (res, w') \<Longrightarrow> requests_counted w' = requests_counted w"
proof (induction items arbitrary: res w)
  case (Cons item items)
  define first where "first = (case se_payload item of Delta _ \<Rightarrow> (Inr (), w)
    | Completed response \<Rightarrow> bind_a (record_usage cmd (se_provider_name item) response) (\<lambda>_.
        record_generation_success cmd response ''provider'' (se_provider_name item) True) w)"
  obtain a w1 where a: "first = (a, w1)" by (cases first)
  have 1: "requests_counted w1 = requests_counted w"
    using a unfolding first_def by (cases "se_payload item") (auto dest: counted_item)
  from Cons.prems a have "w' = w1 \<or> (\<exists>res'. deliver cmd items w1 = (res', w'))"
    unfolding first_def by (auto split: sum.splits prod.splits)
  with 1 Cons.IH show ?case by fastforce
qed simp

lemma counted_stream: "create_response_stream sv cmd w = ((evs, eo), w') \<Longrightarrow> requests_counted w' = requests_counted w"
proof (cases "cc_idempotency_key cmd")
  case (Some k)
  then show "create_response_stream sv cmd w = ((evs, eo), w') \<Longrightarrow> ?thesis" by (simp add: create_response_stream_def)
next
  case None
  assume s: "create_response_stream sv cmd w = ((evs, eo), w')"
  from s None show ?thesis
  proof (cases rule: stream_cases)
    case (served d red items eo1 w2 eo2)
    from counted_of_core [OF stream_effect [OF served(3)]] counted_deliver [OF served(4)] show ?thesis by simp
  qed simp
qed

lemma counted_run_command: "keeps (counted_as c) (run_command ep rid body cmd)"
proof (cases "crq_stream body")
  case False
  then show ?thesis unfolding run_command_def by (auto intro!: keeps_bind_a counted_execute)
next
  case True
  have "requests_counted (snd (run_command ep rid body cmd w)) = requests_counted w" for w
  proof -
    obtain evs eo w1 where s: "create_response_stream (ep_service ep) cmd w = ((evs, eo), w1)" by (metis surj_pair)
    with True counted_stream [OF s] show ?thesis by (cases evs; cases eo) (simp_all add: run_command_def)
  qed
  then show ?thesis by (simp add: keeps_def)
qed

lemma counted_post_responses: "keeps (counted_as c) (post_responses ep p rid key body)"
  unfolding post_responses_def
proof (intro keeps_bind_a counted_run_command)
  have "requests_counted (snd (prepare_command ep p rid key body w)) = requests_counted w" for w
    using prepare_stored [OF surjective_pairing, of ep p rid key body w] by (simp add: stored_def)
  then show "keeps (counted_as c) (prepare_command ep p rid key body)" by (simp add: keeps_def)
qed

lemma counted_deployed: "keeps (counted_as c) (deployed_responses hs scan co st client redis sleep near br auth rid key body)"
  unfolding deployed_responses_def serve_responses_def
  by (intro keeps_bind_a keeps_lift_a counted_primitives counted_post_responses)

lemma tenant_route_refused:
  "get_authenticated_principal (te_hasher te) (te_scan te) auth (w_db w) = Inl err \<Longrightarrow>
   tenant_route te auth arg route wrap w = (Inl err, w)"
  by (simp add: tenant_route_def bind_a_def db_a_def read_a_def)

lemma tenant_a_refused:
  "get_authenticated_principal (ap_hasher ap) (ap_scan ap) auth (w_db w) = Inl err \<Longrightarrow> tenant_a ap fr auth rq w = (Inl err, w)"
  by (auto simp: tenant_a_def serve_tenant_def tenant_routes_of_def tenant_route_refused split: sum.split tenant_request.split)

lemma tenant_a_metrics: "w_metrics (snd (tenant_a ap fr auth rq w)) = w_metrics w"
proof (cases "get_authenticated_principal (ap_hasher ap) (ap_scan ap) auth (w_db w)")
  case (Inl err)
  then show ?thesis by (simp add: tenant_a_refused)
next
  case (Inr p)
  then have served: "w_metrics (snd (serve_tenant (tenant_routes_of ap es) fr auth rq w)) = w_metrics w" for es
    using serve_tenant_apart [of "tenant_routes_of ap es" auth w p fr rq] by (simp add: tenant_routes_of_def apart_def)
  have "snd (tenant_route (tenant_routes_of ap []) auth (Inr ()) (\<lambda>_ _. raise_a e) ChunkAnswer w) = w" for e
  proof -
    have p: "get_authenticated_principal (te_hasher (tenant_routes_of ap [])) (te_scan (tenant_routes_of ap [])) auth (w_db w) = Inr p"
      using Inr by (simp add: tenant_routes_of_def)
    show ?thesis by (simp add: tenant_route_authenticated [OF p] bind_a_def lift_a_def raise_a_def validated_def)
  qed
  with served show ?thesis by (auto simp: tenant_a_def split: sum.split tenant_request.split)
qed

lemma counted_tenant: "keeps (counted_as c) (tenant_a ap fr auth rq)"
  by (simp add: keeps_def tenant_a_metrics)

lemma counted_endpoint: "keeps (counted_as c) (run_endpoint ap av rid rq e args)"
  unfolding run_endpoint_def Let_def get_health_def get_metrics_def
  by (cases e) (auto intro!: keeps_bind_a counted_deployed counted_tenant)

section \<open>Every request is answered and counted\<close>

lemma find_append: "find P (xs @ ys) = (case find P xs of None \<Rightarrow> find P ys | Some x \<Rightarrow> Some x)"
  by (induction xs) auto

lemma header_value_with: "header_value (with_request_id rid headers) ''x-request-id'' =
    Some (case header_value headers ''x-request-id'' of None \<Rightarrow> rid | Some v \<Rightarrow> v)"
proof -
  let ?P = "\<lambda>h. lower (fst h) = ''x-request-id''"
  have lower_id: "lower ''x-request-id'' = ''x-request-id''" by code_simp
  have ex: "list_ex ?P headers \<longleftrightarrow> find ?P headers \<noteq> None"
    by (induction headers) auto
  show ?thesis
    unfolding with_request_id_def header_value_def ex
    by (cases "find ?P headers") (simp_all add: find_append lower_id)
qed

lemma error_headers:
  assumes "handle_exception (Some rid) err = Inr r" and "\<And>a. err = APIError a \<Longrightarrow> ae_headers a = []"
  shows "header_value (ar_headers r) ''x-request-id'' = Some rid"
proof -
  have lower_id: "lower ''x-request-id'' = ''x-request-id''" by code_simp
  from assms(1) have "ar_headers r = foldl (\<lambda>h (k, v). dict_set (lower k) v h) [(lower REQUEST_ID_HEADER, rid)] (hd_headers (handler err))"
    by (auto simp: handle_exception_def Let_def dest: error_response_Inr)
  moreover have "hd_headers (handler err) \<in> {[]} \<union> range (\<lambda>n. [(''Retry-After'', str_of_int n)])"
  proof (cases "\<exists>a. err = APIError a")
    case True
    then obtain a where "err = APIError a" by blast
    with assms(2) show ?thesis by (simp add: api_error_handler_def)
  next
    case False
    then show ?thesis using handler_headers [of err] by (auto split: exn.split)
  qed
  ultimately show ?thesis by (auto simp: header_names header_value_def lower_id)
qed

text \<open>What an application run is: a complete response, a stream cut short, or nothing and an exception.\<close>

definition well_run :: "string \<Rightarrow> bool \<Rightarrow> bool \<Rightarrow> asgi_message list \<times> exn option \<Rightarrow> bool" where
  "well_run rid own_headers streaming run \<longleftrightarrow> (case run of (msgs, failure) \<Rightarrow>
     (msgs = [] \<and> failure \<noteq> None) \<or>
     (\<exists>status headers bodies. msgs = ResponseStart status headers # body_messages bodies \<and>
        (own_headers \<or> header_value headers ''x-request-id'' \<in> {None, Some rid}) \<and>
        (if failure = None then \<exists>bs c. bodies = bs @ [(c, False)] else streaming \<and> status = 200)))"

lemma well_run_complete:
  "ow \<or> header_value headers ''x-request-id'' \<in> {None, Some rid} \<Longrightarrow> well_run rid ow st (complete_response status headers content, None)"
  unfolding well_run_def complete_response_def prod.case
  by (intro disjI2 exI [of _ status] exI [of _ headers] exI [of _ "[(content, False)]"]) simp

lemma well_run_answer:
  assumes "\<And>fs f. a = ResponsesAnswer (StreamAnswer fs f) \<Longrightarrow> streaming \<and> status = 200"
  shows "well_run rid ow streaming (answer_messages ap status a)"
proof -
  have none: "header_value [] ''x-request-id'' = None" by (simp add: header_value_def)
  have cache: "header_value [(''cache-control'', ''no-cache'')] ''x-request-id'' = None" by code_simp
  have stream: "well_run rid ow streaming (answer_messages ap status (ResponsesAnswer (StreamAnswer fs f)))"
    if "a = ResponsesAnswer (StreamAnswer fs f)" for fs f
    using assms [OF that] cache unfolding well_run_def answer_messages_def app_answer.case responses_answer.case prod.case
    by (intro disjI2 exI [of _ status] exI [of _ "[(''cache-control'', ''no-cache'')]"]
        exI [of _ "map (\<lambda>f. (sse_message (fst f) (snd f), True)) fs @ (if f = None then [([], False)] else [])"]) (auto simp: comp_def)
  show ?thesis
  proof (cases a)
    case (ResponsesAnswer r)
    then show ?thesis using stream by (cases r) (auto simp: answer_messages_def none intro!: well_run_complete)
  qed (auto simp: answer_messages_def none intro!: well_run_complete)
qed

text \<open>Only the route of the responses answers by a stream.\<close>

lemma stream_answers:
  "run_endpoint ap av rid rq e args w = (Inr (ResponsesAnswer a), w') \<Longrightarrow> e = Responses"
  by (cases e) (auto simp: run_endpoint_def Let_def get_health_def get_metrics_def bind_a_eq_Inr read_a_def)

lemma router_well_run:
  assumes "run_router ap av rid rq w = (run, w1)"
    and "\<And>status headers content. ap_fallback ap rq = (status, headers, content) \<Longrightarrow> ow \<or> header_value headers ''x-request-id'' = None"
  shows "well_run rid (ow \<or> (\<exists>e args a w'. dispatch ap rq = Some (e, args) \<and> run_endpoint ap av rid rq e args w = (Inl (APIError a), w') \<and>
      ae_headers a \<noteq> [])) (\<exists>args. dispatch ap rq = Some (Responses, args)) run"
proof (cases "dispatch ap rq")
  case None
  with assms show ?thesis by (cases "ap_fallback ap rq") (auto simp: run_router_def intro!: well_run_complete)
next
  case (Some ea)
  obtain e args where ea: "ea = (e, args)" by (cases ea)
  obtain res w' where res: "run_endpoint ap av rid rq e args w = (res, w')" by (cases "run_endpoint ap av rid rq e args w")
  show ?thesis
  proof (cases res)
    case (Inr a)
    have "e = Responses" if "a = ResponsesAnswer x" for x using stream_answers res Inr that by metis
    with assms(1) Some ea res Inr show ?thesis
      by (auto simp: run_router_def success_status_def intro!: well_run_answer)
  next
    case (Inl err)
    then show ?thesis
    proof (cases "handle_exception (Some rid) err")
      case (Inr r)
      with error_headers [OF Inr] assms(1) Some ea res Inl show ?thesis
        by (cases "registered err") (auto simp: run_router_def error_messages_def intro!: well_run_complete, auto simp: well_run_def)
    qed (use assms(1) Some ea res Inl in \<open>auto simp: run_router_def well_run_def split: if_splits\<close>)
  qed
qed

lemma server_error_complete:
  assumes "\<not> st_debug (ap_settings ap)"
  shows "\<exists>headers content. server_error ap rid ([], Some err) = complete_response 500 headers content \<and>
    header_value headers ''x-request-id'' = Some rid"
proof -
  let ?r = "\<lparr>ar_status = 500, ar_headers = [(''x-request-id'', rid)],
    ar_body = error_detail_json INTERNAL_ERROR ''An unexpected error occurred.'' (Some rid)\<rparr>"
  have l: "lower REQUEST_ID_HEADER = ''x-request-id''" "lower ''x-request-id'' = ''x-request-id''" by code_simp+
  have "server_error ap rid ([], Some err) = error_messages ap ?r"
    using assms l by (simp add: server_error_def error_response_def unhandled_error_handler_def reply_def)
  moreover have "header_value (ar_headers ?r) ''x-request-id'' = Some rid" using l by (simp add: header_value_def)
  ultimately show ?thesis unfolding error_messages_def by fastforce
qed

lemma counted_router: "run_router ap av rid rq w = (run, w1) \<Longrightarrow> requests_counted w1 = requests_counted w"
proof -
  have "requests_counted w' = requests_counted w" if "run_endpoint ap av rid rq e args w = (a, w')" for e args a w'
    by (rule keepsD [where P = "counted_as (requests_counted w)", OF counted_endpoint refl that])
  then show "run_router ap av rid rq w = (run, w1) \<Longrightarrow> ?thesis"
    by (auto simp: run_router_def split: option.splits prod.splits sum.splits if_splits)
qed

abbreviation started :: "(int \<times> (string \<times> string) list) option \<Rightarrow> asgi_message list" where
  "started start \<equiv> (case start of None \<Rightarrow> [] | Some (st, headers) \<Rightarrow> [ResponseStart st headers])"

lemma well_run_cases:
  assumes "well_run rid ow streaming (msgs, failure)"
  obtains start bodies where "msgs = started start @ body_messages bodies"
    and "start = None \<longrightarrow> bodies = [] \<and> failure \<noteq> None"
    and "\<forall>st hs. start = Some (st, hs) \<longrightarrow> ow \<or> header_value hs ''x-request-id'' \<in> {None, Some rid}"
    and "\<forall>st hs. start = Some (st, hs) \<longrightarrow> (if failure = None then \<exists>bs c. bodies = bs @ [(c, False)] else streaming \<and> st = 200)"
proof (cases "msgs = []")
  case True
  with assms show ?thesis by (intro that [of None "[]"]) (auto simp: well_run_def)
next
  case False
  with assms obtain st hs bodies where "msgs = ResponseStart st hs # body_messages bodies"
    "ow \<or> header_value hs ''x-request-id'' \<in> {None, Some rid}"
    "if failure = None then \<exists>bs c. bodies = bs @ [(c, False)] else streaming \<and> st = 200"
    by (auto simp: well_run_def)
  then show ?thesis by (intro that [of "Some (st, hs)" bodies]) auto
qed

lemma request_records_logged:
  "r \<in> {request_started ctx t, request_completed ctx t' status} \<Longrightarrow>
   log_field r ''request_id'' = Some (JStr (rq_request_id ctx)) \<and> (\<forall>order. printable (format_record order r))"
  by (auto simp: one_line request_started_def request_completed_def request_record_def log_field_def dict_get_def)

abbreviation status_of_start :: "(int \<times> (string \<times> string) list) option \<Rightarrow> int" where
  "status_of_start start \<equiv> (case start of None \<Rightarrow> 500 | Some (st, headers) \<Rightarrow> st)"

abbreviation context_of :: "string \<Rightarrow> arrival \<Rightarrow> app_request \<Rightarrow> request_context" where
  "context_of rid av rq \<equiv>
     \<lparr>rq_request_id = rid, rq_method = rx_method rq, rq_path = rx_path rq, rq_duration_ms = av_duration_ms av\<rparr>"

lemma app_call_parts:
  assumes r: "run_router ap av rid rq w = ((started start @ body_messages bodies, failure), w1)"
    and ends: "failure \<noteq> None \<or> (\<exists>(c, more_body)\<in>set bodies. \<not> more_body)"
    and rid: "rid = resolve_request_id (header_value (rx_headers rq) ''x-request-id'') (av_request_uuid av)"
  defines "x \<equiv> app_call ap av rq w"
  shows "xc_sent x = started (map_option (\<lambda>(st, hs). (st, with_request_id rid hs)) start) @ body_messages bodies @
      server_error ap rid (started start @ body_messages bodies, failure) \<and>
    xc_failure x = failure \<and>
    xc_log x = [request_started (context_of rid av rq) (av_started av),
      request_completed (context_of rid av rq) (av_completed av) (status_of_start start)] \<and>
    (\<forall>ls. requests_counted (xc_world x) ls =
       (if freeze ls = freeze [(''method'', rx_method rq), (''path'', rx_path rq), (''status'', str_of_int (status_of_start start))]
        then float_add (requests_counted w ls) (Fin 1) else requests_counted w ls))"
proof -
  from request_accounted [OF ends, of "context_of rid av rq" start "w_metrics w1"] obtain s where
    "request_context_middleware (context_of rid av rq) (started start @ body_messages bodies, failure) (w_metrics w1) =
      ((started (map_option (\<lambda>(st, hs). (st, with_request_id rid hs)) start) @ body_messages bodies, failure), s)"
    "mw_completed s = [status_of_start start]"
    "\<And>ls. counter (mw_metrics s) ''http_requests_total'' ls =
       (if freeze ls = freeze [(''method'', rx_method rq), (''path'', rx_path rq), (''status'', str_of_int (status_of_start start))]
        then float_add (counter (w_metrics w1) ''http_requests_total'' ls) (Fin 1) else counter (w_metrics w1) ''http_requests_total'' ls)"
    by (cases start) auto
  then show ?thesis using r counted_router [OF r] by (simp add: x_def app_call_def Let_def rid)
qed

lemma response_sent:
  assumes "\<not> st_debug (ap_settings ap)"
    and start: "start = None \<longrightarrow> bodies = [] \<and> failure \<noteq> None"
    and headers: "\<forall>st hs. start = Some (st, hs) \<longrightarrow> ow \<or> header_value hs ''x-request-id'' \<in> {None, Some rid}"
    and ends: "\<forall>st hs. start = Some (st, hs) \<longrightarrow> (if failure = None then \<exists>bs c. bodies = bs @ [(c, False)] else streaming \<and> st = 200)"
  shows "\<exists>headers bodies'. started (map_option (\<lambda>(st, hs). (st, with_request_id rid hs)) start) @ body_messages bodies @
      server_error ap rid (started start @ body_messages bodies, failure) = ResponseStart (status_of_start start) headers # body_messages bodies' \<and>
    (ow \<or> header_value headers ''x-request-id'' = Some rid) \<and>
    ((\<exists>bs c. bodies' = bs @ [(c, False)]) \<or> (failure \<noteq> None \<and> status_of_start start = 200 \<and> streaming))"
proof (cases start)
  case None
  with start obtain err where "failure = Some err" "bodies = []" by auto
  moreover obtain headers content where "server_error ap rid ([], Some err) = complete_response 500 headers content"
    "header_value headers ''x-request-id'' = Some rid" using server_error_complete [OF assms(1)] by blast
  ultimately show ?thesis using None unfolding complete_response_def
    by (intro exI [of _ headers] exI [of _ "[(content, False)]"]) simp
next
  case (Some sh)
  obtain st hs where sh: "sh = (st, hs)" by (cases sh)
  have "ow \<or> header_value (with_request_id rid hs) ''x-request-id'' = Some rid"
    using headers Some sh by (auto simp: header_value_with)
  with Some sh ends show ?thesis
    by (intro exI [of _ "with_request_id rid hs"] exI [of _ bodies]) (auto simp: server_error_def split: if_splits)
qed

text \<open>The pieces together; with \<open>ow\<close> the headers are left open.\<close>

lemma call_answered:
  assumes "\<not> st_debug (ap_settings ap)"
    and fallback: "\<forall>status headers content. ap_fallback ap rq = (status, headers, content) \<longrightarrow> ow \<or> header_value headers ''x-request-id'' = None"
    and plain: "ow \<or> \<not> (\<exists>e args a w'. dispatch ap rq = Some (e, args) \<and> run_endpoint ap av rid rq e args w = (Inl (APIError a), w') \<and>
      ae_headers a \<noteq> [])"
    and rid: "rid = resolve_request_id (header_value (rx_headers rq) ''x-request-id'') (av_request_uuid av)"
  shows "\<exists>status headers bodies. xc_sent (app_call ap av rq w) = ResponseStart status headers # body_messages bodies \<and>
    (ow \<or> header_value headers ''x-request-id'' = Some rid) \<and>
    ((\<exists>bs c. bodies = bs @ [(c, False)]) \<or>
      (xc_failure (app_call ap av rq w) \<noteq> None \<and> status = 200 \<and> (\<exists>args. dispatch ap rq = Some (Responses, args)))) \<and>
    xc_log (app_call ap av rq w) = [request_started (context_of rid av rq) (av_started av),
      request_completed (context_of rid av rq) (av_completed av) status] \<and>
    (\<forall>ls. requests_counted (xc_world (app_call ap av rq w)) ls =
       (if freeze ls = freeze [(''method'', rx_method rq), (''path'', rx_path rq), (''status'', str_of_int status)]
        then float_add (requests_counted w ls) (Fin 1) else requests_counted w ls))"
proof -
  let ?streaming = "\<exists>args. dispatch ap rq = Some (Responses, args)"
  obtain msgs failure w1 where r: "run_router ap av rid rq w = ((msgs, failure), w1)" by (metis surj_pair)
  have flag: "(ow \<or> (\<exists>e args a w'. dispatch ap rq = Some (e, args) \<and> run_endpoint ap av rid rq e args w = (Inl (APIError a), w') \<and>
      ae_headers a \<noteq> [])) = ow" using plain by blast
  have "well_run rid ow ?streaming (msgs, failure)" using router_well_run [OF r, of ow] fallback unfolding flag by blast
  then obtain start bodies where m: "msgs = started start @ body_messages bodies"
    and start: "start = None \<longrightarrow> bodies = [] \<and> failure \<noteq> None"
    and headers: "\<forall>st hs. start = Some (st, hs) \<longrightarrow> ow \<or> header_value hs ''x-request-id'' \<in> {None, Some rid}"
    and ends: "\<forall>st hs. start = Some (st, hs) \<longrightarrow> (if failure = None then \<exists>bs c. bodies = bs @ [(c, False)] else ?streaming \<and> st = 200)"
    by (rule well_run_cases)
  have final: "failure \<noteq> None \<or> (\<exists>(c, more_body)\<in>set bodies. \<not> more_body)"
    using start ends by (cases start) (auto split: if_splits)
  note parts = app_call_parts [OF r [unfolded m] final rid]
  from parts have x: "xc_failure (app_call ap av rq w) = failure" by blast
  from response_sent [where ap = ap and rid = rid, OF assms(1) start headers ends] parts show ?thesis
    unfolding x by (elim exE conjE) (intro exI [of _ "status_of_start start"] exI conjI; simp)
qed


section \<open>Who may change what\<close>

definition public_endpoint :: "endpoint \<Rightarrow> bool" where
  "public_endpoint e \<longleftrightarrow> e \<in> {Health, Prometheus}"

definition operator_endpoint :: "endpoint \<Rightarrow> bool" where
  "operator_endpoint e \<longleftrightarrow> e \<in> {OrganizationsPost, OrganizationGet, KeysPost, KeysGet, KeyDelete, KeyRotate}"

text \<open>The credential a route asks for: the operator's token, or the key of a tenant.\<close>

definition admitted :: "('r, 'u) application \<Rightarrow> app_request \<Rightarrow> endpoint \<Rightarrow> db \<Rightarrow> bool" where
  "admitted ap rq e d \<longleftrightarrow> public_endpoint e \<or>
     (let auth = header_value (rx_headers rq) ''authorization'' in
      if operator_endpoint e then require_operator (ap_hasher ap) (ap_scan ap) (st_operator_token (ap_settings ap)) auth d = Inr ()
      else \<exists>p. get_authenticated_principal (ap_hasher ap) (ap_scan ap) auth d = Inr p)"

lemma serve_responses_refused:
  "get_authenticated_principal hs scan auth (w_db w) = Inl err \<Longrightarrow> serve_responses hs scan co ep auth rid key body w = (Inl err, w)"
  by (simp add: serve_responses_def bind_a_def db_a_def read_a_def)

lemma deployed_refused:
  "get_authenticated_principal hs scan auth (w_db w) = Inl err \<Longrightarrow>
   deployed_responses hs scan co st client redis sleep near br auth rid key body w = (res, w') \<Longrightarrow> w' = w \<and> (\<exists>err'. res = Inl err')"
  by (auto simp: deployed_responses_def bind_a_def lift_a_def serve_responses_refused split: sum.splits)

lemma serve_operator_refused:
  "require_operator (ap_hasher ap) (ap_scan ap) (st_operator_token (ap_settings ap)) auth d = Inl err \<Longrightarrow>
   serve_operator (gate_of ap) fr auth q d = (Inl err, d)"
  by (rule serve_refused) (simp add: gate_of_def)

lemma endpoint_refused:
  assumes "\<not> admitted ap rq e (w_db w)"
  shows "\<exists>err. run_endpoint ap av rid rq e args w = (Inl err, w)"
proof (cases "if reads_body e then validated (rx_body rq) else Inr JNull")
  case (Inl err)
  then show ?thesis by (auto simp: run_endpoint_def bind_a_def lift_a_def)
next
  case (Inr body)
  let ?auth = "header_value (rx_headers rq) ''authorization''"
  consider err where "operator_endpoint e" "require_operator (ap_hasher ap) (ap_scan ap) (st_operator_token (ap_settings ap)) ?auth (w_db w) = Inl err"
    | err where "\<not> operator_endpoint e" "\<not> public_endpoint e" "get_authenticated_principal (ap_hasher ap) (ap_scan ap) ?auth (w_db w) = Inl err"
    using assms by (cases "require_operator (ap_hasher ap) (ap_scan ap) (st_operator_token (ap_settings ap)) ?auth (w_db w)";
        cases "get_authenticated_principal (ap_hasher ap) (ap_scan ap) ?auth (w_db w)") (auto simp: admitted_def Let_def split: if_splits)
  then show ?thesis
  proof cases
    case 1
    then show ?thesis using Inr
      by (cases e) (auto simp: run_endpoint_def operator_endpoint_def bind_a_def lift_a_def db_a_def Let_def serve_operator_refused)
  next
    case 2
    then show ?thesis using Inr tenant_a_refused [OF 2(3)]
      by (cases e) (auto dest: deployed_refused [OF 2(3)] simp: run_endpoint_def operator_endpoint_def public_endpoint_def bind_a_def lift_a_def Let_def split: prod.split sum.split)
  qed
qed

lemma public_unchanged: "public_endpoint e \<Longrightarrow> snd (run_endpoint ap av rid rq e args w) = w"
  by (cases e) (auto simp: public_endpoint_def run_endpoint_def bind_a_def lift_a_def get_health_def get_metrics_def ret_a_def read_a_def
      reads_body_def)

text \<open>What is asked for with \<open>GET\<close> is only read.\<close>

lemma dispatch_method: "dispatch ap rq = Some (e, args) \<Longrightarrow> (\<exists>t. (rx_method rq, t, e) \<in> set app_routes)"
  by (auto simp: dispatch_def find_Some_iff split: option.splits) (metis nth_mem)

lemma get_endpoints: "(''GET'', t, e) \<in> set app_routes \<Longrightarrow> e \<in> {Health, Prometheus, PromptsGet, McpGet, McpToolsGet, OrganizationGet, KeysGet}"
  by (auto simp: app_routes_def)

lemma keeps_db_of: "(\<And>d. snd (m d) = d) \<Longrightarrow> keeps (\<lambda>w. w_db w = d0) (db_a m)"
  by (auto simp: keeps_def db_a_def split: prod.split) (metis snd_conv)

lemma get_operator_db:
  "snd (serve_operator g fr auth (GetOrganizationsById i) d) = d" "snd (serve_operator g fr auth (GetApiKeys q) d) = d"
  by (auto simp: serve_operator_def operator_route_def get_organizations_by_id_def get_api_keys_def get_organization_def list_api_keys_def
      bind_a_def lift_a_def read_a_def raise_a_def ret_a_def split: sum.split option.split)

lemma keeps_db_stored: "(\<And>c. keeps (\<lambda>v. stored v = c) m) \<Longrightarrow> keeps (\<lambda>v. w_db v = d) m"
  unfolding keeps_def stored_def by (metis prod.inject)

lemma tenant_reads:
  "keeps (\<lambda>v. w_db v = d) (get_prompts p n)" "keeps (\<lambda>v. w_db v = d) (get_mcp_servers te p)"
  "keeps (\<lambda>v. w_db v = d) (get_mcp_server_tools te p n)" "keeps (\<lambda>v. w_db v = d) (db_a (read_a f))"
  unfolding get_prompts_def get_mcp_servers_def list_mcp_servers_def get_mcp_server_tools_def
  by (intro keeps_bind_a keeps_db_of keeps_ret_a keeps_lift_a keeps_db_stored list_server_tools_stored;
      simp add: get_prompt_versions_def bind_a_def lift_a_def read_a_def raise_a_def ret_a_def split: sum.split)+

lemma get_tenant_db:
  "q = GetPrompts n \<or> q = GetMcpServers \<or> q = GetMcpServerTools n \<Longrightarrow> keeps (\<lambda>v. w_db v = d) (serve_tenant te fr auth q)"
  by (auto simp: serve_tenant_def tenant_route_def intro!: keeps_bind_a tenant_reads)

lemma get_endpoint_db:
  assumes "dispatch ap rq = Some (e, args)" and "rx_method rq = ''GET''"
  shows "w_db (snd (run_endpoint ap av rid rq e args w)) = w_db w"
proof -
  have tenant: "keeps (\<lambda>v. w_db v = w_db w) (tenant_a ap fr auth q)" if "q = GetPrompts n \<or> q = GetMcpServers \<or> q = GetMcpServerTools n" for fr auth q n
    using get_tenant_db [OF that] that by (auto simp: tenant_a_def split: sum.split)
  have operator: "keeps (\<lambda>v. w_db v = w_db w) (db_a (serve_operator g fr auth (GetOrganizationsById i)))"
    "keeps (\<lambda>v. w_db v = w_db w) (db_a (serve_operator g fr auth (GetApiKeys o')))" for g fr auth i o'
    by (intro keeps_db_of get_operator_db)+
  obtain t where "(''GET'', t, e) \<in> set app_routes" using dispatch_method [OF assms(1)] assms(2) by auto
  then have "e \<in> {Health, Prometheus, PromptsGet, McpGet, McpToolsGet, OrganizationGet, KeysGet}" by (rule get_endpoints)
  then have "keeps (\<lambda>v. w_db v = w_db w) (run_endpoint ap av rid rq e args)"
    unfolding run_endpoint_def Let_def get_health_def get_metrics_def
    by (auto intro!: keeps_bind_a tenant operator)
  then show ?thesis by (simp add: keeps_def)
qed

text \<open>C7: the perimeter. A route other than the health check and the metrics runs only for a caller who shows the credential it
  asks for, the operator's token or the key of an active tenant: otherwise it ends with an exception and leaves
  the database, the Redis state and the upstream as they were. Whatever a request changes there, it was matched to such a route
  and its caller was admitted, and the database is never changed by a \<open>GET\<close>.\<close>

theorem perimeter:
  "(\<forall>e args. dispatch ap rq = Some (e, args) \<longrightarrow> \<not> admitted ap rq e (w_db w) \<longrightarrow> (\<exists>err. run_endpoint ap av rid rq e args w = (Inl err, w))) \<and>
   (let w' = xc_world (app_call ap av rq w) in
     ((w_db w', w_redis w', w_upstream w') \<noteq> (w_db w, w_redis w, w_upstream w) \<longrightarrow>
       (\<exists>e args. dispatch ap rq = Some (e, args) \<and> \<not> public_endpoint e \<and> admitted ap rq e (w_db w))) \<and>
     (w_db w' \<noteq> w_db w \<longrightarrow> rx_method rq \<noteq> ''GET''))"
proof -
  define rid' where "rid' = resolve_request_id (header_value (rx_headers rq) ''x-request-id'') (av_request_uuid av)"
  let ?w' = "xc_world (app_call ap av rq w)"
  obtain run w1 where r: "run_router ap av rid' rq w = (run, w1)" by (metis surj_pair)
  have w': "w_db ?w' = w_db w1" "w_redis ?w' = w_redis w1" "w_upstream ?w' = w_upstream w1"
    using r by (simp_all add: app_call_def Let_def rid'_def split: prod.split)
  have none: "w1 = w" if "dispatch ap rq = None"
    using r that by (auto simp: run_router_def split: prod.splits)
  have some: "w1 = snd (run_endpoint ap av rid' rq e args w)" if "dispatch ap rq = Some (e, args)" for e args
    using r that by (auto simp: run_router_def split: prod.splits sum.splits if_splits)
  have changed: "\<exists>e args. dispatch ap rq = Some (e, args) \<and> \<not> public_endpoint e \<and> admitted ap rq e (w_db w)" if "w1 \<noteq> w"
  proof (cases "dispatch ap rq")
    case (Some ea)
    obtain e args where ea: "ea = (e, args)" by (cases ea)
    have "\<not> public_endpoint e" using public_unchanged some [of e args] that Some ea by metis
    moreover have "admitted ap rq e (w_db w)" using endpoint_refused [of ap rq e w av rid' args] some [of e args] that Some ea by fastforce
    ultimately show ?thesis using Some ea by blast
  qed (use none that in blast)
  have "w_db w1 = w_db w" if "rx_method rq = ''GET''"
    using none some get_endpoint_db [of ap rq _ _ av rid' w] that by (cases "dispatch ap rq") fastforce+
  with changed w' endpoint_refused show ?thesis unfolding Let_def by metis
qed

section \<open>A sample application\<close>

text \<open>A reference matcher of paths: segment by segment, a parameter taking one segment that is not empty.\<close>

fun path_segments :: "string \<Rightarrow> string list" where
  "path_segments [] = [[]]"
| "path_segments (c # cs) = (if c = CHR ''/'' then [] # path_segments cs
     else (case path_segments cs of [] \<Rightarrow> [[c]] | x # xs \<Rightarrow> (c # x) # xs))"

fun match_segments :: "string list \<Rightarrow> string list \<Rightarrow> string list option" where
  "match_segments [] [] = Some []"
| "match_segments (t # ts) (p # ps) =
     (if startswith t ''{'' then (if p = [] then None else map_option ((#) p) (match_segments ts ps))
      else if t = p then match_segments ts ps else None)"
| "match_segments _ _ = None"

definition match_path :: "string \<Rightarrow> string \<Rightarrow> string list option" where
  "match_path template path = match_segments (path_segments template) (path_segments path)"

definition demo_app :: "(map_redis_state, demo_state) application" where
  "demo_app = \<lparr>ap_settings = demo_settings ''sk'', ap_hasher = demo_hasher, ap_scan = (\<lambda>xs. xs), ap_coercions = strict_coercions,
     ap_uuid_v = ga_uuid_v demo_gate, ap_client = \<lparr>hc_post = (\<lambda>r u. (Inl (), u)), hc_stream = (\<lambda>r u. (Inl (), u))\<rparr>,
     ap_redis = map_redis, ap_sleep = (\<lambda>d u. u), ap_nearest = (\<lambda>q rows. []), ap_bracketed_ok = (\<lambda>s. False),
     ap_match = match_path, ap_fallback = (\<lambda>rq. (404, [], dumps_compact (JObj [(''detail'', JStr ''Not Found'')]))),
     ap_json_text = dumps_compact, ap_tenant_json = (\<lambda>a. JNull), ap_operator_json = (\<lambda>a. JNull), ap_debug_page = (\<lambda>e. ([], []))\<rparr>"

definition demo_arrival :: arrival where
  "demo_arrival = fresh.extend (demo_fresh 8 9 []) \<lparr>av_request_uuid = 7, av_duration_ms = 5, av_started = sample_instant,
     av_completed = sample_instant\<rparr>"

definition demo_http :: "string \<Rightarrow> string \<Rightarrow> (string \<times> string) list \<Rightarrow> json \<Rightarrow> app_request" where
  "demo_http method path headers body = \<lparr>rx_method = method, rx_path = path, rx_query = [], rx_headers = headers, rx_body = Inr body\<rparr>"

lemma demo_dispatch:
  "dispatch demo_app (demo_http ''GET'' ''/v1/prompts/p'' hs b) = Some (PromptsGet, [''p''])"
  "dispatch demo_app (demo_http ''GET'' ''/v1/mcp_servers/s/tools'' hs b) = Some (McpToolsGet, [''s''])"
  "dispatch demo_app (demo_http ''DELETE'' ''/v1/api_keys/5'' hs b) = Some (KeyDelete, [''5''])"
  "dispatch demo_app (demo_http ''POST'' ''/v1/responses'' hs b) = Some (Responses, [])"
  "dispatch demo_app (demo_http ''GET'' ''/v1/prompts/'' hs b) = None"
  by (simp_all add: dispatch_def demo_app_def demo_http_def app_routes_def match_path_def startswith_def)

lemma demo_refused:
  "run_endpoint demo_app av rid (demo_http ''GET'' ''/v1/prompts/p'' [] b) PromptsGet [''p''] w = (Inl (unauthorized UNAUTHORIZED_MESSAGE), w)"
proof -
  have "get_authenticated_principal (ap_hasher demo_app) (ap_scan demo_app) None (w_db w) = Inl (unauthorized UNAUTHORIZED_MESSAGE)"
    by (simp add: get_authenticated_principal_def extract_bearer_token_def extract_bearer_credentials_def)
  from tenant_a_refused [OF this] show ?thesis
    by (simp add: run_endpoint_def reads_body_def demo_http_def header_value_def bind_a_def lift_a_def Let_def)
qed


lemma perimeter_witness:
  "w_db (xc_world (app_call demo_app demo_arrival (demo_http ''GET'' ''/v1/prompts/p'' [] JNull) (demo_world 0))) = demo_db1"
  using perimeter [of demo_app "demo_http ''GET'' ''/v1/prompts/p'' [] JNull" "demo_world 0" demo_arrival "[]"]
  by (simp add: Let_def demo_http_def) (auto simp: demo_world_def)

end
