(* ===== verification/Server.thy ===== *)
theory Server
  imports App
begin

text \<open>
  The service over time: requests one after another on the shared state, and between them whatever the outside does to Redis, to
  the upstream providers and to the clocks. An abstract machine of the database (\<open>db_step\<close>) says what a request may
  write; every request refines it, so what its steps preserve holds of the database for good. Requests are not
  interleaved: the model runs each to its end.
\<close>

section \<open>The abstract machine of the database\<close>

text \<open>An administrative operation, or one row added by a tenant's request, as the repositories add it.\<close>

inductive db_step :: "hasher \<Rightarrow> db \<Rightarrow> db \<Rightarrow> bool" for hs where
  administered: "admin_step hs d d' \<Longrightarrow> db_step hs d d'"
| published: "create_prompt_version fr org name ms d = (r1, d') \<Longrightarrow> db_step hs d d'"
| registered: "mcp_add br s d = (r2, d') \<Longrightarrow> db_step hs d d'"
| indexed: "mk_semantic_chunk c = Inr c \<Longrightarrow> chunk_add c d = (r3, d') \<Longrightarrow> db_step hs d d'"
| billed: "usage_record_ok u \<Longrightarrow> usage_add u d = (r4, d') \<Longrightarrow> db_step hs d d'"
| audited: "audit_event_ok e \<Longrightarrow> audit_add e d = (r5, d') \<Longrightarrow> db_step hs d d'"

abbreviation db_steps :: "hasher \<Rightarrow> db \<Rightarrow> db \<Rightarrow> bool" where
  "db_steps hs \<equiv> (db_step hs)\<^sup>*\<^sup>*"

lemma steps_extend: "db_steps hs d0 d \<Longrightarrow> db_step hs d d' \<Longrightarrow> db_steps hs d0 d'"
  by (rule rtranclp.rtrancl_into_rtrancl)

section \<open>Every request refines it\<close>

interpretation steps: ledger_invariant "db_steps hs d0" for hs d0
  by unfold_locales (erule steps_extend, rule billed [OF _ surjective_pairing], assumption,
      erule steps_extend, rule audited [OF _ surjective_pairing], assumption)

lemma serve_operator_step: "serve_operator g fr auth q d = (r, d') \<Longrightarrow> d' = d \<or> admin_step (ga_hasher g) d d'"
proof -
  have route: "d' = d \<or> admin_step (ga_hasher g) d d'"
    if "operator_route g auth arg f wrap d = (r, d')"
      "\<And>x r d1. f x d = (r, d1) \<Longrightarrow> d1 = d \<or> admin_step (ga_hasher g) d d1" for f :: "'b \<Rightarrow> (db, exn, 'c) act" and arg wrap
    using that by (fastforce simp: operator_route_def bind_a_def lift_a_def read_a_def ret_a_def split: sum.splits prod.splits)
  assume "serve_operator g fr auth q d = (r, d')"
  then show ?thesis
    by (cases q)
      (auto simp: serve_operator_def post_organizations_def get_organizations_by_id_def post_api_keys_def get_api_keys_def
        delete_api_key_def post_rotate_api_key_def get_organization_def list_api_keys_def bind_a_def ret_a_def read_a_def raise_a_def
        dest!: route split: sum.splits prod.splits option.splits intro: admin_step.intros)
qed

lemma keeps_db_step:
  "(\<And>d r d'. m d = (r, d') \<Longrightarrow> d' = d \<or> db_step hs d d') \<Longrightarrow> keeps (\<lambda>w. db_steps hs d0 (w_db w)) (db_a m)"
  by (fastforce simp: keeps_def db_a_def split: prod.split intro: steps_extend)

lemma keeps_same_db: "(\<And>d. keeps (\<lambda>w. w_db w = d) m) \<Longrightarrow> keeps (\<lambda>w. Q (w_db w)) m"
  by (simp add: keeps_def)

lemma tenant_steps:
  "keeps (\<lambda>w. db_steps hs d0 (w_db w)) (post_prompts fr p b)"
  "keeps (\<lambda>w. db_steps hs d0 (w_db w)) (post_mcp_servers te p b2)"
  "keeps (\<lambda>w. db_steps hs d0 (w_db w)) (post_semantic_chunks te p b3)"
proof -
  show "keeps (\<lambda>w. db_steps hs d0 (w_db w)) (post_prompts fr p b)"
    unfolding post_prompts_def by (intro keeps_bind_a keeps_lift_a keeps_ret_a keeps_db_step) (blast intro: published)
  show "keeps (\<lambda>w. db_steps hs d0 (w_db w)) (post_mcp_servers te p b2)"
    unfolding post_mcp_servers_def register_mcp_server_def
    by (intro keeps_bind_a keeps_lift_a keeps_world keeps_db_step) (blast intro: registered)
  have valid: "mk_semantic_chunk c = Inr c" if "mk_semantic_chunk x = Inr c" for x c
    using that by (auto simp: mk_semantic_chunk_def bind_r_eq_Inr)
  have add: "keeps (\<lambda>w. db_steps hs d0 (w_db w)) (db_a (chunk_add c))" if "mk_semantic_chunk x = Inr c" for x c
    by (rule keeps_db_step) (blast intro: indexed [OF valid [OF that]])
  have "keeps (\<lambda>w. db_steps hs d0 (w_db w)) (index_semantic_chunk org content v)" for org content v
    unfolding index_semantic_chunk_def
    by (auto intro!: keeps_bind_a keeps_bind_lift keeps_same_db [OF tenant_reads(4)] intro: add split: option.split)
  moreover have "keeps (\<lambda>w. db_steps hs d0 (w_db w)) (embed_text ps cat m c)" for ps cat m c
    by (rule keeps_same_db, rule keeps_db_stored, rule embed_text_stored)
  ultimately show "keeps (\<lambda>w. db_steps hs d0 (w_db w)) (post_semantic_chunks te p b3)"
    unfolding post_semantic_chunks_def ingest_semantic_chunk_def by (intro keeps_bind_a keeps_ret_a)
qed

lemma serve_tenant_steps: "keeps (\<lambda>w. db_steps hs d0 (w_db w)) (serve_tenant te fr auth q)"
  by (cases q) (auto simp: serve_tenant_def tenant_route_def
      intro!: keeps_bind_a keeps_bind_lift tenant_steps keeps_same_db [OF tenant_reads(1)] keeps_same_db [OF tenant_reads(2)]
        keeps_same_db [OF tenant_reads(3)] keeps_same_db [OF tenant_reads(4)])

lemma tenant_a_steps: "keeps (\<lambda>w. db_steps hs d0 (w_db w)) (tenant_a ap fr auth q)"
  by (auto simp: tenant_a_def tenant_route_def serve_tenant_steps
      intro!: keeps_bind_a keeps_same_db [OF tenant_reads(4)] split: sum.split tenant_request.split)

lemma run_command_steps: "keeps (\<lambda>w. db_steps hs d0 (w_db w)) (run_command ep rid body cmd)"
proof (cases "crq_stream body")
  case False
  then show ?thesis unfolding run_command_def by (auto intro!: keeps_bind_a steps.create_response_keeps)
next
  case True
  have "db_steps hs d0 (w_db (snd (run_command ep rid body cmd w)))" if "db_steps hs d0 (w_db w)" for w
  proof -
    obtain evs eo w1 where s: "create_response_stream (ep_service ep) cmd w = ((evs, eo), w1)" by (metis surj_pair)
    with True steps.create_response_stream_keeps [OF s that] show ?thesis by (cases evs; cases eo) (simp_all add: run_command_def)
  qed
  then show ?thesis by (simp add: keeps_def)
qed

lemma prepare_db: "keeps (\<lambda>w. w_db w = d) (prepare_command ep p rid key body)"
proof -
  have "w_db (snd (prepare_command ep p rid key body w)) = w_db w" for w
    using prepare_stored [OF surjective_pairing, of ep p rid key body w] by (simp add: stored_def)
  then show ?thesis by (simp add: keeps_def)
qed

lemma deployed_steps: "keeps (\<lambda>w. db_steps hs d0 (w_db w)) (deployed_responses hs' scan co st client redis sleep near br auth rid key body)"
  unfolding deployed_responses_def serve_responses_def post_responses_def
  by (intro keeps_bind_a keeps_lift_a run_command_steps keeps_same_db [OF tenant_reads(4)] keeps_same_db [OF prepare_db])

lemma endpoint_steps: "keeps (\<lambda>w. db_steps (ap_hasher ap) d0 (w_db w)) (run_endpoint ap av rid rq e args)"
proof -
  have "keeps (\<lambda>w. db_steps (ap_hasher ap) d0 (w_db w)) (db_a (serve_operator (gate_of ap) fr auth q))" for fr auth q
    by (rule keeps_db_step, drule serve_operator_step) (auto simp: gate_of_def intro: administered)
  then show ?thesis
    unfolding run_endpoint_def Let_def get_health_def get_metrics_def
    by (cases e) (auto intro!: keeps_bind_a deployed_steps tenant_a_steps)
qed

lemma call_db: "\<exists>e args. w_db (xc_world (app_call ap av rq w)) =
    (if dispatch ap rq = None then w_db w else w_db (snd (run_endpoint ap av
      (resolve_request_id (header_value (rx_headers rq) ''x-request-id'') (av_request_uuid av)) rq e args w)))"
  by (auto simp: app_call_def Let_def run_router_def split: prod.splits option.splits sum.splits if_splits) (metis snd_conv)+

text \<open>Whatever a request does, its effect on the database is a run of the abstract machine.\<close>

theorem request_refines:
  "db_steps (ap_hasher ap) (w_db w) (w_db (xc_world (app_call ap av rq w)))"
proof -
  have "db_steps (ap_hasher ap) (w_db w) (w_db (snd (run_endpoint ap av rid rq e args w)))" for rid e args
    using endpoint_steps [of ap "w_db w" av rid rq e args] by (simp add: keeps_def)
  with call_db [of ap av rq w] show ?thesis by (auto split: if_splits)
qed

section \<open>What the steps preserve\<close>

text \<open>The constraints of the tenants' tables, that the versions of a prompt have no gaps, and that every stored chunk is valid.\<close>

definition tenant_ok :: "db \<Rightarrow> bool" where
  "tenant_ok d \<longleftrightarrow>
     distinct (map prow_id (db_prompts d)) \<and>
     distinct (map (\<lambda>r. (prow_organization_id r, prow_name r, prow_version r)) (db_prompts d)) \<and>
     (\<forall>r\<in>set (db_prompts d). fk_organization d (prow_organization_id r) \<and> 1 \<le> prow_version r \<and>
       (\<forall>v. 1 \<le> v \<longrightarrow> v < prow_version r \<longrightarrow> (\<exists>s\<in>set (prompt_rows (prow_organization_id r) (prow_name r) d). prow_version s = v))) \<and>
     distinct (map mrow_id (db_mcp_servers d)) \<and> distinct (map (\<lambda>r. (mrow_organization_id r, mrow_name r)) (db_mcp_servers d)) \<and>
     (\<forall>r\<in>set (db_mcp_servers d). fk_organization d (mrow_organization_id r)) \<and>
     distinct (map crow_id (db_chunks d)) \<and>
     (\<forall>c\<in>set (db_chunks d). fk_organization d (crow_organization_id c) \<and> mk_semantic_chunk c = Inr c)"

definition service_ok :: "db \<Rightarrow> bool" where
  "service_ok d \<longleftrightarrow> db_ok d \<and> tenant_ok d"

text \<open>The tables of the tenants are untouched, and no organization is lost.\<close>

definition tenants_kept :: "db \<Rightarrow> db \<Rightarrow> bool" where
  "tenants_kept d d' \<longleftrightarrow> db_prompts d' = db_prompts d \<and> db_mcp_servers d' = db_mcp_servers d \<and> db_chunks d' = db_chunks d \<and>
     orow_id ` set (db_organizations d) \<subseteq> orow_id ` set (db_organizations d')"

lemma tenants_kept_refl [simp]: "tenants_kept d d"
  by (simp add: tenants_kept_def)

lemma tenants_kept_ok: "tenants_kept d d' \<Longrightarrow> tenant_ok d \<Longrightarrow> tenant_ok d'"
  by (auto simp: tenants_kept_def tenant_ok_def fk_organization_def prompt_rows_def)

lemma tenants_kept_writes:
  "keeps (tenants_kept d) (org_add og)" "keeps (tenants_kept d) (key_add k)" "keeps (tenants_kept d) (key_save k)"
  "keeps (tenants_kept d) (key_revoke_and_add k k2)" "keeps (tenants_kept d) (audit_add e)" "keeps (tenants_kept d) (usage_add u)"
  by (auto simp: keeps_def tenants_kept_def org_add_def key_add_def key_save_def key_revoke_and_add_def audit_add_def usage_add_def Let_def)

lemma admin_step_tenants: "admin_step hs d d' \<Longrightarrow> tenants_kept d d'"
proof (induction rule: admin_step.induct)
  case (step_create_organization fr name slug d r1 d')
  have "keeps (tenants_kept d) (create_organization fr name slug)"
    by (auto simp: create_organization_def intro!: keeps_bind_a tenants_kept_writes)
  from keepsD [OF this _ step_create_organization] show ?case by simp
next
  case (step_create_key fr org kname d r2 d')
  have "keeps (tenants_kept d) (create_api_key hs fr org kname)"
    by (auto simp: create_api_key_def key_audit_def intro!: keeps_bind_a tenants_kept_writes split: option.split)
  from keepsD [OF this _ step_create_key] show ?case by simp
next
  case (step_revoke_key fr i d r3 d')
  have "keeps (tenants_kept d) (revoke_api_key fr i)"
    by (auto simp: revoke_api_key_def key_audit_def intro!: keeps_bind_a tenants_kept_writes split: option.split)
  from keepsD [OF this _ step_revoke_key] show ?case by simp
next
  case (step_rotate_key fr i d r4 d')
  have "keeps (tenants_kept d) (rotate_api_key hs fr i)"
    by (auto simp: rotate_api_key_def key_audit_def intro!: keeps_bind_a tenants_kept_writes split: option.split)
  from keepsD [OF this _ step_rotate_key] show ?case by simp
qed

lemma prompt_rows_set: "r \<in> set (prompt_rows org name d) \<longleftrightarrow> r \<in> set (db_prompts d) \<and> prow_organization_id r = org \<and> prow_name r = name"
  by (auto simp: prompt_rows_def)

text \<open>The version a new prompt gets is the next one.\<close>

lemma next_version:
  assumes "tenant_ok d" and "v = (case latest_version (prompt_rows org name d) of None \<Rightarrow> 0 | Some n \<Rightarrow> n) + 1"
  shows "1 \<le> v" and "1 \<le> u \<Longrightarrow> u < v \<Longrightarrow> \<exists>r\<in>set (prompt_rows org name d). prow_version r = u"
proof -
  let ?rows = "prompt_rows org name d"
  have "1 \<le> v \<and> (1 \<le> u \<longrightarrow> u < v \<longrightarrow> (\<exists>r\<in>set ?rows. prow_version r = u))"
  proof (cases "?rows = []")
    case True
    with assms(2) show ?thesis by (simp add: latest_version_def)
  next
    case False
    let ?m = "Max (set (map prow_version ?rows))"
    have "?m \<in> set (map prow_version ?rows)" using False by (intro Max_in) auto
    then obtain r where r: "r \<in> set ?rows" "prow_version r = ?m" by auto
    from r(1) have o: "prow_organization_id r = org" "prow_name r = name" "r \<in> set (db_prompts d)" by (simp_all add: prompt_rows_set)
    from assms(1) o(3) have ok: "1 \<le> prow_version r"
      "\<And>v. 1 \<le> v \<Longrightarrow> v < prow_version r \<Longrightarrow> \<exists>s\<in>set (prompt_rows (prow_organization_id r) (prow_name r) d). prow_version s = v"
      unfolding tenant_ok_def by blast+
    have v: "v = prow_version r + 1" using assms(2) False r(2) by (simp add: latest_version_def)
    with ok r(1) o(1,2) show ?thesis by (cases "u = prow_version r") auto
  qed
  then show "1 \<le> v" and "1 \<le> u \<Longrightarrow> u < v \<Longrightarrow> \<exists>r\<in>set ?rows. prow_version r = u" by blast+
qed

lemma prompt_create_keeps: "tenant_ok d \<Longrightarrow> tenant_ok (snd (prompt_create_version i now org name ms d))"
proof -
  assume ok: "tenant_ok d"
  let ?v = "(case latest_version (prompt_rows org name d) of None \<Rightarrow> 0 | Some n \<Rightarrow> n) + 1"
  let ?row = "\<lparr>prow_id = i, prow_organization_id = org, prow_name = name, prow_version = ?v,
      prow_messages = map (\<lambda>m. (role_value (pm_role m), pm_content m)) ms, prow_created_at = now\<rparr>"
  let ?d = "d\<lparr>db_prompts := db_prompts d @ [?row]\<rparr>"
  note next_v = next_version [where org = org and name = name, OF ok refl]
  have mono: "r \<in> set (prompt_rows o1 n1 d) \<Longrightarrow> r \<in> set (prompt_rows o1 n1 ?d)" for r o1 n1 by (simp add: prompt_rows_set)
  have "tenant_ok ?d" if new: "\<not> (\<exists>r\<in>set (db_prompts d). prow_id r = i \<or> (prow_organization_id r = org \<and> prow_name r = name \<and> prow_version r = ?v))"
    "fk_organization d org"
  proof -
    have "\<exists>s\<in>set (prompt_rows (prow_organization_id r) (prow_name r) ?d). prow_version s = u"
      if "r \<in> set (db_prompts ?d)" "1 \<le> u" "u < prow_version r" for r u
    proof (cases "r = ?row")
      case True
      then show ?thesis using next_v(2) that mono by fastforce
    next
      case False
      then have "r \<in> set (db_prompts d)" using that(1) by simp
      then show ?thesis using ok that(2,3) mono unfolding tenant_ok_def by blast
    qed
    moreover have "\<forall>r\<in>set (db_prompts ?d). fk_organization ?d (prow_organization_id r) \<and> 1 \<le> prow_version r"
      using ok new(2) next_v(1) unfolding tenant_ok_def fk_organization_def by fastforce
    moreover have "distinct (map prow_id (db_prompts ?d))"
      "distinct (map (\<lambda>r. (prow_organization_id r, prow_name r, prow_version r)) (db_prompts ?d))"
      using ok new(1) unfolding tenant_ok_def by (auto simp: image_iff)
    ultimately show ?thesis using ok unfolding tenant_ok_def fk_organization_def by simp
  qed
  then show ?thesis using ok by (auto simp: prompt_create_version_def Let_def)
qed

lemma db_step_tenants: "db_step hs d d' \<Longrightarrow> tenant_ok d \<Longrightarrow> tenant_ok d'"
proof (induction rule: db_step.induct)
  case (administered d d')
  then show ?case using admin_step_tenants tenants_kept_ok by blast
next
  case (published fr org name ms d r1 d')
  have "keeps tenant_ok (create_prompt_version fr org name ms)"
    by (auto simp: create_prompt_version_def intro!: keeps_bind_a) (simp add: keeps_def prompt_create_keeps)
  with published show ?case by (auto dest: keepsD)
next
  case (registered br s d r2 d')
  then consider "d' = d" | row where "d' = d\<lparr>db_mcp_servers := db_mcp_servers d @ [row]\<rparr>" "fk_organization d (mrow_organization_id row)"
    "\<forall>r\<in>set (db_mcp_servers d). mrow_id r \<noteq> mrow_id row \<and>
      (mrow_organization_id r, mrow_name r) \<noteq> (mrow_organization_id row, mrow_name row)"
    by (auto simp: mcp_add_def Let_def split: option.splits if_splits)
  then show ?case using registered.prems by cases (fastforce simp: tenant_ok_def fk_organization_def prompt_rows_def)+
next
  case (indexed c d r3 d')
  then show ?case by (auto simp: chunk_add_def tenant_ok_def fk_organization_def prompt_rows_def image_iff split: if_splits)
next
  case (billed u d r4 d')
  then show ?case using keepsD [OF tenants_kept_writes(6) tenants_kept_refl] tenants_kept_ok by blast
next
  case (audited e d r5 d')
  then show ?case using keepsD [OF tenants_kept_writes(5) tenants_kept_refl] tenants_kept_ok by blast
qed

lemma db_step_ok:
  "db_step hs d d' \<Longrightarrow> db_ok d \<Longrightarrow> db_ok d'"
proof (induction rule: db_step.induct)
  case (published fr org name ms d r1 d')
  have "keeps db_ok (prompt_create_version i now org name ms)" for i now
    by (auto simp: keeps_def prompt_create_version_def Let_def db_ok_def fk_organization_def fk_api_key_def)
  then have "keeps db_ok (create_prompt_version fr org name ms)"
    by (auto simp: create_prompt_version_def intro!: keeps_bind_a)
  with published show ?case by (auto dest: keepsD)
next
  case (registered br s d r2 d')
  then show ?case by (auto simp: mcp_add_def Let_def db_ok_def fk_organization_def fk_api_key_def split: option.splits if_splits)
next
  case (indexed c d r3 d')
  then show ?case by (auto simp: chunk_add_def db_ok_def fk_organization_def fk_api_key_def split: if_splits)
next
  case (billed u d r4 d')
  then show ?case using usage_add_keeps by fastforce
next
  case (audited e d r5 d')
  then show ?case using audit_add_keeps by fastforce
qed (rule admin_step_keeps)

lemma db_step_revoked: "db_step hs d d' \<Longrightarrow> key_revoked i d \<Longrightarrow> key_revoked i d'"
proof (induction rule: db_step.induct)
  case (published fr org name ms d r1 d')
  have "keeps (key_revoked i) (create_prompt_version fr org name ms)"
    by (auto simp: create_prompt_version_def intro!: keeps_bind_a)
      (simp add: keeps_def prompt_create_version_def key_revoked_def Let_def)
  with published show ?case by (auto dest: keepsD)
next
  case (administered d d')
  then show ?case by (blast intro: admin_step_keeps(2))
qed (auto simp: key_revoked_def mcp_add_def chunk_add_def usage_add_def audit_add_def Let_def
    split: option.splits if_splits)

lemma db_steps_keep: "db_steps hs d d' \<Longrightarrow> (service_ok d \<longrightarrow> service_ok d') \<and> (key_revoked i d \<longrightarrow> key_revoked i d')"
  by (induction rule: rtranclp_induct) (auto simp: service_ok_def dest: db_step_ok db_step_tenants db_step_revoked)

section \<open>Runs of the service\<close>

text \<open>
  A run with the requests it served and what was sent for each. Between requests Redis, the upstream state, the clocks and the
  identifiers to come may be anything; the database and the metrics are the service's own.
\<close>

inductive served ::
    "('r, 'u) application \<Rightarrow> ('r, 'u) world \<Rightarrow> (app_request \<times> asgi_message list) list \<Rightarrow> ('r, 'u) world \<Rightarrow> bool" for ap w where
  served_none: "served ap w [] w"
| served_outside: "served ap w es w1 \<Longrightarrow> w_db w2 = w_db w1 \<Longrightarrow> w_metrics w2 = w_metrics w1 \<Longrightarrow> served ap w es w2"
| served_request: "served ap w es w1 \<Longrightarrow> served ap w (es @ [(rq, xc_sent (app_call ap av rq w1))]) (xc_world (app_call ap av rq w1))"

lemma served_steps: "served ap w es w' \<Longrightarrow> db_steps (ap_hasher ap) (w_db w) (w_db w')"
  by (induction rule: served.induct) (auto intro: rtranclp_trans request_refines)

text \<open>C6: the database stays well-formed for good. Whatever requests the service gets, valid or not, authorized or not, and
  however they end: primary keys, unique constraints and foreign keys of all tables hold in every state it reaches, every
  row of the operator's tables is valid, the versions of every prompt are numbered from 1 without a gap, and every
  stored chunk has an embedding of the right size.\<close>

theorem service_invariant:
  assumes "served ap w es w'" and "service_ok (w_db w)"
  shows "service_ok (w_db w')"
  using db_steps_keep [OF served_steps [OF assms(1)]] assms(2) by blast

lemma empty_service_ok: "service_ok empty_db"
  by (simp add: service_ok_def empty_db_ok tenant_ok_def) (simp add: empty_db_def)

lemma demo_service_ok: "service_ok demo_db1"
  by (simp add: service_ok_def demo_db_ok) (simp add: tenant_ok_def demo_db1_def demo_db_def empty_db_def)

lemma service_invariant_witness:
  "service_ok (w_db (xc_world (app_call demo_app demo_arrival (demo_http ''POST'' ''/v1/responses'' [] demo_body) (demo_world 0))))"
proof -
  have "service_ok (w_db (demo_world 0))" by (simp add: demo_world_def demo_service_ok)
  from service_invariant [OF served_request [OF served_none, where rq = "demo_http ''POST'' ''/v1/responses'' [] demo_body" and av = demo_arrival] this]
  show ?thesis .
qed

lemma principal_authenticated:
  assumes "get_authenticated_principal hs scan authorization d = Inr p"
  obtains secret where "authenticate hs scan secret d = Inr p"
proof -
  from assms obtain secret where s: "(case authenticate hs scan secret d of
       Inl InvalidApiKeyCredentialsError \<Rightarrow> Inl (unauthorized UNAUTHORIZED_MESSAGE)
     | Inl (OrganizationSuspendedError _) \<Rightarrow> Inl (forbidden FORBIDDEN_SUSPENDED_MESSAGE)
     | res \<Rightarrow> res) = Inr p"
    by (auto simp: get_authenticated_principal_def bind_r_eq_Inr)
  show thesis
  proof (cases "authenticate hs scan secret d")
    case (Inl e)
    with s show thesis by (cases e) simp_all
  next
    case (Inr q)
    with s show thesis by (intro that [of secret]) simp
  qed
qed

text \<open>C17: revocation is final. Once a key is revoked, no run of the service leads to a state in which any secret authenticates as
  that key, so no request is served for it again; neither an operator's request nor a tenant's brings it back.\<close>

theorem revocation_final:
  assumes "served ap w es w'" and "service_ok (w_db w)" and "key_revoked i (w_db w)" and "scan_sound scan"
    and "get_authenticated_principal hs scan authorization (w_db w') = Inr p"
  shows "pl_api_key_id p \<noteq> i"
proof -
  have d: "db_ok (w_db w')" "key_revoked i (w_db w')"
    using db_steps_keep [OF served_steps [OF assms(1)]] assms(2,3) by (auto simp: service_ok_def)
  from assms(5) obtain secret where "authenticate hs scan secret (w_db w') = Inr p" by (rule principal_authenticated)
  with revoked_never_authenticates [OF d rtranclp.rtrancl_refl assms(4)] show ?thesis by blast
qed

lemma revocation_final_witness:
  "get_authenticated_principal demo_hasher (\<lambda>xs. xs) (Some ''Bearer airt_abcdefgh1'') demo_db2 \<noteq> Inr demo_principal"
proof
  assume a: "get_authenticated_principal demo_hasher (\<lambda>xs. xs) (Some ''Bearer airt_abcdefgh1'') demo_db2 = Inr demo_principal"
  let ?w = "(demo_world 0)\<lparr>w_db := demo_db2\<rparr>"
  have "service_ok demo_db2"
    by (simp add: service_ok_def demo_db_ok) (simp add: tenant_ok_def demo_db2_def demo_db_def empty_db_def)
  moreover have "key_revoked 5 demo_db2"
    by (simp add: key_revoked_def demo_db2_def)
  moreover have "scan_sound (\<lambda>xs. xs)" by (simp add: scan_sound_def)
  ultimately have "pl_api_key_id demo_principal \<noteq> 5"
    using revocation_final [OF served_none [of demo_app ?w], of 5 "\<lambda>xs. xs"] a by simp
  then show False by (simp add: demo_principal_def)
qed

section \<open>The request counter\<close>

text \<open>The number of responses of one method, path and status among those sent.\<close>

definition label_of :: "app_request \<times> asgi_message list \<Rightarrow> (string \<times> string) list" where
  "label_of e = [(''method'', rx_method (fst e)), (''path'', rx_path (fst e)),
     (''status'', str_of_int (case snd e of ResponseStart status _ # _ \<Rightarrow> status | _ \<Rightarrow> 0))]"



end
