(* ===== verification/Sdk.thy ===== *)
theory Sdk
  imports Endpoint
begin

text \<open>
  The Python SDK (\<open>src/sdk/python/src/ai_runtime_sdk\<close>): its models, the bodies and headers it sends, what
  it makes of replies, stream frames and errors. The HTTP library is a parameter: a call raises
  \<open>httpx.HTTPError\<close> or gives a reply with its status, headers, text and decoded JSON. The synchronous
  and the asynchronous client have the same text, and are modelled once.
\<close>

section \<open>Models\<close>

text \<open>Unknown fields are ignored, so there is no check for extra ones.\<close>

record sdk_tool_call =
  ktc_id :: string
  ktc_name :: string
  ktc_arguments :: string

definition sdk_tool_call_v :: "sdk_tool_call validator" where
  "sdk_tool_call_v = v_object (\<lambda>loc kvs.
     apply_v (apply_v (map_r (\<lambda>i n a. \<lparr>ktc_id = i, ktc_name = n, ktc_arguments = a\<rparr>)
       (v_field kvs loc ''id'' v_str None)) (v_field kvs loc ''name'' v_str None)) (v_field kvs loc ''arguments'' v_str None))"

record sdk_tool_definition =
  ktd_name :: string
  ktd_description :: string
  ktd_parameters :: "(string, json) dict"

definition sdk_tool_definition_v :: "sdk_tool_definition validator" where
  "sdk_tool_definition_v = v_object (\<lambda>loc kvs.
     apply_v (apply_v (map_r (\<lambda>n d p. \<lparr>ktd_name = n, ktd_description = d, ktd_parameters = p\<rparr>)
       (v_field kvs loc ''name'' v_str None)) (v_field kvs loc ''description'' v_str (Some [])))
       (v_field kvs loc ''parameters'' (v_dict v_any) (Some [])))"

record sdk_message =
  km_role :: message_role
  km_content :: string
  km_tool_call_id :: "string option"
  km_name :: "string option"
  km_tool_calls :: "sdk_tool_call list"

definition sdk_message_v :: "sdk_message validator" where
  "sdk_message_v = v_object (\<lambda>loc kvs.
     apply_v (apply_v (apply_v (apply_v (map_r
         (\<lambda>r c t n cs. \<lparr>km_role = r, km_content = c, km_tool_call_id = t, km_name = n, km_tool_calls = cs\<rparr>)
       (v_field kvs loc ''role'' message_role_v None))
       (v_field kvs loc ''content'' v_str (Some [])))
       (v_field kvs loc ''tool_call_id'' (v_optional v_str) (Some None)))
       (v_field kvs loc ''name'' (v_optional v_str) (Some None)))
       (v_field kvs loc ''tool_calls'' (v_list sdk_tool_call_v) (Some [])))"

record sdk_prompt_reference =
  kpr_name :: string
  kpr_version :: "int option"
  kpr_variables :: "(string, string) dict"

definition sdk_prompt_reference_v :: "coercions \<Rightarrow> sdk_prompt_reference validator" where
  "sdk_prompt_reference_v co = v_object (\<lambda>loc kvs.
     apply_v (apply_v (map_r (\<lambda>n v vs. \<lparr>kpr_name = n, kpr_version = v, kpr_variables = vs\<rparr>)
       (v_field kvs loc ''name'' v_str None))
       (v_field kvs loc ''version'' (v_optional (of_coercion (co_int co))) (Some None)))
       (v_field kvs loc ''variables'' (v_dict v_str) (Some [])))"

record sdk_context =
  kcx_max_input_tokens :: "int option"
  kcx_truncate :: bool

definition sdk_context_v :: "coercions \<Rightarrow> sdk_context validator" where
  "sdk_context_v co = v_object (\<lambda>loc kvs.
     apply_v (map_r (\<lambda>m t. \<lparr>kcx_max_input_tokens = m, kcx_truncate = t\<rparr>)
       (v_field kvs loc ''max_input_tokens'' (v_optional (of_coercion (co_int co))) (Some None)))
       (v_field kvs loc ''truncate'' (of_coercion (co_bool co)) (Some False)))"

record sdk_usage =
  kus_input_tokens :: int
  kus_output_tokens :: int
  kus_total_tokens :: int

definition sdk_usage_v :: "coercions \<Rightarrow> sdk_usage validator" where
  "sdk_usage_v co = v_object (\<lambda>loc kvs.
     apply_v (apply_v (map_r (\<lambda>i ot t. \<lparr>kus_input_tokens = i, kus_output_tokens = ot, kus_total_tokens = t\<rparr>)
       (v_field kvs loc ''input_tokens'' (of_coercion (co_int co)) None))
       (v_field kvs loc ''output_tokens'' (of_coercion (co_int co)) None))
       (v_field kvs loc ''total_tokens'' (of_coercion (co_int co)) None))"

record sdk_response =
  krs_id :: string
  krs_model :: string
  krs_output :: sdk_message
  krs_usage :: "sdk_usage option"
  krs_cached :: bool
  krs_request_id :: "string option"

definition sdk_response_v :: "coercions \<Rightarrow> sdk_response validator" where
  "sdk_response_v co = v_object (\<lambda>loc kvs.
     apply_v (apply_v (apply_v (apply_v (apply_v (map_r
         (\<lambda>i m out u c r. \<lparr>krs_id = i, krs_model = m, krs_output = out, krs_usage = u, krs_cached = c, krs_request_id = r\<rparr>)
       (v_field kvs loc ''id'' v_str None)) (v_field kvs loc ''model'' v_str None))
       (v_field kvs loc ''output'' sdk_message_v None))
       (v_field kvs loc ''usage'' (v_optional (sdk_usage_v co)) (Some None)))
       (v_field kvs loc ''cached'' (of_coercion (co_bool co)) (Some False)))
       (v_field kvs loc ''request_id'' (v_optional v_str) (Some None)))"

record sdk_delta =
  kdl_id :: string
  kdl_model :: string
  kdl_content :: string
  kdl_request_id :: "string option"

record sdk_prompt_message =
  kpm_role :: message_role
  kpm_content :: string

definition sdk_prompt_message_v :: "sdk_prompt_message validator" where
  "sdk_prompt_message_v = v_object (\<lambda>loc kvs.
     apply_v (map_r (\<lambda>r c. \<lparr>kpm_role = r, kpm_content = c\<rparr>) (v_field kvs loc ''role'' message_role_v None))
       (v_field kvs loc ''content'' v_str None))"

text \<open>How a time stamp is read is the library's: a validator given from outside.\<close>

record 'd sdk_prompt_version =
  kpv_name :: string
  kpv_version :: int
  kpv_messages :: "sdk_prompt_message list"
  kpv_variables :: "string list"
  kpv_created_at :: 'd
  kpv_request_id :: "string option"

definition sdk_prompt_version_v :: "coercions \<Rightarrow> 'd validator \<Rightarrow> 'd sdk_prompt_version validator" where
  "sdk_prompt_version_v co v_datetime = v_object (\<lambda>loc kvs.
     apply_v (apply_v (apply_v (apply_v (apply_v (map_r
         (\<lambda>n v ms vs t r. \<lparr>kpv_name = n, kpv_version = v, kpv_messages = ms, kpv_variables = vs, kpv_created_at = t, kpv_request_id = r\<rparr>)
       (v_field kvs loc ''name'' v_str None)) (v_field kvs loc ''version'' (of_coercion (co_int co)) None))
       (v_field kvs loc ''messages'' (v_list sdk_prompt_message_v) None))
       (v_field kvs loc ''variables'' (v_list v_str) None))
       (v_field kvs loc ''created_at'' v_datetime None))
       (v_field kvs loc ''request_id'' (v_optional v_str) (Some None)))"

record 'd sdk_prompt_list =
  kpl_versions :: "'d sdk_prompt_version list"
  kpl_request_id :: "string option"

definition sdk_prompt_list_v :: "coercions \<Rightarrow> 'd validator \<Rightarrow> 'd sdk_prompt_list validator" where
  "sdk_prompt_list_v co v_datetime = v_object (\<lambda>loc kvs.
     apply_v (map_r (\<lambda>vs r. \<lparr>kpl_versions = vs, kpl_request_id = r\<rparr>)
       (v_field kvs loc ''versions'' (v_list (sdk_prompt_version_v co v_datetime)) None))
       (v_field kvs loc ''request_id'' (v_optional v_str) (Some None)))"

section \<open>Errors\<close>

record ai_runtime_error =
  xe_code :: string
  xe_message :: string
  xe_status_code :: int
  xe_request_id :: "string option"
  xe_retry_after :: "string option"

datatype sdk_exn =
    AIRuntimeError ai_runtime_error
  | AIRuntimeConnectionError ai_runtime_error
  | SdkValueError string

definition connection_error :: sdk_exn where
  "connection_error = AIRuntimeConnectionError \<lparr>xe_code = ''connection_error'', xe_message = ''Could not reach AI Runtime.'',
     xe_status_code = 0, xe_request_id = None, xe_retry_after = None\<rparr>"

definition string_member :: "(string, json) dict \<Rightarrow> string \<Rightarrow> string \<Rightarrow> string" where
  "string_member d key dflt = (case get_str d key of Some s \<Rightarrow> if s = [] then dflt else s | None \<Rightarrow> dflt)"

definition error_from_body :: "json option \<Rightarrow> int \<Rightarrow> string option \<Rightarrow> string option \<Rightarrow> string \<Rightarrow> ai_runtime_error" where
  "error_from_body payload status_code request_id retry_after fallback_message =
     (let err = (case payload of Some (JObj body) \<Rightarrow> (case get_obj body ''error'' of Some err \<Rightarrow> err | None \<Rightarrow> []) | _ \<Rightarrow> []) in
      \<lparr>xe_code = string_member err ''code'' ''internal_error'',
       xe_message = string_member err ''message'' fallback_message,
       xe_status_code = status_code,
       xe_request_id = (case get_str err ''request_id'' of Some r \<Rightarrow> if r = [] then request_id else Some r | None \<Rightarrow> request_id),
       xe_retry_after = retry_after\<rparr>)"

definition invalid_response :: "string \<Rightarrow> int \<Rightarrow> string option \<Rightarrow> sdk_exn" where
  "invalid_response message status_code request_id = AIRuntimeError \<lparr>xe_code = ''invalid_response'', xe_message = message,
     xe_status_code = status_code, xe_request_id = request_id, xe_retry_after = None\<rparr>"

section \<open>Stream frames\<close>

datatype sdk_event = SdkDelta sdk_delta | SdkResponse sdk_response

definition delta_frame_v :: "sdk_delta validator" where
  "delta_frame_v = v_object (\<lambda>loc kvs.
     apply_v (apply_v (map_r (\<lambda>i m c. \<lparr>kdl_id = i, kdl_model = m, kdl_content = c, kdl_request_id = None\<rparr>)
       (v_field kvs loc ''id'' v_str None)) (v_field kvs loc ''model'' v_str None))
       (v_field kvs loc ''delta'' (v_object (\<lambda>loc kvs. v_field kvs loc ''content'' v_str None)) None))"

definition parse_stream_frame :: "coercions \<Rightarrow> string \<Rightarrow> string \<Rightarrow> string option \<Rightarrow> sdk_exn + sdk_event" where
  "parse_stream_frame co event data request_id = (case loads data of
     None \<Rightarrow> Inl (invalid_response ''Stream event was not JSON.'' 200 request_id)
   | Some payload \<Rightarrow>
      if event = ''response.error'' then Inl (AIRuntimeError (error_from_body (Some payload) 200 request_id None ''Stream failed.''))
      else if \<not> is_json_object payload then Inl (invalid_response ''Stream event was not a JSON object.'' 200 request_id)
      else (let mismatch = Inl (invalid_response ''Stream event did not match the API contract.'' 200 request_id) in
        if event = ''response.delta'' then (case delta_frame_v [] payload of Inr d \<Rightarrow> Inr (SdkDelta d) | Inl _ \<Rightarrow> mismatch)
        else if event = ''response.completed'' then (case sdk_response_v co [] payload of Inr r \<Rightarrow> Inr (SdkResponse r) | Inl _ \<Rightarrow> mismatch)
        else Inl (invalid_response (''Unexpected stream event '' @ quoted event @ ''.'') 200 request_id)))"

section \<open>Bodies\<close>

text \<open>An argument is a model or a mapping that is validated first; a \<open>ValidationError\<close> is a \<open>ValueError\<close>.\<close>

datatype 'a input = Model 'a | Mapping_of json

definition model_of :: "'a validator \<Rightarrow> 'a input \<Rightarrow> sdk_exn + 'a" where
  "model_of v inp = (case inp of Model m \<Rightarrow> Inr m
     | Mapping_of j \<Rightarrow> (case v [] j of Inr m \<Rightarrow> Inr m | Inl _ \<Rightarrow> Inl (SdkValueError ''validation error'')))"

definition build_headers :: "string \<Rightarrow> string option \<Rightarrow> string option \<Rightarrow> (string, string) dict" where
  "build_headers api_key idempotency_key request_id =
     [(''Authorization'', ''Bearer '' @ api_key), (''Accept'', ''application/json'')] @
     (case idempotency_key of None \<Rightarrow> [] | Some k \<Rightarrow> [(''Idempotency-Key'', k)]) @
     (case request_id of None \<Rightarrow> [] | Some r \<Rightarrow> [(''X-Request-ID'', r)])"

definition sdk_call_payload :: "sdk_tool_call \<Rightarrow> json" where
  "sdk_call_payload c = JObj [(''id'', JStr (ktc_id c)), (''name'', JStr (ktc_name c)), (''arguments'', JStr (ktc_arguments c))]"

definition message_payload :: "sdk_message input \<Rightarrow> sdk_exn + json" where
  "message_payload message = map_r (\<lambda>m. JObj ([(''role'', JStr (role_value (km_role m))), (''content'', JStr (km_content m))] @
     (if km_tool_calls m = [] then [] else [(''tool_calls'', JArr (map sdk_call_payload (km_tool_calls m)))]) @
     opt_field ''tool_call_id'' JStr (km_tool_call_id m) @ opt_field ''name'' JStr (km_name m))) (model_of sdk_message_v message)"

definition prompt_reference_payload :: "coercions \<Rightarrow> sdk_prompt_reference input \<Rightarrow> sdk_exn + json" where
  "prompt_reference_payload co prompt = map_r (\<lambda>m. JObj ([(''name'', JStr (kpr_name m)),
     (''variables'', JObj (map (\<lambda>(k, s). (k, JStr s)) (kpr_variables m)))] @ opt_field ''version'' JInt (kpr_version m)))
     (model_of (sdk_prompt_reference_v co) prompt)"

definition context_payload :: "coercions \<Rightarrow> sdk_context input \<Rightarrow> sdk_exn + json" where
  "context_payload co context = map_r (\<lambda>m. JObj (opt_field ''max_input_tokens'' JInt (kcx_max_input_tokens m) @
     (if kcx_truncate m then [(''truncate'', JBool True)] else []))) (model_of (sdk_context_v co) context)"

definition tool_payload :: "sdk_tool_definition input \<Rightarrow> sdk_exn + json" where
  "tool_payload tool = map_r (\<lambda>m. JObj [(''name'', JStr (ktd_name m)), (''description'', JStr (ktd_description m)),
     (''parameters'', JObj (ktd_parameters m))]) (model_of sdk_tool_definition_v tool)"

definition prompt_message_payload :: "sdk_prompt_message input \<Rightarrow> sdk_exn + json" where
  "prompt_message_payload message = map_r (\<lambda>m. JObj [(''role'', JStr (role_value (kpm_role m))), (''content'', JStr (kpm_content m))])
     (model_of sdk_prompt_message_v message)"

record response_args =
  ra_model :: string
  ra_messages :: "sdk_message input list option"
  ra_prompt :: "sdk_prompt_reference input option"
  ra_context :: "sdk_context input option"
  ra_temperature :: "pyfloat option"
  ra_max_output_tokens :: "int option"
  ra_tools :: "sdk_tool_definition input list option"
  ra_cache :: bool
  ra_stream :: bool

definition opt_payload :: "string \<Rightarrow> ('a \<Rightarrow> sdk_exn + json) \<Rightarrow> 'a option \<Rightarrow> sdk_exn + (string \<times> json) list" where
  "opt_payload k f x = (case x of None \<Rightarrow> Inr [] | Some v \<Rightarrow> map_r (\<lambda>j. [(k, j)]) (f v))"

definition build_response_payload :: "coercions \<Rightarrow> response_args \<Rightarrow> sdk_exn + json" where
  "build_response_payload co a =
     (if (ra_messages a = None) = (ra_prompt a = None) then Inl (SdkValueError ''provide exactly one of messages or prompt'')
      else if ra_messages a = Some [] then Inl (SdkValueError ''messages must not be empty'')
      else bind_r (opt_payload ''messages'' (\<lambda>ms. map_r JArr (traverse message_payload ms)) (ra_messages a)) (\<lambda>messages.
        bind_r (opt_payload ''prompt'' (prompt_reference_payload co) (ra_prompt a)) (\<lambda>prompt.
        bind_r (opt_payload ''context'' (context_payload co) (ra_context a)) (\<lambda>context.
        bind_r (case ra_tools a of None \<Rightarrow> Inr [] | Some [] \<Rightarrow> Inr []
          | Some ts \<Rightarrow> map_r (\<lambda>js. [(''tools'', JArr js)]) (traverse tool_payload ts)) (\<lambda>tools.
        Inr (JObj ([(''model'', JStr (ra_model a))] @ messages @ prompt @ context @
          opt_field ''temperature'' JFloat (ra_temperature a) @ opt_field ''max_output_tokens'' JInt (ra_max_output_tokens a) @ tools @
          (if ra_cache a then [(''cache'', JBool True)] else []) @ (if ra_stream a then [(''stream'', JBool True)] else []))))))))"

definition build_prompt_payload :: "string \<Rightarrow> sdk_prompt_message input list \<Rightarrow> sdk_exn + json" where
  "build_prompt_payload name messages =
     (if messages = [] then Inl (SdkValueError ''messages must not be empty'')
      else map_r (\<lambda>js. JObj [(''name'', JStr name), (''messages'', JArr js)]) (traverse prompt_message_payload messages))"

section \<open>Clients\<close>

record sdk_request =
  kq_method :: string
  kq_url :: string
  kq_headers :: "(string, string) dict"
  kq_json :: "json option"

text \<open>Header names are given in lower case; \<open>krp_json\<close> is the decoded body, if it is JSON.\<close>

record sdk_reply =
  krp_status :: int
  krp_headers :: "(string, string) dict"
  krp_text :: string
  krp_json :: "json option"

text \<open>A streamed reply is read as a whole when it is an error (which may fail), else line by line; \<open>broken\<close> says
  that the connection failed after the lines.\<close>

record sdk_stream_reply =
  kst_head :: sdk_reply
  kst_unreadable :: bool
  kst_lines :: "string list"
  kst_broken :: bool

record 'u sdk_http =
  kh_request :: "sdk_request \<Rightarrow> 'u \<Rightarrow> (unit + sdk_reply) \<times> 'u"
  kh_stream :: "sdk_request \<Rightarrow> 'u \<Rightarrow> (unit + sdk_stream_reply) \<times> 'u"

record 'u ai_runtime =
  kc_api_key :: string
  kc_base_url :: string
  kc_http :: "'u sdk_http"

definition require_text :: "string \<Rightarrow> string \<Rightarrow> sdk_exn + string" where
  "require_text v field_name = (if blank v then Inl (SdkValueError (field_name @ '' must not be blank'')) else Inr (strip v))"

definition mk_ai_runtime :: "string \<Rightarrow> string \<Rightarrow> 'u sdk_http \<Rightarrow> sdk_exn + 'u ai_runtime" where
  "mk_ai_runtime api_key base_url http =
     bind_r (require_text api_key ''api_key'') (\<lambda>k. bind_r (require_text base_url ''base_url'') (\<lambda>b.
     Inr \<lparr>kc_api_key = k, kc_base_url = rstrip_char (CHR ''/'') b, kc_http = http\<rparr>))"

definition request_id_header :: "sdk_reply \<Rightarrow> string option" where
  "request_id_header resp = (case dict_get (krp_headers resp) ''x-request-id'' of Some r \<Rightarrow> if r = [] then None else Some r | None \<Rightarrow> None)"

definition raise_for_status :: "sdk_reply \<Rightarrow> sdk_exn + unit" where
  "raise_for_status resp =
     (if krp_status resp < 400 then Inr ()
      else Inl (AIRuntimeError (error_from_body (krp_json resp) (krp_status resp) (request_id_header resp)
        (dict_get (krp_headers resp) ''retry-after'')
        (if blank (krp_text resp) then ''HTTP '' @ str_of_int (krp_status resp) else strip (krp_text resp)))))"

definition require_event_stream :: "sdk_reply \<Rightarrow> sdk_exn + unit" where
  "require_event_stream resp =
     (if sublist ''text/event-stream'' (case dict_get (krp_headers resp) ''content-type'' of Some t \<Rightarrow> t | None \<Rightarrow> []) then Inr ()
      else Inl (invalid_response ''Expected a server-sent event stream.'' (krp_status resp) (request_id_header resp)))"

definition json_object :: "sdk_reply \<Rightarrow> sdk_exn + json" where
  "json_object resp = (case krp_json resp of
     None \<Rightarrow> Inl (invalid_response ''Response was not JSON.'' (krp_status resp) (request_id_header resp))
   | Some payload \<Rightarrow> if is_json_object payload then Inr payload
       else Inl (invalid_response ''Response was not a JSON object.'' (krp_status resp) (request_id_header resp)))"

text \<open>\<open>stamp\<close> sets the \<open>request_id\<close> of a model.\<close>

definition stamp_request_id :: "(string option \<Rightarrow> 'a \<Rightarrow> 'a) \<Rightarrow> 'a \<Rightarrow> string option \<Rightarrow> 'a" where
  "stamp_request_id stamp model request_id = (if request_id = None then model else stamp request_id model)"

definition parse_model :: "'a validator \<Rightarrow> (string option \<Rightarrow> 'a \<Rightarrow> 'a) \<Rightarrow> sdk_reply \<Rightarrow> sdk_exn + 'a" where
  "parse_model v stamp resp = bind_r (json_object resp) (\<lambda>payload. case v [] payload of
     Inl _ \<Rightarrow> Inl (invalid_response ''Response did not match the API contract.'' (krp_status resp) (request_id_header resp))
   | Inr m \<Rightarrow> Inr (stamp_request_id stamp m (request_id_header resp)))"

definition stamp_event :: "string option \<Rightarrow> sdk_event \<Rightarrow> sdk_event" where
  "stamp_event r ev = (case ev of SdkDelta d \<Rightarrow> SdkDelta (d\<lparr>kdl_request_id := r\<rparr>) | SdkResponse m \<Rightarrow> SdkResponse (m\<lparr>krs_request_id := r\<rparr>))"

text \<open>\<open>urllib.parse.quote(name, safe="")\<close>: the bytes of the UTF-8 encoding, all but the unreserved ones as escapes.\<close>

definition utf8_bytes :: "char \<Rightarrow> nat list" where
  "utf8_bytes c = (let n = ord_of c in if n < 128 then [n] else [192 + n div 64, 128 + n mod 64])"

definition unreserved :: "nat \<Rightarrow> bool" where
  "unreserved n = ((65 \<le> n \<and> n \<le> 90) \<or> (97 \<le> n \<and> n \<le> 122) \<or> (48 \<le> n \<and> n \<le> 57) \<or> n \<in> {95, 46, 45, 126})"

definition upper_hex :: "nat \<Rightarrow> char" where
  "upper_hex d = (if d < 10 then char_of (48 + d) else char_of (55 + d))"

definition quote_byte :: "nat \<Rightarrow> string" where
  "quote_byte n = (if unreserved n then [char_of n] else [CHR ''%'', upper_hex (n div 16), upper_hex (n mod 16)])"

definition quote :: "string \<Rightarrow> string" where
  "quote s = concat (map quote_byte (concat (map utf8_bytes s)))"

definition prompt_path :: "string \<Rightarrow> string" where
  "prompt_path name = ''/v1/prompts/'' @ quote name"

definition client_url :: "'u ai_runtime \<Rightarrow> string \<Rightarrow> string" where
  "client_url c path = kc_base_url c @ path"

definition client_headers :: "'u ai_runtime \<Rightarrow> string option \<Rightarrow> string option \<Rightarrow> (string, string) dict" where
  "client_headers c idempotency_key request_id = build_headers (kc_api_key c) idempotency_key request_id"

definition client_send ::
    "'u ai_runtime \<Rightarrow> string \<Rightarrow> string \<Rightarrow> json option \<Rightarrow> string option \<Rightarrow> string option \<Rightarrow> ('u, sdk_exn, sdk_reply) act" where
  "client_send c verb path json_body idempotency_key request_id u =
     (case kh_request (kc_http c) \<lparr>kq_method = verb, kq_url = client_url c path,
         kq_headers = client_headers c idempotency_key request_id, kq_json = json_body\<rparr> u of
        (Inl _, u') \<Rightarrow> (Inl connection_error, u')
      | (Inr resp, u') \<Rightarrow> (map_r (\<lambda>_. resp) (raise_for_status resp), u'))"

definition responses_create ::
    "coercions \<Rightarrow> 'u ai_runtime \<Rightarrow> response_args \<Rightarrow> string option \<Rightarrow> string option \<Rightarrow> ('u, sdk_exn, sdk_response) act" where
  "responses_create co c args idempotency_key request_id =
     bind_a (lift_a (build_response_payload co (args\<lparr>ra_stream := False\<rparr>))) (\<lambda>body.
     bind_a (client_send c ''POST'' ''/v1/responses'' (Some body) idempotency_key request_id) (\<lambda>resp.
     lift_a (parse_model (sdk_response_v co) (\<lambda>r m. m\<lparr>krs_request_id := r\<rparr>) resp)))"

text \<open>The events yielded from the frames, up to the first error; at the end a failed connection is an error.\<close>

fun yield_frames ::
    "coercions \<Rightarrow> string option \<Rightarrow> (string \<times> string) list \<Rightarrow> sdk_exn option \<Rightarrow> sdk_event list \<times> sdk_exn option" where
  "yield_frames co rid [] at_end = ([], at_end)"
| "yield_frames co rid ((event, data) # frames) at_end = (case parse_stream_frame co event data rid of
     Inl e \<Rightarrow> ([], Some e)
   | Inr ev \<Rightarrow> (case yield_frames co rid frames at_end of (evs, e) \<Rightarrow> (stamp_request_id stamp_event ev rid # evs, e)))"

text \<open>The frames completed by the lines; when the connection fails the parser is not asked for a trailing one.\<close>

fun frames_of_lines :: "string list \<Rightarrow> sse_parser \<Rightarrow> (string \<times> string) list" where
  "frames_of_lines [] p = []"
| "frames_of_lines (line # lines) p = (case parser_feed line p of
     (None, p') \<Rightarrow> frames_of_lines lines p' | (Some f, p') \<Rightarrow> f # frames_of_lines lines p')"

definition iter_frames :: "sdk_stream_reply \<Rightarrow> (string \<times> string) list" where
  "iter_frames resp = (if kst_broken resp then frames_of_lines (kst_lines resp) new_parser else parser_run (kst_lines resp) new_parser)"

definition stream_events :: "coercions \<Rightarrow> sdk_stream_reply \<Rightarrow> sdk_event list \<times> sdk_exn option" where
  "stream_events co resp =
     (let head = kst_head resp in
      if 400 \<le> krp_status head \<and> kst_unreadable resp then ([], Some connection_error)
      else case bind_r (raise_for_status head) (\<lambda>_. require_event_stream head) of
        Inl e \<Rightarrow> ([], Some e)
      | Inr _ \<Rightarrow> yield_frames co (request_id_header head) (iter_frames resp) (if kst_broken resp then Some connection_error else None))"

definition responses_stream ::
    "coercions \<Rightarrow> 'u ai_runtime \<Rightarrow> response_args \<Rightarrow> string option \<Rightarrow> 'u \<Rightarrow> (sdk_event list \<times> sdk_exn option) \<times> 'u" where
  "responses_stream co c args request_id u =
     (case build_response_payload co (args\<lparr>ra_stream := True, ra_cache := False\<rparr>) of
        Inl e \<Rightarrow> (([], Some e), u)
      | Inr body \<Rightarrow>
          (case kh_stream (kc_http c) \<lparr>kq_method = ''POST'', kq_url = client_url c ''/v1/responses'',
              kq_headers = client_headers c None request_id, kq_json = Some body\<rparr> u of
             (Inl _, u') \<Rightarrow> (([], Some connection_error), u')
           | (Inr resp, u') \<Rightarrow> (stream_events co resp, u')))"

definition prompts_create ::
    "coercions \<Rightarrow> 'd validator \<Rightarrow> 'u ai_runtime \<Rightarrow> string \<Rightarrow> sdk_prompt_message input list \<Rightarrow> string option \<Rightarrow>
     ('u, sdk_exn, 'd sdk_prompt_version) act" where
  "prompts_create co v_datetime c name messages request_id =
     bind_a (lift_a (build_prompt_payload name messages)) (\<lambda>body.
     bind_a (client_send c ''POST'' ''/v1/prompts'' (Some body) None request_id) (\<lambda>resp.
     lift_a (parse_model (sdk_prompt_version_v co v_datetime) (\<lambda>r m. m\<lparr>kpv_request_id := r\<rparr>) resp)))"

definition prompts_list ::
    "coercions \<Rightarrow> 'd validator \<Rightarrow> 'u ai_runtime \<Rightarrow> string \<Rightarrow> string option \<Rightarrow> ('u, sdk_exn, 'd sdk_prompt_list) act" where
  "prompts_list co v_datetime c name request_id =
     bind_a (client_send c ''GET'' (prompt_path name) None None request_id) (\<lambda>resp.
     lift_a (parse_model (sdk_prompt_list_v co v_datetime) (\<lambda>r m. m\<lparr>kpl_request_id := r\<rparr>) resp))"

section \<open>Domain values seen through the bodies\<close>

lemma v_items_map:
  "\<forall>x\<in>set xs. \<forall>loc. v loc (enc x) = Inr (dec x) \<Longrightarrow> v_items v loc i (map enc xs) = Inr (map dec xs)"
  by (induction xs arbitrary: i) auto

lemma v_list_map:
  "\<forall>x\<in>set xs. \<forall>loc. v loc (enc x) = Inr (dec x) \<Longrightarrow> v_list v loc (JArr (map enc xs)) = Inr (map dec xs)"
  by (simp add: v_list_def v_items_map)

definition call_schema_of :: "tool_call \<Rightarrow> tool_call_schema" where
  "call_schema_of c = \<lparr>tcs_id = tc_id c, tcs_name = tc_name c, tcs_arguments = tc_arguments c\<rparr>"

definition message_schema_of :: "message \<Rightarrow> message_schema" where
  "message_schema_of m = \<lparr>mes_role = msg_role m, mes_content = msg_content m, mes_tool_call_id = msg_tool_call_id m,
     mes_name = msg_name m, mes_tool_calls = map call_schema_of (msg_tool_calls m)\<rparr>"

definition message_built :: "message \<Rightarrow> bool" where
  "message_built m \<longleftrightarrow> message_ok m \<and> (\<forall>c\<in>set (msg_tool_calls m). tool_call_ok c)"

lemma call_back: "tool_call_ok c \<Longrightarrow> tool_call_to_domain (call_schema_of c) = Inr c"
  by (simp add: tool_call_to_domain_def call_schema_of_def mk_tool_call_Inr)

lemma traverse_map_total: "(\<And>x. x \<in> set xs \<Longrightarrow> f (g x) = Inr x) \<Longrightarrow> traverse f (map g xs) = Inr xs"
  by (induction xs) auto

lemma message_back: "message_built m \<Longrightarrow> message_to_domain (message_schema_of m) = Inr m"
  using traverse_map_total [of "msg_tool_calls m" tool_call_to_domain call_schema_of] call_back
  by (simp add: message_to_domain_def message_schema_of_def message_built_def mk_message_Inr)

lemma role_fields_valid: "message_built m \<Longrightarrow> validate_role_fields (message_schema_of m) = None"
  by (simp add: validate_role_fields_def message_back)

lemma message_from_domain_built: "message_built m \<Longrightarrow> message_from_domain m = Inr (message_schema_of m)"
proof -
  assume m: "message_built m"
  have "tool_call_from_domain c = Inr (call_schema_of c)" if "c \<in> set (msg_tool_calls m)" for c
  proof -
    have "tool_call_ok c" using m that by (simp add: message_built_def)
    then have "tc_id c \<noteq> []" "tc_name c \<noteq> []" "tc_arguments c \<noteq> []"
      by (auto simp: tool_call_ok_def)
    then show ?thesis by (simp add: tool_call_from_domain_def call_schema_of_def)
  qed
  then have "traverse tool_call_from_domain (msg_tool_calls m) = Inr (map call_schema_of (msg_tool_calls m))"
    by (rule traverse_total)
  moreover have "validate_role_fields (message_schema_of m) = None" using m by (rule role_fields_valid)
  ultimately show ?thesis by (simp add: message_from_domain_def message_schema_of_def Let_def)
qed

lemma response_built_output: "response_built r \<Longrightarrow> message_built (rs_output r)"
  by (simp add: response_built_def message_built_def)

definition sdk_call_of :: "tool_call \<Rightarrow> sdk_tool_call" where
  "sdk_call_of c = \<lparr>ktc_id = tc_id c, ktc_name = tc_name c, ktc_arguments = tc_arguments c\<rparr>"

definition sdk_message_of :: "message \<Rightarrow> sdk_message" where
  "sdk_message_of m = \<lparr>km_role = msg_role m, km_content = msg_content m, km_tool_call_id = msg_tool_call_id m,
     km_name = msg_name m, km_tool_calls = map sdk_call_of (msg_tool_calls m)\<rparr>"

definition sdk_response_of :: "generation_response \<Rightarrow> sdk_response" where
  "sdk_response_of r = \<lparr>krs_id = rs_id r, krs_model = rs_model r, krs_output = sdk_message_of (rs_output r),
     krs_usage = map_option (\<lambda>u. \<lparr>kus_input_tokens = tu_input_tokens u, kus_output_tokens = tu_output_tokens u,
       kus_total_tokens = tu_input_tokens u + tu_output_tokens u\<rparr>) (rs_usage r),
     krs_cached = rs_cached r, krs_request_id = None\<rparr>"

definition sdk_view :: "stream_event \<Rightarrow> sdk_event" where
  "sdk_view ev = (case ev of
     Delta d \<Rightarrow> SdkDelta \<lparr>kdl_id = gd_id d, kdl_model = gd_model d, kdl_content = gd_content d, kdl_request_id = None\<rparr>
   | Completed r \<Rightarrow> SdkResponse (sdk_response_of r))"

lemma message_role_v_value [simp]: "message_role_v loc (JStr (role_value r)) = Inr r"
  by (simp add: message_role_v_def Let_def)

lemma sdk_call_read: "sdk_tool_call_v loc (tool_call_schema_dump (call_schema_of c)) = Inr (sdk_call_of c)"
  by (simp add: sdk_tool_call_v_def v_object_def tool_call_schema_dump_def call_schema_of_def sdk_call_of_def dict_get_def)

lemma sdk_calls_read: "v_list sdk_tool_call_v loc (JArr (map tool_call_schema_dump (map call_schema_of cs))) = Inr (map sdk_call_of cs)"
  using v_list_map [of cs sdk_tool_call_v "tool_call_schema_dump \<circ> call_schema_of" sdk_call_of loc] sdk_call_read by (simp add: comp_def)

lemma v_optional_str [simp]: "v_optional v_str loc (JStr s) = Inr (Some s)"
  by (simp add: v_optional_def)

lemma sdk_message_read: "sdk_message_v loc (message_schema_dump (message_schema_of m)) = Inr (sdk_message_of m)"
proof -
  note defs = sdk_message_v_def v_object_def message_schema_dump_def message_schema_of_def sdk_message_of_def dict_get_def opt_field_def
  show ?thesis
    using sdk_calls_read [of "loc @ [''tool_calls'']" "msg_tool_calls m"]
    by (cases "msg_tool_call_id m"; cases "msg_name m"; cases "msg_tool_calls m = []") (simp_all add: defs)
qed

lemma sdk_response_read:
  assumes "exact_coercions co"
  shows "sdk_response_v co loc (response_dump \<lparr>rss_id = rs_id r, rss_model = rs_model r, rss_output = message_schema_of (rs_output r),
     rss_usage = map_option token_usage_from_domain (rs_usage r), rss_cached = rs_cached r\<rparr>) = Inr (sdk_response_of r)"
proof -
  have int: "of_coercion (co_int co) l (JInt i) = Inr i" and bool: "of_coercion (co_bool co) l (JBool b) = Inr b" for l i b
    using assms by (simp_all add: exact_coercions_def)
  note defs = sdk_response_v_def v_object_def response_dump_def sdk_response_of_def dict_get_def opt_json_def
    sdk_usage_v_def token_usage_dump_def token_usage_from_domain_def total_tokens_def v_optional_def
  show ?thesis
    by (cases "rs_usage r"; cases "rs_cached r") (simp_all add: defs sdk_message_read int bool)
qed

lemma plain_dumps: "json_plain (tool_call_schema_dump s)" "json_plain (message_schema_dump ms)" "json_plain (token_usage_dump u)"
  by (auto simp: tool_call_schema_dump_def message_schema_dump_def token_usage_dump_def opt_field_def split: option.split)

lemma plain_response: "json_plain (response_dump s)"
  by (auto simp: response_dump_def plain_dumps opt_json_def split: option.split)

lemma plain_error: "json_plain (error_detail_json code msg rid)"
  by (auto simp: error_detail_json_def split: option.split)

section \<open>A stream arrives as it was sent\<close>

definition event_built :: "stream_event \<Rightarrow> bool" where
  "event_built ev \<longleftrightarrow> (case ev of Delta d \<Rightarrow> True | Completed r \<Rightarrow> response_built r)"

lemma event_names: "event_name_ok ''response.delta''" "event_name_ok ''response.completed''" "event_name_ok ''response.error''"
  by code_simp+

lemma event_frame:
  assumes "event_built ev" and "exact_coercions co"
  shows "\<exists>f. format_stream_event ev = Inr f \<and> frame_ok f \<and> parse_stream_frame co (fst f) (dumps_compact (snd f)) rid = Inr (sdk_view ev)"
proof (cases ev)
  case (Delta d)
  let ?j = "JObj [(''id'', JStr (gd_id d)), (''model'', JStr (gd_model d)), (''delta'', JObj [(''content'', JStr (gd_content d))])]"
  have plain: "json_plain ?j" by simp
  have "delta_frame_v [] ?j = Inr \<lparr>kdl_id = gd_id d, kdl_model = gd_model d, kdl_content = gd_content d, kdl_request_id = None\<rparr>"
    by (simp add: delta_frame_v_def v_object_def dict_get_def)
  with Delta loads_dumps [OF plain] plain event_names show ?thesis
    by (simp add: format_stream_event_def frame_ok_def parse_stream_frame_def sdk_view_def Let_def del: dumps_with.simps)
next
  case (Completed r)
  let ?s = "\<lparr>rss_id = rs_id r, rss_model = rs_model r, rss_output = message_schema_of (rs_output r),
     rss_usage = map_option token_usage_from_domain (rs_usage r), rss_cached = rs_cached r\<rparr>"
  have "message_built (rs_output r)" using assms(1) Completed by (simp add: event_built_def response_built_output)
  then have s: "response_from_domain r = Inr ?s"
    by (simp add: response_from_domain_def message_from_domain_built)
  have obj: "is_json_object (response_dump ?s)" by (simp add: response_dump_def)
  show ?thesis
    using Completed s obj loads_dumps [OF plain_response, of ?s] plain_response event_names sdk_response_read [OF assms(2), of "[]" r]
    by (simp add: format_stream_event_def frame_ok_def parse_stream_frame_def sdk_view_def Let_def)
qed

definition error_seen :: "provider_error \<Rightarrow> string \<Rightarrow> sdk_exn" where
  "error_seen err request_id = AIRuntimeError \<lparr>xe_code = ''provider_error'',
     xe_message = (if pe_message err = [] then ''Stream failed.'' else pe_message err),
     xe_status_code = 200, xe_request_id = Some request_id, xe_retry_after = None\<rparr>"

lemma error_frame:
  assumes "request_id \<noteq> []"
  shows "frame_ok (format_stream_error err request_id) \<and>
    parse_stream_frame co (fst (format_stream_error err request_id)) (dumps_compact (snd (format_stream_error err request_id))) rid =
      Inl (error_seen err request_id)"
proof -
  let ?j = "error_detail_json PROVIDER_ERROR (pe_message err) (Some request_id)"
  have "error_from_body (Some ?j) 200 rid None ''Stream failed.'' =
      \<lparr>xe_code = ''provider_error'', xe_message = (if pe_message err = [] then ''Stream failed.'' else pe_message err),
       xe_status_code = 200, xe_request_id = Some request_id, xe_retry_after = None\<rparr>"
    using assms by (simp add: error_from_body_def error_detail_json_def get_obj_def get_str_def string_member_def dict_get_def Let_def)
  then show ?thesis
    using loads_dumps [OF plain_error, of PROVIDER_ERROR "pe_message err" "Some request_id"] plain_error event_names
    by (simp add: format_stream_error_def frame_ok_def parse_stream_frame_def error_seen_def)
qed

definition provider_end :: "exn option \<Rightarrow> bool" where
  "provider_end eo \<longleftrightarrow> (case eo of None \<Rightarrow> True | Some e \<Rightarrow> (case e of ProviderErr _ \<Rightarrow> True | _ \<Rightarrow> False))"

definition end_seen :: "exn option \<Rightarrow> string \<Rightarrow> sdk_exn option" where
  "end_seen eo request_id = (case eo of Some (ProviderErr err) \<Rightarrow> Some (error_seen err request_id) | _ \<Rightarrow> None)"

lemma stream_frames_read:
  assumes "\<forall>ev\<in>set evs. event_built ev" and "provider_end eo" and "request_id \<noteq> []" and "exact_coercions co"
  shows "\<exists>fs. stream_frames request_id evs eo = (fs, None) \<and> (\<forall>f\<in>set fs. frame_ok f) \<and>
    yield_frames co rid (map (\<lambda>(e, j). (e, dumps_compact j)) fs) None =
      (map (\<lambda>ev. stamp_request_id stamp_event (sdk_view ev) rid) evs, end_seen eo request_id)"
  using assms(1)
proof (induction evs)
  case Nil
  show ?case
  proof (cases eo)
    case None
    then show ?thesis by (simp add: end_seen_def)
  next
    case (Some e)
    with assms(2) obtain err where "eo = Some (ProviderErr err)"
      by (auto simp: provider_end_def split: exn.splits)
    with error_frame [OF assms(3), of err co rid] show ?thesis
      by (cases "format_stream_error err request_id") (simp add: end_seen_def)
  qed
next
  case (Cons ev evs)
  then obtain fs where fs: "stream_frames request_id evs eo = (fs, None)" "\<forall>f\<in>set fs. frame_ok f"
    "yield_frames co rid (map (\<lambda>(e, j). (e, dumps_compact j)) fs) None =
      (map (\<lambda>ev. stamp_request_id stamp_event (sdk_view ev) rid) evs, end_seen eo request_id)" by auto
  from Cons.prems event_frame [OF _ assms(4), of ev rid] obtain f where f: "format_stream_event ev = Inr f" "frame_ok f"
    "parse_stream_frame co (fst f) (dumps_compact (snd f)) rid = Inr (sdk_view ev)" by auto
  obtain e j where "f = (e, j)" by (cases f)
  with f fs show ?case by (intro exI [of _ "f # fs"]) simp
qed


definition demo_events :: "stream_event list" where
  "demo_events = [Delta \<lparr>gd_id = ''r1'', gd_model = ''m'', gd_content = ''hel''\<rparr>, Completed (sample_response ''m'')]"

definition demo_failure :: provider_error where
  "demo_failure = transient_error BaseProviderError ''upstream down''"

definition demo_stream_reply :: sdk_stream_reply where
  "demo_stream_reply = \<lparr>kst_head = \<lparr>krp_status = 200, krp_headers = [(''content-type'', ''text/event-stream; charset=utf-8''),
       (''x-request-id'', ''req_1'')], krp_text = [], krp_json = None\<rparr>, kst_unreadable = False,
     kst_lines = lines_of (frames_text (fst (stream_frames ''req_1'' demo_events (Some (ProviderErr demo_failure))))), kst_broken = False\<rparr>"


section \<open>An error arrives as it was answered\<close>



section \<open>A request arrives as it was meant\<close>

definition sdk_tool_of :: "tool_definition \<Rightarrow> sdk_tool_definition" where
  "sdk_tool_of t = \<lparr>ktd_name = td_name t, ktd_description = td_description t,
     ktd_parameters = (case td_parameters t of JObj p \<Rightarrow> p | _ \<Rightarrow> [])\<rparr>"

text \<open>The arguments of \<open>responses.create\<close> or \<open>responses.stream\<close> for a request.\<close>

definition args_of :: "generation_request \<Rightarrow> response_args" where
  "args_of g = \<lparr>ra_model = gr_model g, ra_messages = Some (map (\<lambda>m. Model (sdk_message_of m)) (gr_messages g)), ra_prompt = None,
     ra_context = None, ra_temperature = gr_temperature g, ra_max_output_tokens = gr_max_output_tokens g,
     ra_tools = Some (map (\<lambda>t. Model (sdk_tool_of t)) (gr_tools g)), ra_cache = gr_cache g, ra_stream = gr_stream g\<rparr>"

definition tool_schema_of :: "tool_definition \<Rightarrow> tool_definition_schema" where
  "tool_schema_of t = \<lparr>tds_name = td_name t, tds_description = td_description t,
     tds_parameters = (case td_parameters t of JObj p \<Rightarrow> p | _ \<Rightarrow> [])\<rparr>"

definition message_body :: "message \<Rightarrow> json" where
  "message_body m = JObj ([(''role'', JStr (role_value (msg_role m))), (''content'', JStr (msg_content m))] @
     (if msg_tool_calls m = [] then [] else [(''tool_calls'', JArr (map (\<lambda>c. sdk_call_payload (sdk_call_of c)) (msg_tool_calls m)))]) @
     opt_field ''tool_call_id'' JStr (msg_tool_call_id m) @ opt_field ''name'' JStr (msg_name m))"

definition tool_body :: "tool_definition \<Rightarrow> json" where
  "tool_body t = JObj [(''name'', JStr (td_name t)), (''description'', JStr (td_description t)),
     (''parameters'', JObj (tds_parameters (tool_schema_of t)))]"

lemma message_payload_of: "message_payload (Model (sdk_message_of m)) = Inr (message_body m)"
  by (simp add: message_payload_def model_of_def sdk_message_of_def message_body_def comp_def)

lemma tool_payload_of: "tool_payload (Model (sdk_tool_of t)) = Inr (tool_body t)"
  by (simp add: tool_payload_def model_of_def sdk_tool_of_def tool_body_def tool_schema_of_def)

lemma call_accepted: "tool_call_ok c \<Longrightarrow> tool_call_schema_v loc (sdk_call_payload (sdk_call_of c)) = Inr (call_schema_of c)"
proof -
  assume "tool_call_ok c"
  then have "tc_id c \<noteq> []" "tc_name c \<noteq> []" "tc_arguments c \<noteq> []" by (auto simp: tool_call_ok_def)
  then show ?thesis
    by (simp add: tool_call_schema_v_def v_object_def sdk_call_payload_def sdk_call_of_def call_schema_of_def dict_get_def)
qed

lemma message_accepted: "message_built m \<Longrightarrow> message_schema_v loc (message_body m) = Inr (message_schema_of m)"
proof -
  assume m: "message_built m"
  have calls: "v_list tool_call_schema_v l (JArr (map (\<lambda>c. sdk_call_payload (sdk_call_of c)) (msg_tool_calls m))) =
      Inr (map call_schema_of (msg_tool_calls m))" for l
    using m call_accepted by (intro v_list_map) (auto simp: message_built_def)
  note valid = role_fields_valid [OF m, unfolded message_schema_of_def]
  show ?thesis
    using calls [of "loc @ [''tool_calls'']"] valid
    by (cases "msg_tool_call_id m"; cases "msg_name m"; cases "msg_tool_calls m = []")
      (simp_all add: message_schema_v_def v_object_def message_body_def message_schema_of_def dict_get_def opt_field_def)
qed

lemma tool_accepted: "tool_definition_ok t \<Longrightarrow> tool_definition_schema_v loc (tool_body t) = Inr (tool_schema_of t)"
proof -
  assume "tool_definition_ok t"
  then have "td_name t \<noteq> []" by (auto simp: tool_definition_ok_def)
  then show ?thesis
    by (simp add: tool_definition_schema_v_def v_object_def tool_body_def tool_schema_of_def dict_get_def)
qed

lemma tool_back: "tool_definition_ok t \<Longrightarrow> tool_definition_to_domain (tool_schema_of t) = Inr t"
  by (cases "td_parameters t")
    (auto simp: tool_definition_to_domain_def tool_schema_of_def mk_tool_definition_Inr tool_definition_ok_def)

lemma dict_get_append: "dict_get (xs @ ys) k = (case dict_get xs k of Some v \<Rightarrow> Some v | None \<Rightarrow> dict_get ys k)"
  by (simp add: dict_get_def map_add_def split: option.split)

lemma dict_get_opt_field: "dict_get (opt_field k f x) k' = (if k = k' then map_option f x else None)"
  by (cases x) (simp_all add: opt_field_def dict_get_def)

lemma dict_get_Cons: "dict_get ((k, v) # kvs) k' = (if k = k' then Some v else dict_get kvs k')" "dict_get [] k' = None"
  by (simp_all add: dict_get_def)

lemma dict_get_if: "dict_get (if b then xs else ys) k = (if b then dict_get xs k else dict_get ys k)"
  by simp

lemma v_field_optional:
  assumes "dict_get kvs k = map_option enc x" and "\<And>y. x = Some y \<Longrightarrow> v (loc @ [k]) (enc y) = Inr y \<and> enc y \<noteq> JNull"
  shows "v_field kvs loc k (v_optional v) (Some None) = Inr x"
  using assms by (cases x) (simp_all add: v_field_def v_optional_def)

lemma v_field_flag:
  assumes "dict_get kvs k = (if b then Some (JBool True) else None)" and "exact_coercions co"
  shows "v_field kvs loc k (of_coercion (co_bool co)) (Some False) = Inr b"
  using assms by (cases b) (simp_all add: v_field_def exact_coercions_def)

definition request_body :: "generation_request \<Rightarrow> (string \<times> json) list" where
  "request_body g = [(''model'', JStr (gr_model g))] @ [(''messages'', JArr (map message_body (gr_messages g)))] @
     opt_field ''temperature'' JFloat (gr_temperature g) @ opt_field ''max_output_tokens'' JInt (gr_max_output_tokens g) @
     (if gr_tools g = [] then [] else [(''tools'', JArr (map tool_body (gr_tools g)))]) @
     (if gr_cache g then [(''cache'', JBool True)] else []) @ (if gr_stream g then [(''stream'', JBool True)] else [])"

lemma request_body_get:
  "dict_get (request_body g) ''model'' = Some (JStr (gr_model g))"
  "dict_get (request_body g) ''messages'' = Some (JArr (map message_body (gr_messages g)))"
  "dict_get (request_body g) ''prompt'' = None" "dict_get (request_body g) ''context'' = None"
  "dict_get (request_body g) ''temperature'' = map_option JFloat (gr_temperature g)"
  "dict_get (request_body g) ''max_output_tokens'' = map_option JInt (gr_max_output_tokens g)"
  "dict_get (request_body g) ''stream'' = (if gr_stream g then Some (JBool True) else None)"
  "dict_get (request_body g) ''tools'' = (if gr_tools g = [] then None else Some (JArr (map tool_body (gr_tools g))))"
  "dict_get (request_body g) ''cache'' = (if gr_cache g then Some (JBool True) else None)"
  "dict_get (request_body g) ''rag'' = None" "dict_get (request_body g) ''mcp'' = None"
  by (cases "gr_temperature g"; cases "gr_max_output_tokens g"; simp add: request_body_def dict_get_Cons opt_field_def)+

lemma request_body_fields: "fst ` set (request_body g) \<subseteq> set request_fields"
  by (auto simp: request_body_def request_fields_def opt_field_def split: option.splits)

lemma payload_of_request: "gr_messages g \<noteq> [] \<Longrightarrow> build_response_payload co (args_of g) = Inr (JObj (request_body g))"
proof -
  assume ne: "gr_messages g \<noteq> []"
  have ms: "traverse message_payload (map (\<lambda>m. Model (sdk_message_of m)) ys) = Inr (map message_body ys)" for ys
    by (induction ys) (simp_all add: message_payload_of)
  have ts: "traverse tool_payload (map (\<lambda>t. Model (sdk_tool_of t)) xs) = Inr (map tool_body xs)" for xs
    by (induction xs) (simp_all add: tool_payload_of)
  have "(case Some (map (\<lambda>t. Model (sdk_tool_of t)) (gr_tools g)) of None \<Rightarrow> Inr [] | Some [] \<Rightarrow> Inr []
      | Some ts \<Rightarrow> map_r (\<lambda>js. [(''tools'', JArr js)]) (traverse tool_payload ts)) =
      Inr (if gr_tools g = [] then [] else [(''tools'', JArr (map tool_body (gr_tools g)))])"
    using ts [of "gr_tools g"] by (cases "gr_tools g") simp_all
  with ne ms show ?thesis
    by (simp add: build_response_payload_def args_of_def opt_payload_def request_body_def)
qed

text \<open>C14: a request arrives as it was meant. For every request the domain accepts, with valid messages and tools, the SDK
  builds a body from it, the service accepts that body, and what the service makes of it is that request:
  same messages with their tool calls, same tools, temperature, token limit, cache and stream flags.\<close>

theorem request_arrives:
  assumes "generation_request_ok g" and "\<forall>m\<in>set (gr_messages g). message_built m" and "\<forall>t\<in>set (gr_tools g). tool_definition_ok t"
    and "exact_coercions co"
  shows "\<exists>body req. build_response_payload co (args_of g) = Inr body \<and>
    create_response_request_v co [''body''] body = Inr req \<and> crq_stream req = gr_stream g \<and> \<not> rag_enabled req \<and> \<not> mcp_enabled req \<and>
    traverse tool_definition_to_domain (crq_tools req) = Inr (gr_tools g) \<and>
    request_to_domain req None (gr_tools g) = Inr g"
proof -
  let ?kvs = "request_body g" and ?loc = "[''body'']"
  have ne: "gr_messages g \<noteq> []" and model: "gr_model g \<noteq> []" and temp: "\<And>t. gr_temperature g = Some t \<Longrightarrow> temperature_in_range t"
    and mx: "\<And>n. gr_max_output_tokens g = Some n \<Longrightarrow> 0 < n"
    using assms(1) by (auto simp: generation_request_ok_def)
  have int: "of_coercion (co_int co) l (JInt i) = Inr i" and flt: "of_coercion (co_float co) l (JFloat x) = Inr x" for l i x
    using assms(4) by (simp_all add: exact_coercions_def)
  let ?req = "\<lparr>crq_model = gr_model g, crq_messages = Some (map message_schema_of (gr_messages g)), crq_prompt = None, crq_context = None,
    crq_temperature = gr_temperature g, crq_max_output_tokens = gr_max_output_tokens g, crq_stream = gr_stream g,
    crq_tools = map tool_schema_of (gr_tools g), crq_cache = gr_cache g, crq_rag = None, crq_mcp = None\<rparr>"
  have "v_list message_schema_v l (JArr (map message_body (gr_messages g))) = Inr (map message_schema_of (gr_messages g))" for l
    using assms(2) message_accepted by (intro v_list_map) auto
  then have f_messages: "v_field ?kvs ?loc ''messages'' (v_optional (non_empty_list (v_list message_schema_v))) (Some None) =
      Inr (Some (map message_schema_of (gr_messages g)))"
    using ne by (simp add: request_body_get v_optional_def non_empty_list_def v_constrain_def)
  have "v_list tool_definition_schema_v l (JArr (map tool_body (gr_tools g))) = Inr (map tool_schema_of (gr_tools g))" for l
    using assms(3) tool_accepted by (intro v_list_map) auto
  then have f_tools: "v_field ?kvs ?loc ''tools'' (v_list tool_definition_schema_v) (Some []) = Inr (map tool_schema_of (gr_tools g))"
    by (simp add: v_field_def request_body_get)
  have f_temp: "v_field ?kvs ?loc ''temperature'' (v_optional (temperature_v co)) (Some None) = Inr (gr_temperature g)"
  proof (rule v_field_optional [where enc = JFloat])
    fix t assume "gr_temperature g = Some t"
    then have "temperature_in_range t" by (rule temp)
    then show "temperature_v co (?loc @ [''temperature'']) (JFloat t) = Inr t \<and> JFloat t \<noteq> JNull"
      by (cases t) (simp_all add: temperature_v_def flt temperature_in_range_def)
  qed (rule request_body_get)
  have f_max: "v_field ?kvs ?loc ''max_output_tokens'' (v_optional (positive_int co)) (Some None) = Inr (gr_max_output_tokens g)"
  proof (rule v_field_optional [where enc = JInt])
    fix n assume "gr_max_output_tokens g = Some n"
    then have "0 < n" by (rule mx)
    then show "positive_int co (?loc @ [''max_output_tokens'']) (JInt n) = Inr n \<and> JInt n \<noteq> JNull"
      by (simp add: positive_int_def int)
  qed (rule request_body_get)
  have flags: "v_field ?kvs ?loc ''stream'' (of_coercion (co_bool co)) (Some False) = Inr (gr_stream g)"
    "v_field ?kvs ?loc ''cache'' (of_coercion (co_bool co)) (Some False) = Inr (gr_cache g)"
    using assms(4) by (auto intro!: v_field_flag simp: request_body_get)
  have accepted: "create_response_request_v co ?loc (JObj ?kvs) = Inr ?req"
    using model request_body_fields [of g]
    by (simp add: create_response_request_v_def v_object_def f_messages f_tools f_temp f_max flags request_body_get
        validate_messages_xor_prompt_def)
  have "traverse message_to_domain (map message_schema_of (gr_messages g)) = Inr (gr_messages g)"
    using assms(2) message_back by (intro traverse_map_total) auto
  moreover have same: "\<lparr>gr_model = gr_model g, gr_messages = gr_messages g, gr_temperature = gr_temperature g,
    gr_max_output_tokens = gr_max_output_tokens g, gr_stream = gr_stream g, gr_tools = gr_tools g, gr_cache = gr_cache g\<rparr> = g"
    by simp
  ultimately have "request_to_domain ?req None (gr_tools g) = Inr g"
    using assms(1) by (simp add: same request_to_domain_def own_messages_def validate_generation_request_Inr)
  moreover have "traverse tool_definition_to_domain (map tool_schema_of (gr_tools g)) = Inr (gr_tools g)"
    using assms(3) tool_back by (intro traverse_map_total) auto
  ultimately show ?thesis
    using payload_of_request [OF ne, of co] accepted by (auto simp: rag_enabled_def mcp_enabled_def)
qed

lemma request_arrives_witness:
  "\<exists>body req. build_response_payload strict_coercions (args_of (sample_request ''m'')) = Inr body \<and>
     create_response_request_v strict_coercions [''body''] body = Inr req \<and> request_to_domain req None [] = Inr (sample_request ''m'')"
proof -
  have ok: "generation_request_ok (sample_request ''m'')" "\<forall>m\<in>set (gr_messages (sample_request ''m'')). message_built m"
    by (simp_all add: generation_request_ok_def sample_request_def uses_tools_def user_message_def message_built_def message_ok_def is_space_def)
  from request_arrives [OF ok _ strict_exact] show ?thesis by auto
qed

end
