(* ===== verification/AsyncSdk.thy ===== *)
theory AsyncSdk
  imports Sdk
begin

text \<open>
  The asynchronous client of the SDK (\<open>client.py\<close>: \<open>AsyncAIRuntime\<close>, \<open>AsyncResponses\<close>, \<open>AsyncPrompts\<close>,
  \<open>_aiter_frames\<close>). A coroutine is what it awaits next and how it goes on from the reply; an asynchronous generator
  is a machine that is resumed with what it awaited, the head of the reply, a line, the end, and gives the events it
  yields before it awaits again. The main result is that both clients do the same, and that the generator yields an event with the line that
  completes its frame.
\<close>

section \<open>Coroutines\<close>

text \<open>\<open>Inl ()\<close> is \<open>httpx.HTTPError\<close>.\<close>

datatype 'a coroutine =
    Return 'a
  | AwaitReply sdk_request "unit + sdk_reply \<Rightarrow> 'a coroutine"

primrec then_co :: "(sdk_exn + 'a) coroutine \<Rightarrow> ('a \<Rightarrow> (sdk_exn + 'b) coroutine) \<Rightarrow> (sdk_exn + 'b) coroutine" where
  "then_co (Return res) k = (case res of Inl e \<Rightarrow> Return (Inl e) | Inr x \<Rightarrow> k x)"
| "then_co (AwaitReply req f) k = AwaitReply req (\<lambda>got. then_co (f got) k)"

text \<open>A task on an event loop whose transport answers each request.\<close>

primrec run_coroutine :: "'u sdk_http \<Rightarrow> 'a coroutine \<Rightarrow> 'u \<Rightarrow> 'a \<times> 'u" where
  "run_coroutine http (Return res) u = (res, u)"
| "run_coroutine http (AwaitReply req f) u = (case kh_request http req u of (got, u') \<Rightarrow> run_coroutine http (f got) u')"

section \<open>The client\<close>

record async_ai_runtime =
  kac_api_key :: string
  kac_base_url :: string

definition mk_async_ai_runtime :: "string \<Rightarrow> string \<Rightarrow> sdk_exn + async_ai_runtime" where
  "mk_async_ai_runtime api_key base_url =
     bind_r (require_text api_key ''api_key'') (\<lambda>k. bind_r (require_text base_url ''base_url'') (\<lambda>b.
     Inr \<lparr>kac_api_key = k, kac_base_url = rstrip_char (CHR ''/'') b\<rparr>))"

definition async_url :: "async_ai_runtime \<Rightarrow> string \<Rightarrow> string" where
  "async_url c path = kac_base_url c @ path"

definition async_headers :: "async_ai_runtime \<Rightarrow> string option \<Rightarrow> string option \<Rightarrow> (string, string) dict" where
  "async_headers c idempotency_key request_id = build_headers (kac_api_key c) idempotency_key request_id"

definition async_send ::
    "async_ai_runtime \<Rightarrow> string \<Rightarrow> string \<Rightarrow> json option \<Rightarrow> string option \<Rightarrow> string option \<Rightarrow> (sdk_exn + sdk_reply) coroutine" where
  "async_send c verb path json_body idempotency_key request_id =
     AwaitReply \<lparr>kq_method = verb, kq_url = async_url c path,
         kq_headers = async_headers c idempotency_key request_id, kq_json = json_body\<rparr>
       (\<lambda>got. case got of Inl _ \<Rightarrow> Return (Inl connection_error) | Inr resp \<Rightarrow> Return (map_r (\<lambda>_. resp) (raise_for_status resp)))"

definition async_responses_create ::
    "coercions \<Rightarrow> async_ai_runtime \<Rightarrow> response_args \<Rightarrow> string option \<Rightarrow> string option \<Rightarrow> (sdk_exn + sdk_response) coroutine" where
  "async_responses_create co c args idempotency_key request_id =
     then_co (Return (build_response_payload co (args\<lparr>ra_stream := False\<rparr>))) (\<lambda>body.
     then_co (async_send c ''POST'' ''/v1/responses'' (Some body) idempotency_key request_id) (\<lambda>resp.
     Return (parse_model (sdk_response_v co) (\<lambda>r m. m\<lparr>krs_request_id := r\<rparr>) resp)))"

definition async_prompts_create ::
    "coercions \<Rightarrow> 'd validator \<Rightarrow> async_ai_runtime \<Rightarrow> string \<Rightarrow> sdk_prompt_message input list \<Rightarrow> string option \<Rightarrow>
     (sdk_exn + 'd sdk_prompt_version) coroutine" where
  "async_prompts_create co v_datetime c name messages request_id =
     then_co (Return (build_prompt_payload name messages)) (\<lambda>body.
     then_co (async_send c ''POST'' ''/v1/prompts'' (Some body) None request_id) (\<lambda>resp.
     Return (parse_model (sdk_prompt_version_v co v_datetime) (\<lambda>r m. m\<lparr>kpv_request_id := r\<rparr>) resp)))"

definition async_prompts_list ::
    "coercions \<Rightarrow> 'd validator \<Rightarrow> async_ai_runtime \<Rightarrow> string \<Rightarrow> string option \<Rightarrow> (sdk_exn + 'd sdk_prompt_list) coroutine" where
  "async_prompts_list co v_datetime c name request_id =
     then_co (async_send c ''GET'' (prompt_path name) None None request_id) (\<lambda>resp.
     Return (parse_model (sdk_prompt_list_v co v_datetime) (\<lambda>r m. m\<lparr>kpl_request_id := r\<rparr>) resp))"

section \<open>The stream\<close>

text \<open>What the generator is resumed with: the reply's head (and whether the body of an error cannot be read), a line, the end
  of the body, or \<open>httpx.HTTPError\<close>.\<close>

datatype resumption = Opened sdk_reply bool | GotLine string | NoMoreLines | HttpFailed

datatype generator =
    Connecting
  | Streaming "string option" sse_parser
  | Over "sdk_exn option"

text \<open>The body of the loop for one frame: the event it yields, or the error it raises.\<close>

definition yield_frame :: "coercions \<Rightarrow> string option \<Rightarrow> string \<times> string \<Rightarrow> generator \<Rightarrow> sdk_event list \<times> generator" where
  "yield_frame co rid frame next = (case parse_stream_frame co (fst frame) (snd frame) rid of
     Inl e \<Rightarrow> ([], Over (Some e))
   | Inr yielded \<Rightarrow> ([stamp_request_id stamp_event yielded rid], next))"

definition aiter_frames :: "coercions \<Rightarrow> string option \<Rightarrow> sse_parser \<Rightarrow> resumption \<Rightarrow> sdk_event list \<times> generator" where
  "aiter_frames co rid parser got = (case got of
     GotLine line \<Rightarrow> (case parser_feed line parser of
         (None, parser') \<Rightarrow> ([], Streaming rid parser')
       | (Some frame, parser') \<Rightarrow> yield_frame co rid frame (Streaming rid parser'))
   | NoMoreLines \<Rightarrow> (case fst (parser_finish parser) of None \<Rightarrow> ([], Over None) | Some trailing \<Rightarrow> yield_frame co rid trailing (Over None))
   | _ \<Rightarrow> ([], Over (Some connection_error)))"

definition async_stream_resume :: "coercions \<Rightarrow> generator \<Rightarrow> resumption \<Rightarrow> sdk_event list \<times> generator" where
  "async_stream_resume co g got = (case g of
     Connecting \<Rightarrow> (case got of
         Opened head unreadable \<Rightarrow>
           (if 400 \<le> krp_status head \<and> unreadable then ([], Over (Some connection_error))
            else case bind_r (raise_for_status head) (\<lambda>_. require_event_stream head) of
              Inl e \<Rightarrow> ([], Over (Some e))
            | Inr _ \<Rightarrow> ([], Streaming (request_id_header head) new_parser))
       | _ \<Rightarrow> ([], Over (Some connection_error)))
   | Streaming rid parser \<Rightarrow> aiter_frames co rid parser got
   | Over e \<Rightarrow> ([], Over e))"

fun drive :: "coercions \<Rightarrow> resumption list \<Rightarrow> generator \<Rightarrow> sdk_event list \<times> generator" where
  "drive co [] g = ([], g)"
| "drive co (got # gots) g = (case async_stream_resume co g got of
     (evs, g1) \<Rightarrow> (case drive co gots g1 of (evs', g2) \<Rightarrow> (evs @ evs', g2)))"

text \<open>The request the generator opens the stream with, and where it begins.\<close>

definition async_responses_stream ::
    "coercions \<Rightarrow> async_ai_runtime \<Rightarrow> response_args \<Rightarrow> string option \<Rightarrow> sdk_request option \<times> generator" where
  "async_responses_stream co c args request_id =
     (case build_response_payload co (args\<lparr>ra_stream := True, ra_cache := False\<rparr>) of
        Inl e \<Rightarrow> (None, Over (Some e))
      | Inr body \<Rightarrow> (Some \<lparr>kq_method = ''POST'', kq_url = async_url c ''/v1/responses'',
          kq_headers = async_headers c None request_id, kq_json = Some body\<rparr>, Connecting))"

text \<open>What a transport resumes it with.\<close>

definition body_resumptions :: "sdk_stream_reply \<Rightarrow> resumption list" where
  "body_resumptions resp = map GotLine (kst_lines resp) @ [if kst_broken resp then HttpFailed else NoMoreLines]"

definition resumptions :: "unit + sdk_stream_reply \<Rightarrow> resumption list" where
  "resumptions got = (case got of Inl _ \<Rightarrow> [HttpFailed]
     | Inr resp \<Rightarrow> Opened (kst_head resp) (kst_unreadable resp) # body_resumptions resp)"

definition run_generator :: "coercions \<Rightarrow> 'u sdk_http \<Rightarrow> sdk_request option \<times> generator \<Rightarrow> 'u \<Rightarrow> (sdk_event list \<times> generator) \<times> 'u" where
  "run_generator co http start u = (case start of
     (None, g) \<Rightarrow> (([], g), u)
   | (Some req, g) \<Rightarrow> (case kh_stream http req u of (got, u') \<Rightarrow> (drive co (resumptions got) g, u')))"

section \<open>The same as the synchronous client\<close>

definition sync_client :: "'u sdk_http \<Rightarrow> async_ai_runtime \<Rightarrow> 'u ai_runtime" where
  "sync_client http c = \<lparr>kc_api_key = kac_api_key c, kc_base_url = kac_base_url c, kc_http = http\<rparr>"

lemma run_then_co:
  "run_coroutine http (then_co m k) u = (case run_coroutine http m u of
     (Inl e, u') \<Rightarrow> (Inl e, u') | (Inr x, u') \<Rightarrow> run_coroutine http (k x) u')"
  by (induction m arbitrary: u) (auto split: sum.split prod.split)

lemma run_async_send:
  "run_coroutine http (async_send c verb path body key rid) u = client_send (sync_client http c) verb path body key rid u"
  by (auto simp: async_send_def client_send_def async_url_def client_url_def async_headers_def client_headers_def sync_client_def
      split: prod.split sum.split)

lemma async_calls:
  "run_coroutine http (async_responses_create co c args key rid) u = responses_create co (sync_client http c) args key rid u"
  "run_coroutine http (async_prompts_create co vd c name messages rid) u = prompts_create co vd (sync_client http c) name messages rid u"
  "run_coroutine http (async_prompts_list co vd c name rid) u = prompts_list co vd (sync_client http c) name rid u"
  by (auto simp: async_responses_create_def responses_create_def async_prompts_create_def prompts_create_def async_prompts_list_def
      prompts_list_def run_then_co run_async_send bind_a_def lift_a_def split: sum.split prod.split)

lemma drive_over [simp]: "drive co gots (Over e) = ([], Over e)"
  by (induction gots) (simp_all add: async_stream_resume_def)

lemma drive_lines:
  assumes "yield_frames co rid (frames_of_lines lines parser) None = (evs, e)"
  shows "fst (drive co (map GotLine lines) (Streaming rid parser)) = evs"
  using assms
proof (induction lines arbitrary: parser evs e)
  case (Cons line lines)
  obtain f parser' where p: "parser_feed line parser = (f, parser')" by (cases "parser_feed line parser")
  show ?case
  proof (cases f)
    case None
    with Cons p show ?thesis by (simp add: async_stream_resume_def aiter_frames_def split: prod.split)
  next
    case (Some frame)
    obtain event data where fr: "frame = (event, data)" by (cases frame)
    obtain evs' e' where y: "yield_frames co rid (frames_of_lines lines parser') None = (evs', e')" by (metis surj_pair)
    from Cons.IH [OF y] Cons.prems show ?thesis
      by (auto simp: p Some fr y async_stream_resume_def aiter_frames_def yield_frame_def split: prod.split sum.splits)
  qed
qed simp

lemma drive_body:
  "drive co (body_resumptions resp) (Streaming rid parser) =
   (case yield_frames co rid (if kst_broken resp then frames_of_lines (kst_lines resp) parser else parser_run (kst_lines resp) parser)
       (if kst_broken resp then Some connection_error else None) of (evs, e) \<Rightarrow> (evs, Over e))"
proof -
  have "drive co (map GotLine lines @ [if broken then HttpFailed else NoMoreLines]) (Streaming rid parser) =
     (case yield_frames co rid (if broken then frames_of_lines lines parser else parser_run lines parser)
       (if broken then Some connection_error else None) of (evs, e) \<Rightarrow> (evs, Over e))" for lines broken
  proof (induction lines arbitrary: parser)
    case Nil
    show ?case by (auto simp: async_stream_resume_def aiter_frames_def yield_frame_def split: prod.split option.split sum.split)
  next
    case (Cons line lines)
    obtain f parser' where p: "parser_feed line parser = (f, parser')" by (cases "parser_feed line parser")
    show ?case
    proof (cases f)
      case None
      with Cons [of parser'] show ?thesis by (simp add: p async_stream_resume_def aiter_frames_def split: prod.split)
    next
      case (Some frame)
      obtain event data where fr: "frame = (event, data)" by (cases frame)
      from Cons [of parser'] show ?thesis
        by (cases "parse_stream_frame co event data rid")
          (auto simp: p Some fr async_stream_resume_def aiter_frames_def yield_frame_def split: prod.splits)
    qed
  qed
  then show ?thesis by (simp add: body_resumptions_def)
qed

lemma drive_reply: "drive co (resumptions (Inr resp)) Connecting = (case stream_events co resp of (evs, e) \<Rightarrow> (evs, Over e))"
  by (auto simp: resumptions_def stream_events_def async_stream_resume_def Let_def drive_body iter_frames_def split: sum.split prod.split)

lemma async_stream:
  "run_generator co http (async_responses_stream co c args rid) u =
   (case responses_stream co (sync_client http c) args rid u of ((evs, e), u') \<Rightarrow> ((evs, Over e), u'))"
  by (auto simp: run_generator_def async_responses_stream_def responses_stream_def async_url_def client_url_def async_headers_def
      client_headers_def sync_client_def drive_reply split: sum.split prod.split)
    (auto simp: resumptions_def async_stream_resume_def)

text \<open>C15: the asynchronous client behaves as the synchronous one, and streams as it reads. Whatever the transport answers, a call of the one
  gives the result, the events and the error of the same call of the other; and after any number of lines the generator has
  yielded the events of the frames those lines complete, without waiting for more.\<close>

theorem async_as_sync:
  "run_coroutine http (async_responses_create co c args key rid) u = responses_create co (sync_client http c) args key rid u \<and>
   run_coroutine http (async_prompts_create co vd c name messages rid) u = prompts_create co vd (sync_client http c) name messages rid u \<and>
   run_coroutine http (async_prompts_list co vd c name rid) u = prompts_list co vd (sync_client http c) name rid u \<and>
   run_generator co http (async_responses_stream co c args rid) u =
     (case responses_stream co (sync_client http c) args rid u of ((evs, e), u') \<Rightarrow> ((evs, Over e), u')) \<and>
   fst (drive co (map GotLine (take n lines)) (Streaming rid new_parser)) =
     fst (yield_frames co rid (frames_of_lines (take n lines) new_parser) None)"
  by (intro conjI async_calls async_stream drive_lines [OF surjective_pairing])

end
