(* ===== verification/Migrations.thy ===== *)
theory Migrations
  imports Deployment
begin

text \<open>
  The schema of the database: the migrations (\<open>alembic/versions\<close>) as operations on a schema, the order in which
  \<open>alembic upgrade head\<close> and \<open>alembic downgrade\<close> run them (\<open>alembic/env.py\<close>), and the tables the ORM classes
  declare (\<open>infrastructure/db/models\<close>). What an operation does to a schema, and when the database refuses it, is the
  documented behaviour of Alembic on PostgreSQL. The main results are that every migration is undone by its downgrade, and
  exactly where the migrated schema and the declared one differ.
\<close>

section \<open>Schemas\<close>

datatype column_type = UuidT | TextT | TimestampTz | IntegerT | BigIntegerT | NumericT nat nat | JsonbT | VectorT nat

record column =
  cl_name :: string
  cl_type :: column_type
  cl_nullable :: bool
  cl_server_default :: "string option"

record foreign_key =
  fk_columns :: "string list"
  fk_target :: string
  fk_target_columns :: "string list"

record table =
  tb_name :: string
  tb_columns :: "column list"
  tb_foreign_keys :: "foreign_key list"
  tb_primary_key :: "string list"
  tb_unique :: "string list list"

record index =
  ix_name :: string
  ix_table :: string
  ix_columns :: "string list"
  ix_unique :: bool

record schema =
  sc_extensions :: "string list"
  sc_tables :: "table list"
  sc_indexes :: "index list"

definition empty_schema :: schema where
  "empty_schema = \<lparr>sc_extensions = [], sc_tables = [], sc_indexes = []\<rparr>"

section \<open>Operations\<close>

datatype operation =
    CreateTable table
  | DropTable string
  | CreateIndex index
  | DropIndex string string
  | CreateExtension string

datatype ddl_error = DuplicateTable string | UndefinedTable string | DuplicateIndex string | UndefinedIndex string
  | UndefinedColumn string | DependentObjects string | InvalidForeignKey string

definition has_table :: "schema \<Rightarrow> string \<Rightarrow> bool" where
  "has_table s t \<longleftrightarrow> t \<in> set (map tb_name (sc_tables s))"

definition has_columns :: "schema \<Rightarrow> string \<Rightarrow> string list \<Rightarrow> bool" where
  "has_columns s t cs \<longleftrightarrow> (\<exists>tb\<in>set (sc_tables s). tb_name tb = t \<and> set cs \<subseteq> set (map cl_name (tb_columns tb)))"

text \<open>What a foreign key refers to: the primary key of a table, or columns it declares unique.\<close>

definition has_key :: "schema \<Rightarrow> foreign_key \<Rightarrow> bool" where
  "has_key s f \<longleftrightarrow> (\<exists>t\<in>set (sc_tables s). tb_name t = fk_target f \<and>
     (fk_target_columns f = tb_primary_key t \<or> fk_target_columns f \<in> set (tb_unique t)))"

text \<open>Tables and indexes share one name space. Dropping a table drops its indexes, and is refused while another table refers to it.\<close>

fun run_operation :: "operation \<Rightarrow> schema \<Rightarrow> ddl_error + schema" where
  "run_operation (CreateTable t) s =
     (if has_table s (tb_name t) \<or> tb_name t \<in> set (map ix_name (sc_indexes s)) then Inl (DuplicateTable (tb_name t))
      else let s' = s\<lparr>sc_tables := sc_tables s @ [t]\<rparr> in
        (case find (\<lambda>f. \<not> has_key s' f) (tb_foreign_keys t) of Some f \<Rightarrow> Inl (InvalidForeignKey (fk_target f)) | None \<Rightarrow> Inr s'))"
| "run_operation (DropTable n) s =
     (if \<not> has_table s n then Inl (UndefinedTable n)
      else if list_ex (\<lambda>t. tb_name t \<noteq> n \<and> list_ex (\<lambda>f. fk_target f = n) (tb_foreign_keys t)) (sc_tables s) then Inl (DependentObjects n)
      else Inr (s\<lparr>sc_tables := filter (\<lambda>t. tb_name t \<noteq> n) (sc_tables s), sc_indexes := filter (\<lambda>i. ix_table i \<noteq> n) (sc_indexes s)\<rparr>))"
| "run_operation (CreateIndex i) s =
     (if ix_name i \<in> set (map ix_name (sc_indexes s)) \<or> has_table s (ix_name i) then Inl (DuplicateIndex (ix_name i))
      else if \<not> has_table s (ix_table i) then Inl (UndefinedTable (ix_table i))
      else if \<not> has_columns s (ix_table i) (ix_columns i) then Inl (UndefinedColumn (ix_name i))
      else Inr (s\<lparr>sc_indexes := sc_indexes s @ [i]\<rparr>))"
| "run_operation (DropIndex n t) s =
     (if n \<notin> set (map ix_name (sc_indexes s)) then Inl (UndefinedIndex n)
      else Inr (s\<lparr>sc_indexes := filter (\<lambda>i. ix_name i \<noteq> n) (sc_indexes s)\<rparr>))"
| "run_operation (CreateExtension e) s =
     Inr (if e \<in> set (sc_extensions s) then s else s\<lparr>sc_extensions := sc_extensions s @ [e]\<rparr>)"

fun run_operations :: "operation list \<Rightarrow> schema \<Rightarrow> ddl_error + schema" where
  "run_operations [] s = Inr s"
| "run_operations (x # xs) s = (case run_operation x s of Inl e \<Rightarrow> Inl e | Inr s' \<Rightarrow> run_operations xs s')"

section \<open>The migrations\<close>

record revision =
  rv_revision :: string
  rv_down_revision :: "string option"
  rv_upgrade :: "operation list"
  rv_downgrade :: "operation list"

definition col :: "string \<Rightarrow> column_type \<Rightarrow> bool \<Rightarrow> column" where
  "col name ty nullable = \<lparr>cl_name = name, cl_type = ty, cl_nullable = nullable, cl_server_default = None\<rparr>"

definition fk :: "string \<Rightarrow> string \<Rightarrow> foreign_key" where
  "fk column target = \<lparr>fk_columns = [column], fk_target = target, fk_target_columns = [''id'']\<rparr>"

definition idx :: "string \<Rightarrow> string \<Rightarrow> string list \<Rightarrow> index" where
  "idx name table columns = \<lparr>ix_name = name, ix_table = table, ix_columns = columns, ix_unique = False\<rparr>"

definition rev_0001_baseline :: revision where
  "rev_0001_baseline = \<lparr>rv_revision = ''0001_baseline'', rv_down_revision = None, rv_upgrade = [], rv_downgrade = []\<rparr>"

definition rev_0002_organizations :: revision where
  "rev_0002_organizations = \<lparr>rv_revision = ''0002_organizations'', rv_down_revision = Some ''0001_baseline'',
     rv_upgrade = [CreateTable \<lparr>tb_name = ''organizations'', tb_columns =
       [col ''id'' UuidT False, col ''name'' TextT False, col ''slug'' TextT False, col ''status'' TextT False,
        col ''created_at'' TimestampTz False, col ''updated_at'' TimestampTz False],
       tb_foreign_keys = [], tb_primary_key = [''id''], tb_unique = [[''slug'']]\<rparr>],
     rv_downgrade = [DropTable ''organizations'']\<rparr>"

definition rev_0003_api_keys :: revision where
  "rev_0003_api_keys = \<lparr>rv_revision = ''0003_api_keys'', rv_down_revision = Some ''0002_organizations'',
     rv_upgrade = [CreateTable \<lparr>tb_name = ''api_keys'', tb_columns =
       [col ''id'' UuidT False, col ''organization_id'' UuidT False, col ''name'' TextT True, col ''prefix'' TextT False,
        col ''secret_hash'' TextT False, col ''status'' TextT False, col ''created_at'' TimestampTz False,
        col ''revoked_at'' TimestampTz True, col ''updated_at'' TimestampTz False],
       tb_foreign_keys = [fk ''organization_id'' ''organizations''], tb_primary_key = [''id''], tb_unique = []\<rparr>,
       CreateIndex (idx ''ix_api_keys_organization_id'' ''api_keys'' [''organization_id'']),
       CreateIndex (idx ''ix_api_keys_prefix'' ''api_keys'' [''prefix''])],
     rv_downgrade = [DropIndex ''ix_api_keys_prefix'' ''api_keys'', DropIndex ''ix_api_keys_organization_id'' ''api_keys'',
       DropTable ''api_keys'']\<rparr>"

definition rev_0004_usage_records :: revision where
  "rev_0004_usage_records = \<lparr>rv_revision = ''0004_usage_records'', rv_down_revision = Some ''0003_api_keys'',
     rv_upgrade = [CreateTable \<lparr>tb_name = ''usage_records'', tb_columns =
       [col ''id'' UuidT False, col ''request_id'' TextT False, col ''organization_id'' UuidT False, col ''api_key_id'' UuidT False,
        col ''provider'' TextT False, col ''model'' TextT False, col ''input_tokens'' IntegerT True, col ''output_tokens'' IntegerT True,
        col ''estimated_cost_usd'' (NumericT 20 8) True, col ''created_at'' TimestampTz False],
       tb_foreign_keys = [fk ''organization_id'' ''organizations'', fk ''api_key_id'' ''api_keys''],
       tb_primary_key = [''id''], tb_unique = [[''request_id'']]\<rparr>,
       CreateIndex (idx ''ix_usage_records_organization_id'' ''usage_records'' [''organization_id'']),
       CreateIndex (idx ''ix_usage_records_api_key_id'' ''usage_records'' [''api_key_id''])],
     rv_downgrade = [DropIndex ''ix_usage_records_api_key_id'' ''usage_records'',
       DropIndex ''ix_usage_records_organization_id'' ''usage_records'', DropTable ''usage_records'']\<rparr>"

definition rev_0005_organization_policies :: revision where
  "rev_0005_organization_policies = \<lparr>rv_revision = ''0005_organization_policies'', rv_down_revision = Some ''0004_usage_records'',
     rv_upgrade = [CreateTable \<lparr>tb_name = ''organization_policies'', tb_columns =
       [col ''organization_id'' UuidT False, col ''monthly_token_limit'' BigIntegerT True,
        col ''created_at'' TimestampTz False, col ''updated_at'' TimestampTz False],
       tb_foreign_keys = [fk ''organization_id'' ''organizations''], tb_primary_key = [''organization_id''], tb_unique = []\<rparr>,
       CreateTable \<lparr>tb_name = ''organization_model_entitlements'', tb_columns =
       [col ''id'' UuidT False, col ''organization_id'' UuidT False, col ''model'' TextT False],
       tb_foreign_keys = [fk ''organization_id'' ''organizations''], tb_primary_key = [''id''],
       tb_unique = [[''organization_id'', ''model'']]\<rparr>,
       CreateIndex (idx ''ix_organization_model_entitlements_organization_id'' ''organization_model_entitlements'' [''organization_id'']),
       CreateIndex (idx ''ix_usage_records_organization_id_created_at'' ''usage_records'' [''organization_id'', ''created_at''])],
     rv_downgrade = [DropIndex ''ix_usage_records_organization_id_created_at'' ''usage_records'',
       DropIndex ''ix_organization_model_entitlements_organization_id'' ''organization_model_entitlements'',
       DropTable ''organization_model_entitlements'', DropTable ''organization_policies'']\<rparr>"

definition rev_0007_prompt_templates :: revision where
  "rev_0007_prompt_templates = \<lparr>rv_revision = ''0007_prompt_templates'', rv_down_revision = Some ''0005_organization_policies'',
     rv_upgrade = [CreateTable \<lparr>tb_name = ''prompt_templates'', tb_columns =
       [col ''id'' UuidT False, col ''organization_id'' UuidT False, col ''name'' TextT False, col ''version'' IntegerT False,
        col ''messages'' JsonbT False, col ''created_at'' TimestampTz False],
       tb_foreign_keys = [fk ''organization_id'' ''organizations''], tb_primary_key = [''id''],
       tb_unique = [[''organization_id'', ''name'', ''version'']]\<rparr>,
       CreateIndex (idx ''ix_prompt_templates_organization_id'' ''prompt_templates'' [''organization_id''])],
     rv_downgrade = [DropIndex ''ix_prompt_templates_organization_id'' ''prompt_templates'', DropTable ''prompt_templates'']\<rparr>"

definition rev_0008_audit_events :: revision where
  "rev_0008_audit_events = \<lparr>rv_revision = ''0008_audit_events'', rv_down_revision = Some ''0007_prompt_templates'',
     rv_upgrade = [CreateTable \<lparr>tb_name = ''audit_events'', tb_columns =
       [col ''id'' UuidT False, col ''action'' TextT False, col ''occurred_at'' TimestampTz False, col ''organization_id'' UuidT True,
        col ''actor_api_key_id'' UuidT True, col ''request_id'' TextT True, col ''resource_type'' TextT False,
        col ''resource_id'' TextT True, col ''metadata'' JsonbT False],
       tb_foreign_keys = [], tb_primary_key = [''id''], tb_unique = []\<rparr>,
       CreateIndex (idx ''ix_audit_events_occurred_at'' ''audit_events'' [''occurred_at'']),
       CreateIndex (idx ''ix_audit_events_organization_id'' ''audit_events'' [''organization_id'']),
       CreateIndex (idx ''ix_audit_events_request_id'' ''audit_events'' [''request_id''])],
     rv_downgrade = [DropIndex ''ix_audit_events_request_id'' ''audit_events'', DropIndex ''ix_audit_events_organization_id'' ''audit_events'',
       DropIndex ''ix_audit_events_occurred_at'' ''audit_events'', DropTable ''audit_events'']\<rparr>"

definition EMBEDDING_DIMENSIONS :: nat where
  "EMBEDDING_DIMENSIONS = 1536"

definition rev_0009_semantic_chunks :: revision where
  "rev_0009_semantic_chunks = \<lparr>rv_revision = ''0009_semantic_chunks_pgvector'', rv_down_revision = Some ''0008_audit_events'',
     rv_upgrade = [CreateExtension ''vector'', CreateTable \<lparr>tb_name = ''semantic_chunks'', tb_columns =
       [col ''id'' UuidT False, col ''organization_id'' UuidT False, col ''content'' TextT False,
        col ''embedding'' (VectorT EMBEDDING_DIMENSIONS) False, col ''created_at'' TimestampTz False],
       tb_foreign_keys = [fk ''organization_id'' ''organizations''], tb_primary_key = [''id''], tb_unique = []\<rparr>,
       CreateIndex (idx ''ix_semantic_chunks_organization_id'' ''semantic_chunks'' [''organization_id''])],
     rv_downgrade = [DropIndex ''ix_semantic_chunks_organization_id'' ''semantic_chunks'', DropTable ''semantic_chunks'']\<rparr>"

definition rev_0010_mcp_servers :: revision where
  "rev_0010_mcp_servers = \<lparr>rv_revision = ''0010_mcp_servers'', rv_down_revision = Some ''0009_semantic_chunks_pgvector'',
     rv_upgrade = [CreateTable \<lparr>tb_name = ''mcp_servers'', tb_columns =
       [col ''id'' UuidT False, col ''organization_id'' UuidT False, col ''name'' TextT False, col ''url'' TextT False,
        (col ''headers'' JsonbT False)\<lparr>cl_server_default := Some (quoted ''{}'' @ ''::jsonb'')\<rparr>, col ''created_at'' TimestampTz False],
       tb_foreign_keys = [fk ''organization_id'' ''organizations''], tb_primary_key = [''id''],
       tb_unique = [[''organization_id'', ''name'']]\<rparr>,
       CreateIndex (idx ''ix_mcp_servers_organization_id'' ''mcp_servers'' [''organization_id''])],
     rv_downgrade = [DropIndex ''ix_mcp_servers_organization_id'' ''mcp_servers'', DropTable ''mcp_servers'']\<rparr>"

definition versions :: "revision list" where
  "versions = [rev_0001_baseline, rev_0002_organizations, rev_0003_api_keys, rev_0004_usage_records, rev_0005_organization_policies,
     rev_0007_prompt_templates, rev_0008_audit_events, rev_0009_semantic_chunks, rev_0010_mcp_servers]"

section \<open>Running the migrations\<close>

text \<open>The pending revisions, in the order of the chain.\<close>

function upgrade_path :: "revision list \<Rightarrow> string option \<Rightarrow> revision list" where
  "upgrade_path vs current = (case find (\<lambda>r. rv_down_revision r = current) vs of
     None \<Rightarrow> [] | Some r \<Rightarrow> r # upgrade_path (remove1 r vs) (Some (rv_revision r)))"
  by pat_completeness auto
termination
  by (relation "measure (\<lambda>(vs, _). length vs)") (auto simp: find_Some_iff length_remove1 intro: diff_less length_pos_if_in_set)

declare upgrade_path.simps [simp del]

text \<open>The schema and the revision recorded in the version table.\<close>

type_synonym migrated = "schema \<times> string option"

fun run_upgrades :: "revision list \<Rightarrow> migrated \<Rightarrow> ddl_error + migrated" where
  "run_upgrades [] st = Inr st"
| "run_upgrades (r # rs) (s, current) = (case run_operations (rv_upgrade r) s of
     Inl e \<Rightarrow> Inl e | Inr s' \<Rightarrow> run_upgrades rs (s', Some (rv_revision r)))"

text \<open>\<open>do_run_migrations\<close>: one transaction around all of them, which is rolled back when one fails.\<close>

definition upgrade_head :: "revision list \<Rightarrow> migrated \<Rightarrow> ddl_error option \<times> migrated" where
  "upgrade_head vs st = (case run_upgrades (upgrade_path vs (snd st)) st of Inl e \<Rightarrow> (Some e, st) | Inr st' \<Rightarrow> (None, st'))"

fun run_downgrades :: "nat \<Rightarrow> revision list \<Rightarrow> migrated \<Rightarrow> ddl_error + migrated" where
  "run_downgrades 0 vs st = Inr st"
| "run_downgrades (Suc n) vs (s, current) = (case find (\<lambda>r. Some (rv_revision r) = current) vs of
     None \<Rightarrow> Inr (s, current)
   | Some r \<Rightarrow> (case run_operations (rv_downgrade r) s of Inl e \<Rightarrow> Inl e | Inr s' \<Rightarrow> run_downgrades n vs (s', rv_down_revision r)))"

text \<open>The script of the offline mode.\<close>

definition offline_script :: "revision list \<Rightarrow> string option \<Rightarrow> operation list" where
  "offline_script vs current = concat (map rv_upgrade (upgrade_path vs current))"

definition get_alembic_database_url :: "coercions \<Rightarrow> (string, string) dict \<Rightarrow> verrors + string" where
  "get_alembic_database_url co env = (case load_settings co env of Inl e \<Rightarrow> Inl e | Inr st \<Rightarrow> Inr (st_database_url st))"

section \<open>The declared tables\<close>

text \<open>A mapped column with the keywords the models use, and a mapped class.\<close>

record mapped_column =
  mc_column :: column
  mc_references :: "string option"
  mc_primary_key :: bool
  mc_unique :: bool
  mc_index :: bool

record orm_table =
  ot_name :: string
  ot_columns :: "mapped_column list"
  ot_unique :: "string list list"  \<comment> \<open>the constraints of \<open>__table_args__\<close>\<close>

definition mapped :: "string \<Rightarrow> column_type \<Rightarrow> mapped_column" where
  "mapped name ty = \<lparr>mc_column = col name ty False, mc_references = None, mc_primary_key = False, mc_unique = False, mc_index = False\<rparr>"

definition optional :: "string \<Rightarrow> column_type \<Rightarrow> mapped_column" where
  "optional name ty = (mapped name ty)\<lparr>mc_column := col name ty True\<rparr>"

definition key_column :: "string \<Rightarrow> mapped_column" where
  "key_column name = (mapped name UuidT)\<lparr>mc_primary_key := True\<rparr>"

definition organization_column :: mapped_column where
  "organization_column = (mapped ''organization_id'' UuidT)\<lparr>mc_references := Some ''organizations'', mc_index := True\<rparr>"

text \<open>What a class declares: constraints in the order of its columns, then those of \<open>__table_args__\<close>; an index is named after its
  table and column.\<close>

definition declared_table :: "orm_table \<Rightarrow> table" where
  "declared_table t = \<lparr>tb_name = ot_name t, tb_columns = map mc_column (ot_columns t),
     tb_foreign_keys = List.map_filter (\<lambda>c. map_option (fk (cl_name (mc_column c))) (mc_references c)) (ot_columns t),
     tb_primary_key = map (cl_name \<circ> mc_column) (filter mc_primary_key (ot_columns t)),
     tb_unique = map (\<lambda>c. [cl_name (mc_column c)]) (filter mc_unique (ot_columns t)) @ ot_unique t\<rparr>"

definition declared_indexes :: "orm_table \<Rightarrow> index list" where
  "declared_indexes t = map (\<lambda>c. idx (''ix_'' @ ot_name t @ ''_'' @ cl_name (mc_column c)) (ot_name t) [cl_name (mc_column c)])
     (filter mc_index (ot_columns t))"

definition OrganizationRow :: orm_table where
  "OrganizationRow = \<lparr>ot_name = ''organizations'', ot_columns =
     [key_column ''id'', mapped ''name'' TextT, (mapped ''slug'' TextT)\<lparr>mc_unique := True\<rparr>, mapped ''status'' TextT,
      mapped ''created_at'' TimestampTz, mapped ''updated_at'' TimestampTz], ot_unique = []\<rparr>"

definition ApiKeyRow :: orm_table where
  "ApiKeyRow = \<lparr>ot_name = ''api_keys'', ot_columns =
     [key_column ''id'', organization_column, optional ''name'' TextT, (mapped ''prefix'' TextT)\<lparr>mc_index := True\<rparr>,
      mapped ''secret_hash'' TextT, mapped ''status'' TextT, mapped ''created_at'' TimestampTz, optional ''revoked_at'' TimestampTz,
      mapped ''updated_at'' TimestampTz], ot_unique = []\<rparr>"

definition UsageRecordRow :: orm_table where
  "UsageRecordRow = \<lparr>ot_name = ''usage_records'', ot_columns =
     [key_column ''id'', (mapped ''request_id'' TextT)\<lparr>mc_unique := True\<rparr>, organization_column,
      (mapped ''api_key_id'' UuidT)\<lparr>mc_references := Some ''api_keys'', mc_index := True\<rparr>, mapped ''provider'' TextT,
      mapped ''model'' TextT, optional ''input_tokens'' IntegerT, optional ''output_tokens'' IntegerT,
      optional ''estimated_cost_usd'' (NumericT 20 8), mapped ''created_at'' TimestampTz], ot_unique = []\<rparr>"

definition OrganizationPolicyRow :: orm_table where
  "OrganizationPolicyRow = \<lparr>ot_name = ''organization_policies'', ot_columns =
     [(key_column ''organization_id'')\<lparr>mc_references := Some ''organizations''\<rparr>, optional ''monthly_token_limit'' BigIntegerT,
      mapped ''created_at'' TimestampTz, mapped ''updated_at'' TimestampTz], ot_unique = []\<rparr>"

definition OrganizationModelEntitlementRow :: orm_table where
  "OrganizationModelEntitlementRow = \<lparr>ot_name = ''organization_model_entitlements'', ot_columns =
     [key_column ''id'', organization_column\<lparr>mc_index := False\<rparr>, mapped ''model'' TextT], ot_unique = []\<rparr>"

definition PromptTemplateRow :: orm_table where
  "PromptTemplateRow = \<lparr>ot_name = ''prompt_templates'', ot_columns =
     [key_column ''id'', organization_column, mapped ''name'' TextT, mapped ''version'' IntegerT, mapped ''messages'' JsonbT,
      mapped ''created_at'' TimestampTz], ot_unique = [[''organization_id'', ''name'', ''version'']]\<rparr>"

definition AuditEventRow :: orm_table where
  "AuditEventRow = \<lparr>ot_name = ''audit_events'', ot_columns =
     [key_column ''id'', mapped ''action'' TextT, (mapped ''occurred_at'' TimestampTz)\<lparr>mc_index := True\<rparr>,
      (optional ''organization_id'' UuidT)\<lparr>mc_index := True\<rparr>, optional ''actor_api_key_id'' UuidT,
      (optional ''request_id'' TextT)\<lparr>mc_index := True\<rparr>, mapped ''resource_type'' TextT, optional ''resource_id'' TextT,
      mapped ''metadata'' JsonbT], ot_unique = []\<rparr>"

definition SemanticChunkRow :: orm_table where
  "SemanticChunkRow = \<lparr>ot_name = ''semantic_chunks'', ot_columns =
     [key_column ''id'', organization_column, mapped ''content'' TextT, mapped ''embedding'' (VectorT DEFAULT_EMBEDDING_DIMENSIONS),
      mapped ''created_at'' TimestampTz], ot_unique = []\<rparr>"

definition McpServerRow :: orm_table where
  "McpServerRow = \<lparr>ot_name = ''mcp_servers'', ot_columns =
     [key_column ''id'', organization_column, mapped ''name'' TextT, mapped ''url'' TextT,
      (mapped ''headers'' JsonbT)\<lparr>mc_column := (col ''headers'' JsonbT False)\<lparr>cl_server_default := Some (quoted ''{}'')\<rparr>\<rparr>,
      mapped ''created_at'' TimestampTz], ot_unique = [[''organization_id'', ''name'']]\<rparr>"

definition orm_models :: "orm_table list" where
  "orm_models = [ApiKeyRow, AuditEventRow, McpServerRow, OrganizationRow, OrganizationModelEntitlementRow, OrganizationPolicyRow,
     PromptTemplateRow, SemanticChunkRow, UsageRecordRow]"

text \<open>The check of \<open>env.py\<close> that the models are registered.\<close>

definition check_registered :: "orm_table list \<Rightarrow> string + unit" where
  "check_registered metadata = (case find (\<lambda>t. ot_name t \<notin> set (map ot_name metadata))
       [OrganizationRow, ApiKeyRow, UsageRecordRow, AuditEventRow, SemanticChunkRow, McpServerRow] of
     Some t \<Rightarrow> Inl (ot_name t @ '' ORM model is not registered on Base.metadata'') | None \<Rightarrow> Inr ())"

section \<open>A migration and its downgrade\<close>

text \<open>The constraints of a catalog: no two tables or indexes of one name, every index on a table, every foreign key to a table.\<close>

definition schema_ok :: "schema \<Rightarrow> bool" where
  "schema_ok s \<longleftrightarrow> distinct (map tb_name (sc_tables s)) \<and> distinct (map ix_name (sc_indexes s)) \<and>
     (\<forall>i\<in>set (sc_indexes s). has_table s (ix_table i)) \<and>
     (\<forall>t\<in>set (sc_tables s). \<forall>f\<in>set (tb_foreign_keys t). has_table s (fk_target f))"

fun inverse_operation :: "operation \<Rightarrow> operation list" where
  "inverse_operation (CreateTable t) = [DropTable (tb_name t)]"
| "inverse_operation (CreateIndex i) = [DropIndex (ix_name i) (ix_table i)]"
| "inverse_operation _ = []"

fun creates :: "operation \<Rightarrow> bool" where
  "creates (CreateTable _) \<longleftrightarrow> True"
| "creates (CreateIndex _) \<longleftrightarrow> True"
| "creates (CreateExtension _) \<longleftrightarrow> True"
| "creates _ \<longleftrightarrow> False"

lemma run_operations_append:
  "run_operations (xs @ ys) s = (case run_operations xs s of Inl e \<Rightarrow> Inl e | Inr s' \<Rightarrow> run_operations ys s')"
  by (induction xs arbitrary: s) (simp_all split: sum.split)

lemma has_key_table: "has_key s f \<Longrightarrow> has_table s (fk_target f)"
  by (auto simp: has_key_def has_table_def intro: rev_image_eqI)

lemma create_table_Inr:
  "run_operation (CreateTable t) s = Inr s' \<longleftrightarrow> \<not> has_table s (tb_name t) \<and> tb_name t \<notin> set (map ix_name (sc_indexes s)) \<and>
     s' = s\<lparr>sc_tables := sc_tables s @ [t]\<rparr> \<and> (\<forall>f\<in>set (tb_foreign_keys t). has_key s' f)"
  by (auto simp: Let_def find_None_iff dest!: iffD1 [OF find_Some_iff] split: option.split)

lemma creates_keeps: "creates x \<Longrightarrow> run_operation x s = Inr s' \<Longrightarrow> schema_ok s \<Longrightarrow> schema_ok s'"
proof (cases x)
  case (CreateTable t)
  assume r: "run_operation x s = Inr s'" and ok: "schema_ok s"
  have t: "\<not> has_table s (tb_name t)" "s' = s\<lparr>sc_tables := sc_tables s @ [t]\<rparr>" "\<forall>f\<in>set (tb_foreign_keys t). has_table s' (fk_target f)"
    using r has_key_table unfolding CreateTable create_table_Inr by blast+
  show ?thesis using ok t by (auto simp: schema_ok_def has_table_def)
qed (auto simp: schema_ok_def has_table_def split: if_splits)

text \<open>A table just created is dropped again: nothing refers to it.\<close>

lemma undo_operation:
  assumes "creates x" and "run_operation x s = Inr s'" and "schema_ok s"
  shows "run_operations (inverse_operation x) (s'\<lparr>sc_extensions := e\<rparr>) = Inr (s\<lparr>sc_extensions := e\<rparr>)"
proof (cases x)
  case (CreateTable t)
  have t: "\<not> has_table s (tb_name t)" "s' = s\<lparr>sc_tables := sc_tables s @ [t]\<rparr>"
    using assms(2) unfolding CreateTable create_table_Inr by blast+
  have "\<not> (\<exists>u\<in>set (sc_tables s). \<exists>f\<in>set (tb_foreign_keys u). fk_target f = tb_name t)"
    using assms(3) t(1) unfolding schema_ok_def by metis
  moreover have "filter (\<lambda>u. tb_name u \<noteq> tb_name t) (sc_tables s) = sc_tables s"
    by (rule filter_True) (metis has_table_def image_eqI list.set_map t(1))
  moreover have "filter (\<lambda>i. ix_table i \<noteq> tb_name t) (sc_indexes s) = sc_indexes s"
    using assms(3) t(1) by (auto simp: schema_ok_def intro!: filter_True)
  ultimately show ?thesis unfolding CreateTable by (auto simp: t(2) has_table_def list_ex_iff)
next
  case (CreateIndex i)
  have i: "ix_name i \<notin> ix_name ` set (sc_indexes s)" "s' = s\<lparr>sc_indexes := sc_indexes s @ [i]\<rparr>"
    using assms(2) unfolding CreateIndex by (auto split: if_splits)
  have "filter (\<lambda>j. ix_name j \<noteq> ix_name i) (sc_indexes s) = sc_indexes s"
    by (rule filter_True) (metis i(1) image_eqI)
  then show ?thesis unfolding CreateIndex by (simp add: i(2))
qed (use assms in \<open>auto split: if_splits\<close>)

lemma undo_operations:
  "list_all creates xs \<Longrightarrow> run_operations xs s = Inr s' \<Longrightarrow> schema_ok s \<Longrightarrow>
   run_operations (concat (map inverse_operation (rev xs))) (s'\<lparr>sc_extensions := e\<rparr>) = Inr (s\<lparr>sc_extensions := e\<rparr>) \<and> schema_ok s'"
proof (induction xs arbitrary: s)
  case (Cons x xs)
  obtain s1 where s1: "run_operation x s = Inr s1" "run_operations xs s1 = Inr s'" using Cons.prems(2) by (auto split: sum.splits)
  have x: "creates x" "list_all creates xs" using Cons.prems(1) by simp_all
  have ok: "schema_ok s1" by (rule creates_keeps [OF x(1) s1(1) Cons.prems(3)])
  show ?case using Cons.IH [OF x(2) s1(2) ok] undo_operation [OF x(1) s1(1) Cons.prems(3), of e] by (simp add: run_operations_append)
qed simp

lemmas revision_defs = rev_0001_baseline_def rev_0002_organizations_def rev_0003_api_keys_def rev_0004_usage_records_def
  rev_0005_organization_policies_def rev_0007_prompt_templates_def rev_0008_audit_events_def rev_0009_semantic_chunks_def
  rev_0010_mcp_servers_def

lemma versions_reversible:
  "r \<in> set versions \<Longrightarrow> list_all creates (rv_upgrade r) \<and> rv_downgrade r = concat (map inverse_operation (rev (rv_upgrade r)))"
  unfolding versions_def by (auto simp: revision_defs idx_def)

section \<open>The chain\<close>

fun chain :: "string option \<Rightarrow> revision list \<Rightarrow> bool" where
  "chain c [] \<longleftrightarrow> True"
| "chain c (r # rs) \<longleftrightarrow> rv_down_revision r = c \<and> chain (Some (rv_revision r)) rs"

definition last_of :: "string option \<Rightarrow> revision list \<Rightarrow> string option" where
  "last_of c rs = (if rs = [] then c else Some (rv_revision (last rs)))"

lemma chain_append: "chain c (rs @ [r]) \<longleftrightarrow> chain c rs \<and> rv_down_revision r = last_of c rs"
  by (induction rs arbitrary: c) (auto simp: last_of_def)

lemma upgrade_path_chain: "chain c (upgrade_path vs c) \<and> set (upgrade_path vs c) \<subseteq> set vs"
proof (induction vs c rule: upgrade_path.induct)
  case (1 vs c)
  show ?case
  proof (cases "find (\<lambda>r. rv_down_revision r = c) vs")
    case (Some r)
    then have "r \<in> set vs" "rv_down_revision r = c" by (auto simp: find_Some_iff)
    with 1 [OF Some] Some set_remove1_subset [of r vs] show ?thesis by (subst (1 2) upgrade_path.simps) auto
  qed (simp add: upgrade_path.simps)
qed

lemma run_upgrades_append:
  "run_upgrades (rs @ [r]) st = (case run_upgrades rs st of Inl e \<Rightarrow> Inl e | Inr st' \<Rightarrow> run_upgrades [r] st')"
  by (induction rs st rule: run_upgrades.induct) (simp_all split: sum.split)

lemma run_upgrades_last: "run_upgrades rs (s, c) = Inr (s', h) \<Longrightarrow> h = last_of c rs"
  by (induction rs arbitrary: s c) (auto simp: last_of_def split: sum.splits)

definition reversible :: "revision \<Rightarrow> bool" where
  "reversible r \<longleftrightarrow> list_all creates (rv_upgrade r) \<and> rv_downgrade r = concat (map inverse_operation (rev (rv_upgrade r)))"

lemma find_revision:
  "r \<in> set vs \<Longrightarrow> distinct (map rv_revision vs) \<Longrightarrow> find (\<lambda>x. Some (rv_revision x) = Some (rv_revision r)) vs = Some r"
  by (induction vs) (auto simp: rev_image_eqI)

lemma run_downgrades_undo:
  assumes "distinct (map rv_revision vs)" and "\<forall>r\<in>set vs. reversible r"
  shows "run_upgrades rs (s, c) = Inr (s', h) \<Longrightarrow> chain c rs \<Longrightarrow> set rs \<subseteq> set vs \<Longrightarrow> schema_ok s \<Longrightarrow>
    schema_ok s' \<and> run_downgrades (length rs) vs (s'\<lparr>sc_extensions := e\<rparr>, h) = Inr (s\<lparr>sc_extensions := e\<rparr>, c)"
proof (induction rs arbitrary: s' h rule: rev_induct)
  case (snoc r rs)
  obtain s1 h1 where s1: "run_upgrades rs (s, c) = Inr (s1, h1)" "run_operations (rv_upgrade r) s1 = Inr s'" "h = Some (rv_revision r)"
    using snoc.prems(1) by (auto simp: run_upgrades_append split: sum.splits)
  have r: "chain c rs" "rv_down_revision r = h1" "set rs \<subseteq> set vs" "r \<in> set vs"
    using snoc.prems(2,3) run_upgrades_last [OF s1(1)] by (auto simp: chain_append)
  have IH: "schema_ok s1" "run_downgrades (length rs) vs (s1\<lparr>sc_extensions := e\<rparr>, h1) = Inr (s\<lparr>sc_extensions := e\<rparr>, c)"
    using snoc.IH [OF s1(1) r(1,3) snoc.prems(4)] by blast+
  have "reversible r" using assms(2) r(4) by blast
  then have "schema_ok s'" "run_operations (rv_downgrade r) (s'\<lparr>sc_extensions := e\<rparr>) = Inr (s1\<lparr>sc_extensions := e\<rparr>)"
    using undo_operations [OF _ s1(2) IH(1)] by (simp_all add: reversible_def)
  with IH(2) r(2) find_revision [OF r(4) assms(1)] show ?case by (simp add: s1(3))
qed simp

lemma offline_runs: "run_upgrades rs (s, c) = Inr (s', h) \<Longrightarrow> run_operations (concat (map rv_upgrade rs)) s = Inr s'"
  by (induction rs arbitrary: s c) (auto simp: run_operations_append split: sum.splits)

definition revision_names :: "string option list" where
  "revision_names = None # map (Some \<circ> rv_revision) versions"

lemma versions_chain:
  "distinct (map rv_revision versions)" "c \<in> set revision_names \<Longrightarrow> last_of c (upgrade_path versions c) = Some ''0010_mcp_servers''"
  "upgrade_path versions (Some ''0010_mcp_servers'') = []"
proof -
  show "distinct (map rv_revision versions)" by code_simp
  have "list_all (\<lambda>c. last_of c (upgrade_path versions c) = Some ''0010_mcp_servers'') revision_names" by code_simp
  then show "c \<in> set revision_names \<Longrightarrow> last_of c (upgrade_path versions c) = Some ''0010_mcp_servers''" by (auto simp: list_all_iff)
  show "upgrade_path versions (Some ''0010_mcp_servers'') = []" by code_simp
qed

text \<open>C37: upgrading is all or nothing, and undone by downgrading. From the schema of any revision, or the empty one, \<open>upgrade head\<close>
  either fails and changes nothing, or arrives at the last revision with a consistent catalog, where a second run has nothing left
  to do; the script of the offline mode leads to the same schema; and as many downgrades lead back to the tables and indexes of the
  start, only the extension staying installed.\<close>

theorem migrations_roundtrip:
  assumes "schema_ok s" and "current \<in> set revision_names" and "upgrade_head versions (s, current) = (err, s', now)"
  shows "case err of
      Some e \<Rightarrow> s' = s \<and> now = current
    | None \<Rightarrow> now = Some ''0010_mcp_servers'' \<and> schema_ok s' \<and> upgrade_head versions (s', now) = (None, s', now) \<and>
        run_operations (offline_script versions current) s = Inr s' \<and>
        run_downgrades (length (upgrade_path versions current)) versions (s', now) = Inr (s\<lparr>sc_extensions := sc_extensions s'\<rparr>, current)"
proof (cases "run_upgrades (upgrade_path versions current) (s, current)")
  case (Inl e)
  with assms(3) show ?thesis by (auto simp: upgrade_head_def)
next
  case (Inr st)
  with assms(3) have st: "st = (s', now)" "err = None" by (auto simp: upgrade_head_def)
  note run = Inr [unfolded st(1)]
  have "\<forall>r\<in>set versions. reversible r" using versions_reversible unfolding reversible_def by blast
  note undo = run_downgrades_undo [OF versions_chain(1) this run, of "sc_extensions s'"]
  have "now = Some ''0010_mcp_servers''" using run_upgrades_last [OF run] versions_chain(2) [OF assms(2)] by simp
  with undo upgrade_path_chain [of current versions] assms(1) offline_runs [OF run] show ?thesis
    by (simp add: st(2) upgrade_head_def versions_chain(3) offline_script_def)
qed

lemma migrations_roundtrip_witness:
  "\<exists>s'. upgrade_head versions (empty_schema, None) = (None, s', Some ''0010_mcp_servers'') \<and>
     run_downgrades 9 versions (s', Some ''0010_mcp_servers'') = Inr (empty_schema\<lparr>sc_extensions := sc_extensions s'\<rparr>, None)"
proof -
  have ok: "schema_ok empty_schema" "None \<in> set revision_names"
    by (simp_all add: schema_ok_def empty_schema_def revision_names_def)
  have n: "length (upgrade_path versions None) = 9" by code_simp
  have "fst (upgrade_head versions (empty_schema, None)) = None" by code_simp
  then obtain s' now where "upgrade_head versions (empty_schema, None) = (None, s', now)" by (metis prod.collapse)
  from migrations_roundtrip [OF ok(1,2) this] this n show ?thesis by auto
qed

section \<open>The migrated and the declared schema\<close>

definition migrated_schema :: schema where
  "migrated_schema = fst (snd (upgrade_head versions (empty_schema, None)))"

text \<open>A table without its unique constraints and the server's defaults of its columns, which are compared apart.\<close>

definition plain_table :: "table \<Rightarrow> table" where
  "plain_table t = t\<lparr>tb_columns := map (\<lambda>c. c\<lparr>cl_server_default := None\<rparr>) (tb_columns t), tb_unique := []\<rparr>"

definition uniques :: "table list \<Rightarrow> (string \<times> string list) set" where
  "uniques ts = (\<Union>t\<in>set ts. Pair (tb_name t) ` set (tb_unique t))"

definition server_defaults :: "table list \<Rightarrow> (string \<times> string \<times> string) set" where
  "server_defaults ts = (\<Union>t\<in>set ts. \<Union>c\<in>set (tb_columns t).
     case cl_server_default c of None \<Rightarrow> {} | Some d \<Rightarrow> {(tb_name t, cl_name c, d)})"

lemma schema_declared_parts:
  "fst (upgrade_head versions (empty_schema, None)) = None"
  "plain_table ` set (sc_tables migrated_schema) = (plain_table \<circ> declared_table) ` set orm_models"
  "uniques (sc_tables migrated_schema) = insert (''organization_model_entitlements'', [''organization_id'', ''model''])
     (uniques (map declared_table orm_models))"
  "set (sc_indexes migrated_schema) = {idx ''ix_organization_model_entitlements_organization_id'' ''organization_model_entitlements'' [''organization_id''],
     idx ''ix_usage_records_organization_id_created_at'' ''usage_records'' [''organization_id'', ''created_at'']} \<union>
     (\<Union>t\<in>set orm_models. set (declared_indexes t))"
  "server_defaults (sc_tables migrated_schema) = {(''mcp_servers'', ''headers'', quoted ''{}'' @ ''::jsonb'')}"
  "server_defaults (map declared_table orm_models) = {(''mcp_servers'', ''headers'', quoted ''{}'')}"
  "check_registered orm_models = Inr ()"
  by code_simp+


end
