(* ===== verification/Interleaving.thy ===== *)
theory Interleaving
  imports Redis
begin

text \<open>
  Requests with one idempotency key at the same time. The operations of \<open>RedisIdempotencyStore\<close> are several commands with
  an \<open>await\<close> each, so those of different requests interleave between the commands. An attempt is one request on its way
  through \<open>begin\<close>, the generation and \<open>complete\<close> or \<open>release\<close>; a schedule says which attempt sends its next command, and
  how its generation ends. No lease expires in the course of a schedule.
\<close>

section \<open>Attempts\<close>

datatype attempt =
    Waiting
  | Refused             \<comment> \<open>another record is there, and has not been read yet\<close>
  | Generating          \<comment> \<open>\<open>begin\<close> answered a miss\<close>
  | Releasing           \<comment> \<open>a lease was read, and has not been deleted yet\<close>
  | Conflict
  | Replayed string
  | Answered string
  | Failed

datatype generated = Success string | Failure

definition after_get :: "(unit + string option) \<Rightarrow> attempt" where
  "after_get raw = (case raw of
     Inr (Some existing) \<Rightarrow>
       (if existing = STATUS_IN_PROGRESS then Conflict
        else if startswith existing (STATUS_COMPLETED @ '':'') then Replayed (removeprefix existing (STATUS_COMPLETED @ '':''))
        else Conflict)
   | _ \<Rightarrow> Generating)"

text \<open>The next command of an attempt.\<close>

definition attempt_step ::
    "'r redis_client \<Rightarrow> int \<Rightarrow> uuid \<Rightarrow> string \<Rightarrow> generated \<Rightarrow> attempt \<Rightarrow> 'r \<Rightarrow> attempt \<times> 'r" where
  "attempt_step rc ttl org key g a r =
     (let redis_key = idem_key org key in
      case a of
        Waiting \<Rightarrow> (case rc_set rc redis_key STATUS_IN_PROGRESS True ttl r of
            (Inl _, r1) \<Rightarrow> (Generating, r1)
          | (Inr claimed, r1) \<Rightarrow> (if claimed then Generating else Refused, r1))
      | Refused \<Rightarrow> (case rc_get rc redis_key r of (raw, r1) \<Rightarrow> (after_get raw, r1))
      | Generating \<Rightarrow> (case g of
            Success payload \<Rightarrow> (Answered payload, idem_complete rc ttl org key payload r)
          | Failure \<Rightarrow> (case rc_get rc redis_key r of
                (Inl _, r1) \<Rightarrow> (Failed, r1)
              | (Inr current, r1) \<Rightarrow> (if current = Some STATUS_IN_PROGRESS then Releasing else Failed, r1)))
      | Releasing \<Rightarrow> (Failed, snd (rc_delete rc redis_key r))
      | _ \<Rightarrow> (a, r))"

record 'r race =
  rz_redis :: 'r
  rz_attempts :: "attempt list"

definition race_step :: "'r redis_client \<Rightarrow> int \<Rightarrow> uuid \<Rightarrow> string \<Rightarrow> 'r race \<Rightarrow> nat \<times> generated \<Rightarrow> 'r race" where
  "race_step rc ttl org key s turn = (case turn of (i, g) \<Rightarrow>
     if i < length (rz_attempts s) then
       (case attempt_step rc ttl org key g (rz_attempts s ! i) (rz_redis s) of
          (a, r) \<Rightarrow> \<lparr>rz_redis = r, rz_attempts = (rz_attempts s)[i := a]\<rparr>)
     else s)"

definition race :: "'r redis_client \<Rightarrow> int \<Rightarrow> uuid \<Rightarrow> string \<Rightarrow> (nat \<times> generated) list \<Rightarrow> nat \<Rightarrow> 'r \<Rightarrow> 'r race" where
  "race rc ttl org key schedule n r =
     foldl (race_step rc ttl org key) \<lparr>rz_redis = r, rz_attempts = replicate n Waiting\<rparr> schedule"

section \<open>Uninterrupted attempts\<close>

text \<open>The commands in a row are the operations of the store.\<close>

lemma begin_uninterrupted:
  "(case attempt_step rc ttl org key g Waiting r of (Refused, r1) \<Rightarrow> attempt_step rc ttl org key g Refused r1 | ar \<Rightarrow> ar) =
   (case idem_begin rc ttl org key r of
      (IdempotencyMiss, r') \<Rightarrow> (Generating, r')
    | (IdempotencyInProgress, r') \<Rightarrow> (Conflict, r')
    | (IdempotencyCompleted p, r') \<Rightarrow> (Replayed p, r'))"
  by (auto simp: attempt_step_def idem_begin_def after_get_def Let_def split: prod.split sum.split option.split)

lemma release_uninterrupted:
  "(case attempt_step rc ttl org key Failure Generating r of (Releasing, r1) \<Rightarrow> attempt_step rc ttl org key Failure Releasing r1 | ar \<Rightarrow> ar) =
   (Failed, idem_release rc org key r)"
  by (auto simp: attempt_step_def idem_release_def Let_def split: prod.split sum.split)

section \<open>At most one generation, unless one fails\<close>

fun works :: "attempt \<Rightarrow> bool" where
  "works Generating \<longleftrightarrow> True"
| "works (Answered _) \<longleftrightarrow> True"
| "works _ \<longleftrightarrow> False"

definition workers :: "attempt list \<Rightarrow> attempt list" where
  "workers = filter works"

lemma workers_update:
  assumes "i < length xs"
  shows "\<not> works (xs ! i) \<Longrightarrow> \<not> works a \<Longrightarrow> workers (xs[i := a]) = workers xs"
    and "workers xs = [] \<Longrightarrow> works a \<Longrightarrow> workers (xs[i := a]) = [a]"
    and "workers xs = [b] \<Longrightarrow> works (xs ! i) \<Longrightarrow> works a \<Longrightarrow> workers (xs[i := a]) = [a]"
proof -
  note split = id_take_nth_drop [OF assms] upd_conv_take_nth_drop [OF assms, of a]
  have xs: "workers xs = workers (take i xs) @ (if works (xs ! i) then [xs ! i] else []) @ workers (drop (Suc i) xs)"
    by (subst split(1)) (simp add: workers_def)
  have upd: "workers (xs[i := a]) = workers (take i xs) @ (if works a then [a] else []) @ workers (drop (Suc i) xs)"
    by (simp add: split(2) workers_def)
  show "\<not> works (xs ! i) \<Longrightarrow> \<not> works a \<Longrightarrow> workers (xs[i := a]) = workers xs"
    "workers xs = [] \<Longrightarrow> works a \<Longrightarrow> workers (xs[i := a]) = [a]"
    "workers xs = [b] \<Longrightarrow> works (xs ! i) \<Longrightarrow> works a \<Longrightarrow> workers (xs[i := a]) = [a]"
    using xs upd by (auto split: if_splits simp: append_eq_Cons_conv)
qed

lemma workers_waiting: "set xs \<subseteq> {Waiting} \<Longrightarrow> workers xs = []"
  by (auto simp: workers_def filter_empty_conv)

text \<open>The record under the key, and what the attempts have come to.\<close>

definition agrees :: "string option \<Rightarrow> attempt list \<Rightarrow> bool" where
  "agrees v xs \<longleftrightarrow>
     (v = None \<and> set xs \<subseteq> {Waiting}) \<or>
     (v = Some STATUS_IN_PROGRESS \<and> workers xs = [Generating] \<and> set xs \<subseteq> {Waiting, Refused, Conflict, Generating}) \<or>
     (\<exists>p. v = Some (STATUS_COMPLETED @ '':'' @ p) \<and> workers xs = [Answered p] \<and>
        set xs \<subseteq> {Waiting, Refused, Conflict, Replayed p, Generating, Answered p})"

text \<open>The effect of a command on that record.\<close>

fun effect :: "string \<Rightarrow> string option \<Rightarrow> attempt \<Rightarrow> string option \<times> attempt" where
  "effect p v Waiting = (if v = None then (Some STATUS_IN_PROGRESS, Generating) else (v, Refused))"
| "effect p v Refused = (v, after_get (Inr v))"
| "effect p v Generating = (Some (STATUS_COMPLETED @ '':'' @ p), Answered p)"
| "effect p v Releasing = (None, Failed)"
| "effect p v a = (v, a)"

lemma after_get_record:
  "after_get (Inr (Some STATUS_IN_PROGRESS)) = Conflict" "after_get (Inr (Some (STATUS_COMPLETED @ '':'' @ p))) = Replayed p"
  by (simp_all add: after_get_def del: append.simps)

lemma effect_agrees:
  assumes "agrees v xs" and "i < length xs" and "effect p v (xs ! i) = (v', a)"
  shows "agrees v' (xs[i := a])"
proof -
  have mem: "xs ! i \<in> set xs" and upd: "set (xs[i := a]) \<subseteq> insert a (set xs)"
    using assms(2) by (simp_all add: set_update_subset_insert)
  from assms(1) consider
      "v = None" "set xs \<subseteq> {Waiting}"
    | "v = Some STATUS_IN_PROGRESS" "workers xs = [Generating]" "set xs \<subseteq> {Waiting, Refused, Conflict, Generating}"
    | q where "v = Some (STATUS_COMPLETED @ '':'' @ q)" "workers xs = [Answered q]"
        "set xs \<subseteq> {Waiting, Refused, Conflict, Replayed q, Generating, Answered q}"
    unfolding agrees_def by blast
  then show ?thesis
  proof cases
    case 1
    then have w: "xs ! i = Waiting" "workers xs = []" using mem by (auto simp: workers_def filter_empty_conv)
    then show ?thesis using 1 assms(3) upd workers_update(2) [OF assms(2) w(2)] by (auto simp: agrees_def)
  next
    case 2
    note two = this
    from 2(3) mem consider "xs ! i = Waiting" | "xs ! i = Refused" | "xs ! i = Conflict" | "xs ! i = Generating" by blast
    then show ?thesis
    proof cases
      case 4
      with assms(3) have a: "v' = Some (STATUS_COMPLETED @ '':'' @ p)" "a = Answered p" by auto
      from 4 workers_update(3) [OF assms(2) two(2)] have "workers (xs[i := a]) = [Answered p]" by (simp add: a(2))
      with two(3) upd show ?thesis unfolding agrees_def a by blast
    next
      case 1
      with assms(3) two(1) have a: "v' = v" "a = Refused" by auto
      with workers_update(1) [OF assms(2), of Refused] 1 two upd show ?thesis unfolding agrees_def by auto
    next
      case 2
      with assms(3) two(1) have a: "v' = v" "a = Conflict" by (auto simp: after_get_record)
      with workers_update(1) [OF assms(2), of Conflict] \<open>xs ! i = Refused\<close> two upd show ?thesis unfolding agrees_def by auto
    next
      case 3
      with assms(3) have "v' = v" "a = xs ! i" by auto
      with assms(1) show ?thesis by simp
    qed
  next
    case 3
    have "xs ! i \<noteq> Generating"
    proof
      assume "xs ! i = Generating"
      with mem have "Generating \<in> set (workers xs)" by (simp add: workers_def)
      with 3(2) show False by simp
    qed
    with 3(3) mem consider "xs ! i = Waiting" | "xs ! i = Refused" | "xs ! i = Conflict" | "xs ! i = Replayed q" | "xs ! i = Answered q" by blast
    then have "v' = v \<and> a = xs ! i \<or> v' = v \<and> \<not> works (xs ! i) \<and> a \<in> {Refused, Conflict, Replayed q}"
      using assms(3) 3(1) by cases (auto simp: after_get_record simp del: append.simps)
    then show ?thesis
    proof
      assume "v' = v \<and> a = xs ! i"
      with assms(1) show ?thesis by simp
    next
      assume a: "v' = v \<and> \<not> works (xs ! i) \<and> a \<in> {Refused, Conflict, Replayed q}"
      then have "workers (xs[i := a]) = [Answered q]" using workers_update(1) [OF assms(2)] 3(2) by auto
      with a 3 upd show ?thesis unfolding agrees_def by blast
    qed
  qed
qed

context healthy_redis
begin

lemma set_then:
  obtains r' where "rc_set rc k v nx ex r = (Inr (\<not> nx \<or> val r k = None), r')"
    "val r' = (if \<not> nx \<or> val r k = None then (val r)(k \<mapsto> v) else val r)"
proof -
  obtain b r' where s: "rc_set rc k v nx ex r = (Inr b, r')"
    using set_ok [of k v nx ex r] by (cases "rc_set rc k v nx ex r") auto
  from set_answer [OF s] s show thesis by (intro that [of r']) auto
qed

lemma get_then:
  obtains r' where "rc_get rc k r = (Inr (val r k), r')" "val r' = val r"
proof -
  obtain x r' where g: "rc_get rc k r = (Inr x, r')" using get_ok [of k r] by (cases "rc_get rc k r") auto
  from get_answer [OF g] get_state [OF g] g show thesis by (intro that [of r']) auto
qed

lemma delete_then:
  obtains r' where "rc_delete rc k r = (Inr (), r')" "val r' = (val r)(k := None)"
proof -
  obtain r' where d: "rc_delete rc k r = (Inr (), r')" using delete_ok [of k r] by (cases "rc_delete rc k r") auto
  from delete_state [OF d] d show thesis by (intro that [of r']) auto
qed

lemma step_effect:
  assumes "attempt_step rc ttl org key (Success p) a r = (a', r')"
  shows "effect p (val r (idem_key org key)) a = (val r' (idem_key org key), a')" and "k' \<noteq> idem_key org key \<Longrightarrow> val r' k' = val r k'"
proof -
  let ?k = "idem_key org key"
  obtain r1 where r1: "rc_set rc ?k STATUS_IN_PROGRESS True ttl r = (Inr (val r ?k = None), r1)"
    "val r1 = (if val r ?k = None then (val r)(?k \<mapsto> STATUS_IN_PROGRESS) else val r)" by (rule set_then [of ?k STATUS_IN_PROGRESS True ttl r]) simp
  obtain r2 where r2: "rc_get rc ?k r = (Inr (val r ?k), r2)" "val r2 = val r" by (rule get_then)
  obtain r3 where r3: "rc_set rc ?k (STATUS_COMPLETED @ '':'' @ p) False ttl r = (Inr True, r3)"
    "val r3 = (val r)(?k \<mapsto> STATUS_COMPLETED @ '':'' @ p)" by (rule set_then [of ?k "STATUS_COMPLETED @ '':'' @ p" False ttl r]) simp
  obtain r4 where r4: "rc_delete rc ?k r = (Inr (), r4)" "val r4 = (val r)(?k := None)" by (rule delete_then)
  have "effect p (val r ?k) a = (val r' ?k, a') \<and> (k' \<noteq> ?k \<longrightarrow> val r' k' = val r k')"
    using assms r1 r2 r3 r4 by (cases a) (auto simp: attempt_step_def Let_def idem_complete_def split: if_splits simp del: append.simps append_Cons)
  then show "effect p (val r ?k) a = (val r' ?k, a')" "k' \<noteq> ?k \<Longrightarrow> val r' k' = val r k'" by blast+
qed

lemma race_agrees:
  assumes "\<forall>(i, g)\<in>set schedule. g \<noteq> Failure" and "val r0 (idem_key org key) = None"
    and "s = race rc ttl org key schedule n r0"
  shows "agrees (val (rz_redis s) (idem_key org key)) (rz_attempts s)" and "k' \<noteq> idem_key org key \<Longrightarrow> val (rz_redis s) k' = val r0 k'"
proof -
  have step: "agrees (val (rz_redis t') (idem_key org key)) (rz_attempts t') \<and> (k' \<noteq> idem_key org key \<longrightarrow> val (rz_redis t') k' = val (rz_redis t) k')"
    if "agrees (val (rz_redis t) (idem_key org key)) (rz_attempts t)" "g \<noteq> Failure" "t' = race_step rc ttl org key t (i, g)" for t t' i g
  proof (cases "i < length (rz_attempts t)")
    case True
    obtain p where g: "g = Success p" using \<open>g \<noteq> Failure\<close> by (cases g) auto
    obtain a r where ar: "attempt_step rc ttl org key g (rz_attempts t ! i) (rz_redis t) = (a, r)" by (metis surj_pair)
    note e = step_effect [OF ar [unfolded g]]
    from effect_agrees [OF that(1) True e(1)] e(2) show ?thesis by (simp add: that(3) race_step_def True ar)
  qed (use that in \<open>simp add: race_step_def\<close>)
  have "agrees (val (rz_redis s) (idem_key org key)) (rz_attempts s) \<and> (k' \<noteq> idem_key org key \<longrightarrow> val (rz_redis s) k' = val r0 k')"
    using assms(1) unfolding assms(3) race_def
  proof (induction schedule rule: rev_induct)
    case Nil
    with assms(2) show ?case by (auto simp: agrees_def)
  next
    case (snoc turn schedule)
    obtain i g where t: "turn = (i, g)" "g \<noteq> Failure" using snoc.prems by (cases turn) auto
    have IH: "agrees (val (rz_redis (foldl (race_step rc ttl org key) \<lparr>rz_redis = r0, rz_attempts = replicate n Waiting\<rparr> schedule)) (idem_key org key))
        (rz_attempts (foldl (race_step rc ttl org key) \<lparr>rz_redis = r0, rz_attempts = replicate n Waiting\<rparr> schedule))"
      and other: "k' \<noteq> idem_key org key \<longrightarrow>
        val (rz_redis (foldl (race_step rc ttl org key) \<lparr>rz_redis = r0, rz_attempts = replicate n Waiting\<rparr> schedule)) k' = val r0 k'"
      using snoc by auto
    from step [OF IH t(2) refl, of i] other show ?case by (simp add: t(1))
  qed
  then show "agrees (val (rz_redis s) (idem_key org key)) (rz_attempts s)" "k' \<noteq> idem_key org key \<Longrightarrow> val (rz_redis s) k' = val r0 k'"
    by blast+
qed

end

text \<open>C9: concurrent requests with one idempotency key are generated at most once. However the commands of any number of requests
  interleave, as long as Redis answers, the lease does not expire and no generation fails, at most one of them generates or has
  answered, every replay is the answer of that one, none is lost, and the records of other keys are untouched.\<close>

theorem one_generation:
  assumes "healthy_redis rc val bkt" and "val r0 (idem_key org key) = None" and "\<forall>(i, g)\<in>set schedule. g \<noteq> Failure"
    and "s = race rc ttl org key schedule n r0"
  shows "length (workers (rz_attempts s)) \<le> 1 \<and> (\<forall>p. Replayed p \<in> set (rz_attempts s) \<longrightarrow> workers (rz_attempts s) = [Answered p]) \<and>
    Failed \<notin> set (rz_attempts s) \<and> (\<forall>k. k \<noteq> idem_key org key \<longrightarrow> val (rz_redis s) k = val r0 k)"
  using healthy_redis.race_agrees [OF assms(1,3,2,4)]
  by (auto simp: agrees_def workers_waiting)

lemma one_generation_witness:
  "length (workers (rz_attempts (race map_redis 60 7 ''k'' [(0, Success ''a''), (1, Success ''b''), (0, Success ''a''), (1, Success ''b'')] 3
      \<lparr>ms_strings = [], ms_hashes = []\<rparr>))) \<le> 1"
proof -
  have "ms_val \<lparr>ms_strings = [], ms_hashes = []\<rparr> (idem_key 7 ''k'') = None" by (simp add: ms_val_def dict_get_def)
  moreover have "\<forall>(i, g)\<in>set [(0 :: nat, Success ''a''), (1, Success ''b''), (0, Success ''a''), (1, Success ''b'')]. g \<noteq> Failure" by simp
  ultimately show ?thesis using one_generation [OF reference.healthy_redis_axioms _ _ refl] by blast
qed

text \<open>C39: a failing request breaks this. \<open>begin\<close> is not atomic: a request that was refused because of another's lease, and reads the
  record only after that one has failed and released it, goes on without a lease of its own, and the next request
  obtains one: two requests with the same key generate at the same time.\<close>

theorem generated_twice:
  assumes "healthy_redis rc val bkt" and "val r0 (idem_key org key) = None"
  shows "\<exists>schedule. rz_attempts (race rc ttl org key schedule 3 r0) = [Failed, Generating, Generating]"
proof -
  let ?k = "idem_key org key"
  note set_then = healthy_redis.set_then [OF assms(1)] and get_then = healthy_redis.get_then [OF assms(1)]
    and delete_then = healthy_redis.delete_then [OF assms(1)]
  obtain r1 where 1: "rc_set rc ?k STATUS_IN_PROGRESS True ttl r0 = (Inr True, r1)" "val r1 ?k = Some STATUS_IN_PROGRESS"
    by (rule set_then [of ?k STATUS_IN_PROGRESS True ttl r0]) (simp add: assms(2))
  obtain r2 where 2: "rc_set rc ?k STATUS_IN_PROGRESS True ttl r1 = (Inr False, r2)" "val r2 ?k = Some STATUS_IN_PROGRESS"
    by (rule set_then [of ?k STATUS_IN_PROGRESS True ttl r1]) (simp add: 1)
  obtain r3 where 3: "rc_get rc ?k r2 = (Inr (Some STATUS_IN_PROGRESS), r3)" by (rule get_then [of ?k r2]) (simp add: 2)
  obtain r4 where 4: "rc_delete rc ?k r3 = (Inr (), r4)" "val r4 ?k = None" by (rule delete_then [of ?k r3]) simp
  obtain r5 where 5: "rc_get rc ?k r4 = (Inr None, r5)" "val r5 ?k = None" by (rule get_then [of ?k r4]) (simp add: 4)
  obtain r6 where 6: "rc_set rc ?k STATUS_IN_PROGRESS True ttl r5 = (Inr True, r6)"
    by (rule set_then [of ?k STATUS_IN_PROGRESS True ttl r5]) (simp add: 5)
  have "rz_attempts (race rc ttl org key [(0, Failure), (1, Failure), (0, Failure), (0, Failure), (1, Failure), (2, Failure)] 3 r0) =
      [Failed, Generating, Generating]"
    by (simp add: race_def race_step_def attempt_step_def after_get_def Let_def 1 2 3 4 5 6 numeral_3_eq_3)
  then show ?thesis by blast
qed

lemma generated_twice_witness:
  "\<exists>schedule. rz_attempts (race map_redis 60 7 ''k'' schedule 3 \<lparr>ms_strings = [], ms_hashes = []\<rparr>) = [Failed, Generating, Generating]"
  by (rule generated_twice [OF reference.healthy_redis_axioms]) (simp add: ms_val_def dict_get_def)

end
