(* ===== verification/Lifespan.thy ===== *)
theory Lifespan
  imports Deployment
begin

text \<open>
  The resources of the application (\<open>application_lifespan\<close> of \<open>api/dependencies.py\<close>, \<open>infrastructure/db/engine.py\<close>,
  \<open>infrastructure/redis/client.py\<close>): what is opened and closed, in which order, when opening, serving or closing fails. Whether
  opening or closing a resource raises is a parameter. The main result says exactly when every resource opened is closed again.
\<close>

datatype resource = Engine string | RedisClient string | HttpClient

datatype lifecycle = Opens resource | Closes resource

definition create_db_engine :: "string \<Rightarrow> resource" where
  "create_db_engine database_url = Engine database_url"

definition create_redis_client :: "string \<Rightarrow> resource" where
  "create_redis_client redis_url = RedisClient redis_url"

text \<open>\<open>async with httpx.AsyncClient()\<close> around serving: an exception of the exit replaces that of the body.\<close>

definition serve_with_http :: "(resource \<Rightarrow> exn option) \<Rightarrow> (resource \<Rightarrow> exn option) \<Rightarrow> exn option \<Rightarrow> lifecycle list \<times> exn option" where
  "serve_with_http opens closes served = (case opens HttpClient of
     Some e \<Rightarrow> ([], Some e)
   | None \<Rightarrow> ([Opens HttpClient, Closes HttpClient], (case closes HttpClient of Some e \<Rightarrow> Some e | None \<Rightarrow> served)))"

text \<open>The \<open>finally\<close> clause.\<close>

definition close_shared :: "(resource \<Rightarrow> exn option) \<Rightarrow> resource \<Rightarrow> resource \<Rightarrow> exn option \<Rightarrow> lifecycle list \<times> exn option" where
  "close_shared closes redis engine failure = (case closes redis of
     Some e \<Rightarrow> ([Closes redis], Some e)
   | None \<Rightarrow> ([Closes redis, Closes engine], (case closes engine of Some e \<Rightarrow> Some e | None \<Rightarrow> failure)))"

definition application_lifespan ::
    "settings \<Rightarrow> (resource \<Rightarrow> exn option) \<Rightarrow> (resource \<Rightarrow> exn option) \<Rightarrow> exn option \<Rightarrow> lifecycle list \<times> exn option" where
  "application_lifespan st opens closes served =
     (let engine = create_db_engine (st_database_url st) in
      case opens engine of
        Some e \<Rightarrow> ([], Some e)
      | None \<Rightarrow>
        (let redis = create_redis_client (st_redis_url st) in
         case opens redis of
           Some e \<Rightarrow> ([Opens engine], Some e)
         | None \<Rightarrow>
           (case serve_with_http opens closes served of (steps, failure) \<Rightarrow>
             (case close_shared closes redis engine failure of (steps', failure') \<Rightarrow>
               ([Opens engine, Opens redis] @ steps @ steps', failure')))))"

definition opened :: "lifecycle list \<Rightarrow> resource list" where
  "opened steps = concat (map (\<lambda>s. case s of Opens r \<Rightarrow> [r] | Closes _ \<Rightarrow> []) steps)"

definition closed :: "lifecycle list \<Rightarrow> resource list" where
  "closed steps = concat (map (\<lambda>s. case s of Closes r \<Rightarrow> [r] | Opens _ \<Rightarrow> []) steps)"

text \<open>Resources are closed in the reverse order, each once. The engine is left open in two cases: the Redis client cannot be
  created, or its closing raises.\<close>

theorem lifespan_closes:
  assumes "application_lifespan st opens closes served = (steps, failure)"
  shows "closed steps = rev (opened steps) \<or>
    (Engine (st_database_url st) \<in> set (opened steps) - set (closed steps) \<and>
      (opens (RedisClient (st_redis_url st)) \<noteq> None \<or> closes (RedisClient (st_redis_url st)) \<noteq> None))"
    and "\<lbrakk>\<And>r. opens r = None; \<And>r. closes r = None\<rbrakk> \<Longrightarrow> failure = served \<and> length (closed steps) = 3"
  using assms
  by (auto simp: application_lifespan_def serve_with_http_def close_shared_def create_db_engine_def create_redis_client_def Let_def
      opened_def closed_def split: option.splits)
    metis+

end
