(* ===== verification/Spec2Isabelle.thy ===== *)
theory Spec2Isabelle
  imports Context Prompt Server AsyncSdk Migrations Interleaving Lifespan
begin

text \<open>
  A model of the AI Runtime and of its Python SDK, with the theorems that make it correct. The service is an HTTP API in front of several
  providers of language models: it authenticates a tenant's request, prepares the messages (prompt template, retrieved chunks,
  tools of MCP servers, context budget), applies rate limit, idempotency, cache and policy, calls a provider with retries and
  failover, records usage, and answers in JSON or as a stream of events. Paths below are relative to \<open>src/src/ai_runtime\<close>; those of the
  SDK and the migrations are \<open>src/sdk/python/src/ai_runtime_sdk\<close> and \<open>src/alembic\<close>.

  HOW THE CODE IS MODELLED. A class is a record whose prefixed fields are its attributes, an enumeration a datatype; the
  constructor of a frozen dataclass is a function \<open>mk_*\<close> with the checks of its \<open>__post_init__\<close>. An exception is a value of the
  datatype \<open>exn\<close> (Errors), and a function that may raise returns \<open>exn + 'a\<close>. Code with effects is an action
  \<open>'s \<Rightarrow> (exn + 'a) \<times> 's\<close> (Prelude), an \<open>async\<close> method the action of its body. The state of a request is the
  world of CreateResponse: database, Redis, upstream, metrics, clocks and identifiers; a use case is a function on worlds in the order of
  the calls of the code, with every early return and handler. A generator is a list of events and how it ended. A dictionary is a list
  of pairs in insertion order, an \<open>int\<close> an integer, a \<open>str\<close> a list of characters up to 255, a \<open>float\<close> an exact
  binary64 value with its rounding (PyFloat), \<open>Decimal\<close> a rational rounded where the code rounds, a \<open>UUID\<close> and the words of SHA-256
  machine words.

  THE THEORIES, bottom up.
  Vocabulary: Prelude (results, actions, dictionaries, what an action keeps), PyString, Uuid, PyFloat, Json, PyJson, Calendar, Sha256:
  the parts of Python and its library the code uses (strip, partition, repr of floats, json.loads and json.dumps, datetime arithmetic,
  hashlib). Errors: the exceptions.
  Domain: Generation (domain/generation.py), Routing (domain/routing.py, application/routing), Prompt (domain/prompt.py), Context
  (application/context, infrastructure/tokens), Entities (domain/organization.py, api_key.py, organization_policy.py, usage.py, audit.py,
  infrastructure/pricing).
  State: Database (infrastructure/db/models and repositories: tables as lists of rows with their keys and widths), Redis
  (infrastructure/redis), Metrics (telemetry/metrics.py), Interleaving (the commands of the idempotency store, one at a time).
  Use cases: Executor (application/resilience/provider_executor.py), ApiKeys (application/organizations, api_keys, auth, prompts), Policy
  (application/policy), ResponseStore (stored payloads and fingerprints), CreateResponse (application/responses/create_response.py), Mcp
  (application/mcp, infrastructure/mcp), Rag (application/rag, semantic, providers/openai/embedding.py).
  Providers: Upstream (what the adapters share), OpenAI, Anthropic, Gemini (providers), Providers (the executor over the three).
  HTTP: Sse (frames and their reader), Pydantic (validators), Schemas (api/schemas/responses.py), Http (error envelope, credentials,
  correlation middleware), Logging (telemetry/logging.py), Endpoint (api/routes/responses.py), Admin and Tenant (the other routes),
  Deployment (config/settings.py, the builders of api/dependencies.py), Lifespan (what the application opens and closes), App (api/app.py:
  routes, dispatch, handlers), Server (the service over time).
  Around it: Sdk (client, payloads, models, errors, frames), AsyncSdk (the asynchronous client), Migrations (alembic, and what infrastructure/db/models declares).

  HOW THEY MEET. App.app_call is one request from the wire to the wire: the middleware around the router, the router's dispatch, the
  credentials, the route (Endpoint.serve_responses, Tenant.serve_tenant, Admin.serve_operator) and the response. POST /v1/responses
  builds a command (prepare_command) and runs CreateResponse.create_response_execute or create_response_stream, which use the executor
  over the adapters Deployment builds. Server.served iterates requests on one state, with arbitrary changes of Redis, upstream, identifiers and
  clocks in between.

  THE INTERFACES are locales: redis_client and healthy_redis (what the adapters rely on), idempotency_store, exact_idempotency_store and response_cache (the ports,
  proved of the adapters by sublocale), keyed_repository (the tables of usage and audit), executor_frame (what an observation the
  providers keep stays through retries and failover), event_loop and sound_provider (the streams and the calls of an adapter),
  ledger_invariant (what the two ledgers keep, a use case keeps; for well-formedness and for the runs of the database's abstract machine).
  Each is interpreted on the model's own definitions.

  WHAT IS SHOWN. Per component: validation is exact; routing chains; retry budgets; the executor returns
  the first success in the order of the chain; templates render what they declare; truncation removes the oldest units and no more than
  needed; token bucket bounds; JSON and frames are read back as written; adapters raise nothing but errors the API knows; the error
  envelope. Across components: a tenant's request reads and writes its own rows only; authentication is sound,
  revocation final; a lease is settled; usage is what was delivered; a client of the SDK sees the events, the errors and the requests as they were sent. Of the
  whole service: every request is answered, with its identifier, and counted once (request_answered, requests_all_counted); nothing
  changes without a credential (perimeter); the database's constraints hold in every reachable state (service_invariant), by refinement of each
  request to a run of an abstract machine (request_refines). Of the deployment: migrations are undone by their downgrades and build the
  declared schema but for three objects. Of concurrent requests with one idempotency key: at most one generates (one_generation), unless one fails in
  the course of it (generated_twice). Of the asynchronous client: it is the synchronous one, and yields an event with the line that completes it.

  BOUNDS AND FUEL. json.loads runs on fuel, twice the length of the text plus two; parse_fuel_enough shows that it suffices. Retries and
  failover recurse on the attempts and routes left, and end (execute_work_bounded). repr of a float tries 1 to 17 digits, which is enough.
  Counters are exact below 2 ^ 53. The upgrade path removes a revision at each step.

  PARAMETERS, with what is assumed of them where a theorem needs it: the Redis client (a command that raises may or may not have taken
  effect), the HTTP clients, Argon2 (hasher: a secret verifies against its own hash) and the random bytes of a secret, the clocks and uuid4, asyncio.sleep,
  the order in which the database scans rows and pgvector sorts them, what pydantic accepts as a number, truth value, UUID or instant, whether urllib
  accepts a bracketed host, and of the framework the matching of paths, the reading of a body, the answer to an unmatched request, the JSON text of an
  answer and the debug page. The effect of a migration's operation on the catalog is that of the SQL statement.

  NOT MODELLED. Requests run one after the other, except for the idempotency store (Interleaving): the races of the other components (two requests that pass the
  monthly quota together, two versions of a prompt, which a unique constraint decides) are outside of the model. The consumer of a stream reads it to its end: a
  client that disconnects is not modelled. The token bucket's script computes on rationals, the code in floats. The providers of api/dependencies.py that only pass
  a session to a constructor have no counterpart: a repository operation is the transaction it commits. The log records other than the two of a request are
  left out. The protocols in ports are the types of the functions passed. Strings are limited to characters up to 255, and lone
  surrogates do not occur.
\<close>

section \<open>Routing and generation\<close>

text \<open>The failover chain. A resolved chain starts with the requested model, contains only routes of
  the catalog, each model once, the fallbacks in the order of the failover catalog, and leaves out
  none of the listed fallbacks the catalog supports.\<close>

theorem route_chain:
  assumes "resolve_route_chain m cat (Some fo) = Inr rs"
  shows "mr_model (hd rs) = m \<and> (\<forall>r\<in>set rs. dict_get cat (mr_model r) = Some (mr_provider r)) \<and>
    distinct (map mr_model rs) \<and>
    subseq (map mr_model (tl rs)) (case dict_get fo m of None \<Rightarrow> [] | Some ms \<Rightarrow> ms) \<and>
    (\<forall>x\<in>set (case dict_get fo m of None \<Rightarrow> [] | Some ms \<Rightarrow> ms).
       dict_get cat x \<noteq> None \<longrightarrow> x \<in> set (map mr_model rs))"
  using resolve_route_chain_spec [OF assms] by (auto simp: Let_def route_in_def)

lemma route_chain_witness:
  "\<exists>rs. resolve_route_chain ''gpt-4o'' DEFAULT_MODEL_CATALOG (Some DEFAULT_FAILOVER_CATALOG) = Inr rs \<and>
     length rs = 3 \<and> distinct (map mr_model rs)"
proof -
  let ?rs = "[\<lparr>mr_model = ''gpt-4o'', mr_provider = ''openai''\<rparr>,
     \<lparr>mr_model = ''claude-3-5-sonnet-20241022'', mr_provider = ''anthropic''\<rparr>,
     \<lparr>mr_model = ''gemini-2.5-flash'', mr_provider = ''gemini''\<rparr>]"
  have "resolve_route_chain ''gpt-4o'' DEFAULT_MODEL_CATALOG (Some DEFAULT_FAILOVER_CATALOG) = Inr ?rs"
    by code_simp
  with route_chain [OF this] show ?thesis by (intro exI [of _ ?rs]) simp
qed

end
